(* ===== verification/Playground_Prelude.thy ===== *)
theory Playground_Prelude
  imports Main "HOL-Library.Word" "HOL-Library.List_Lexorder" "HOL-Library.Char_ord"
begin

text \<open>
  Shared vocabulary of the development: Rust's result type and the combinators the code uses on
  it, byte strings, the io and task errors every component passes along, the runs of an event
  loop with the contract that lifts a one-step invariant to a run, and the contract between a
  parser and the printer of the values it accepts.
\<close>

named_theorems result_simps "equations of the result combinators"
named_theorems loop_inv "one-step invariants of event loops"

subsection \<open>Strings and machine integers\<close>

text \<open>
  A Rust \<open>String\<close> or \<open>&str\<close> is a sequence of UTF-8 bytes and a \<open>Vec<u8>\<close> is any sequence of
  bytes. Both are lists of \<open>char\<close>, which in HOL is exactly one byte; \<open>Utf8_Std\<close> says which
  byte sequences are UTF-8. \<open>len()\<close> of either counts bytes, as \<open>length\<close> does.
\<close>

type_synonym bytes = "char list"
type_synonym u64 = "64 word"
type_synonym usize = "64 word"

definition usize_max :: nat where
  "usize_max = 2 ^ 64 - 1"

text \<open>\<open>usize::saturating_add\<close>, on the values of the words.\<close>

definition saturating_add :: "nat \<Rightarrow> nat \<Rightarrow> nat" where
  "saturating_add a b = min usize_max (a + b)"

lemma saturating_add_le: "saturating_add a b \<le> a + b"
  by (simp add: saturating_add_def)

lemma saturating_add_exact: "a + b \<le> usize_max \<Longrightarrow> saturating_add a b = a + b"
  by (simp add: saturating_add_def)

lemma saturating_add_bounded: "saturating_add a b \<le> usize_max"
  by (simp add: saturating_add_def)

subsection \<open>Results\<close>

type_synonym ('e, 'a) result = "'e + 'a"

abbreviation Err :: "'e \<Rightarrow> ('e, 'a) result" where "Err \<equiv> Inl"
abbreviation Ok :: "'a \<Rightarrow> ('e, 'a) result" where "Ok \<equiv> Inr"

definition is_ok :: "('e, 'a) result \<Rightarrow> bool" where
  "is_ok r = (case r of Err _ \<Rightarrow> False | Ok _ \<Rightarrow> True)"

definition is_err :: "('e, 'a) result \<Rightarrow> bool" where
  "is_err r = (\<not> is_ok r)"

text \<open>\<open>?\<close>: stop at an error, go on with the value.\<close>

definition res_bind :: "('e, 'a) result \<Rightarrow> ('a \<Rightarrow> ('e, 'b) result) \<Rightarrow> ('e, 'b) result" where
  "res_bind r f = (case r of Err e \<Rightarrow> Err e | Ok a \<Rightarrow> f a)"

text \<open>\<open>map_err\<close>, and with a constructor for \<open>f\<close>, snafu's \<open>context\<close>.\<close>

definition map_err :: "('e \<Rightarrow> 'f) \<Rightarrow> ('e, 'a) result \<Rightarrow> ('f, 'a) result" where
  "map_err f r = (case r of Err e \<Rightarrow> Err (f e) | Ok a \<Rightarrow> Ok a)"

definition map_ok :: "('a \<Rightarrow> 'b) \<Rightarrow> ('e, 'a) result \<Rightarrow> ('e, 'b) result" where
  "map_ok f r = (case r of Err e \<Rightarrow> Err e | Ok a \<Rightarrow> Ok (f a))"

text \<open>\<open>context\<close> on an option: a missing value becomes an error.\<close>

definition ok_or :: "'e \<Rightarrow> 'a option \<Rightarrow> ('e, 'a) result" where
  "ok_or e x = (case x of None \<Rightarrow> Err e | Some a \<Rightarrow> Ok a)"

definition res_ok :: "('e, 'a) result \<Rightarrow> 'a option" where
  "res_ok r = (case r of Err _ \<Rightarrow> None | Ok a \<Rightarrow> Some a)"

lemma is_ok_simps [simp]: "is_ok (Ok a)" "\<not> is_ok (Err e)"
  by (simp_all add: is_ok_def)

lemma is_err_simps [simp]: "\<not> is_err (Ok a)" "is_err (Err e)"
  by (simp_all add: is_err_def)

lemma is_ok_iff: "is_ok r \<longleftrightarrow> (\<exists>a. r = Ok a)"
  by (cases r) auto

lemma is_err_iff: "is_err r \<longleftrightarrow> (\<exists>e. r = Err e)"
  by (cases r) auto

lemma res_bind_simps [simp, result_simps]: "res_bind (Ok a) f = f a" "res_bind (Err e) f = Err e"
  by (simp_all add: res_bind_def)

lemma map_err_simps [simp, result_simps]: "map_err f (Ok a) = Ok a" "map_err f (Err e) = Err (f e)"
  by (simp_all add: map_err_def)

lemma map_ok_simps [simp, result_simps]: "map_ok f (Ok a) = Ok (f a)" "map_ok f (Err e) = Err e"
  by (simp_all add: map_ok_def)

lemma ok_or_simps [simp, result_simps]: "ok_or e (Some a) = Ok a" "ok_or e None = Err e"
  by (simp_all add: ok_or_def)

lemma res_ok_simps [simp, result_simps]: "res_ok (Ok a) = Some a" "res_ok (Err e) = None"
  by (simp_all add: res_ok_def)

lemma res_bind_Ok_iff: "res_bind r f = Ok b \<longleftrightarrow> (\<exists>a. r = Ok a \<and> f a = Ok b)"
  by (cases r) auto

lemma res_bind_Err_iff:
  "res_bind r f = Err e \<longleftrightarrow> r = Err e \<or> (\<exists>a. r = Ok a \<and> f a = Err e)"
  by (cases r) auto

lemma map_err_Ok_iff [simp]: "map_err f r = Ok a \<longleftrightarrow> r = Ok a"
  by (cases r) auto

lemma map_err_Err_iff: "map_err f r = Err e \<longleftrightarrow> (\<exists>e'. r = Err e' \<and> e = f e')"
  by (cases r) auto

lemma map_ok_Ok_iff: "map_ok f r = Ok b \<longleftrightarrow> (\<exists>a. r = Ok a \<and> b = f a)"
  by (cases r) auto

lemma map_ok_Err_iff [simp]: "map_ok f r = Err e \<longleftrightarrow> r = Err e"
  by (cases r) auto

lemma is_ok_map_err [simp]: "is_ok (map_err f r) = is_ok r"
  by (cases r) auto

lemma is_ok_map_ok [simp]: "is_ok (map_ok f r) = is_ok r"
  by (cases r) auto

lemma res_bind_assoc: "res_bind (res_bind r f) g = res_bind r (\<lambda>a. res_bind (f a) g)"
  by (cases r) auto

lemmas result_iffs = res_bind_Ok_iff res_bind_Err_iff map_err_Ok_iff map_err_Err_iff
  map_ok_Ok_iff map_ok_Err_iff

text \<open>\<open>try_collect\<close>: the values of a list of fallible computations, or the first error.\<close>

fun res_map :: "('a \<Rightarrow> ('e, 'b) result) \<Rightarrow> 'a list \<Rightarrow> ('e, 'b list) result" where
  "res_map f [] = Ok []"
| "res_map f (x # xs) = res_bind (f x) (\<lambda>y. map_ok (Cons y) (res_map f xs))"

lemma res_map_Ok_iff: "res_map f xs = Ok ys \<longleftrightarrow> list_all2 (\<lambda>x y. f x = Ok y) xs ys"
proof (induction xs arbitrary: ys)
  case Nil
  then show ?case by auto
next
  case (Cons x xs)
  then show ?case by (cases ys) (auto simp: result_iffs)
qed

lemma res_map_Err: "res_map f xs = Err e \<Longrightarrow> \<exists>x \<in> set xs. f x = Err e"
  by (induction xs) (auto simp: result_iffs)

subsection \<open>Errors of the standard library and of the async runtime\<close>

text \<open>
  \<open>std::io::Error\<close> keeps the kinds the code inspects; everything else is \<open>IoOther\<close>. A
  \<open>JoinError\<close> is a cancelled or a panicked task.
\<close>

datatype io_error = IoNotFound | IoUnexpectedEof | IoOther string

datatype join_error = JoinCancelled | JoinPanic string

type_synonym send_error = unit
type_synonym recv_error = unit

subsection \<open>Event loops\<close>

text \<open>
  A \<open>select!\<close> loop is a step function on its state and the event that became ready, together
  with the guard that says which events the loop is waiting for. A run is a list of events each
  enabled when it happens.
\<close>

fun enabled_run :: "('s \<Rightarrow> 'e \<Rightarrow> bool) \<Rightarrow> ('s \<Rightarrow> 'e \<Rightarrow> 's) \<Rightarrow> 's \<Rightarrow> 'e list \<Rightarrow> bool" where
  "enabled_run en st s [] = True"
| "enabled_run en st s (e # es) = (en s e \<and> enabled_run en st (st s e) es)"

lemma enabled_run_append:
  "enabled_run en st s (es @ fs) \<longleftrightarrow> enabled_run en st s es \<and> enabled_run en st (foldl st s es) fs"
  by (induction es arbitrary: s) auto

locale event_loop =
  fixes enabled :: "'s \<Rightarrow> 'e \<Rightarrow> bool"
    and step :: "'s \<Rightarrow> 'e \<Rightarrow> 's"
    and inv :: "'s \<Rightarrow> bool"
  assumes step_inv: "inv s \<Longrightarrow> enabled s e \<Longrightarrow> inv (step s e)"
begin

lemma run_inv: "inv s \<Longrightarrow> enabled_run enabled step s es \<Longrightarrow> inv (foldl step s es)"
  by (induction es arbitrary: s) (auto intro: step_inv)

lemma run_inv_prefix:
  assumes "inv s" and "enabled_run enabled step s (es @ fs)"
  shows "inv (foldl step s es)"
  using assms by (simp add: enabled_run_append run_inv)

lemma run_inv_at:
  assumes "inv s" and "enabled_run enabled step s (es @ e # fs)"
  shows "inv (foldl step s es) \<and> enabled (foldl step s es) e \<and> inv (step (foldl step s es) e)"
  using assms by (simp add: enabled_run_append run_inv step_inv)

end

text \<open>A loop whose state has a quantity that no step decreases.\<close>

locale monotone_loop = event_loop +
  fixes rank :: "'s \<Rightarrow> nat"
  assumes step_rank: "inv s \<Longrightarrow> enabled s e \<Longrightarrow> rank s \<le> rank (step s e)"
begin

lemma run_rank: "inv s \<Longrightarrow> enabled_run enabled step s es \<Longrightarrow> rank s \<le> rank (foldl step s es)"
proof (induction es arbitrary: s)
  case Nil
  then show ?case by simp
next
  case (Cons e es)
  then have "rank s \<le> rank (step s e)" and "rank (step s e) \<le> rank (foldl step (step s e) es)"
    by (auto intro: step_rank step_inv)
  then show ?case by simp
qed

end

subsection \<open>Parsers of closed sets of names\<close>

text \<open>
  Many API fields are parsed by a match on a few names and printed by a match on the values. The
  contract: printing then parsing gives the value back, and a parser accepts printed names only.
\<close>

locale name_codec =
  fixes print :: "'a \<Rightarrow> string"
    and parse :: "string \<Rightarrow> ('e, 'a) result"
  assumes parse_print: "parse (print x) = Ok x"
    and parse_sound: "parse s = Ok x \<Longrightarrow> s = print x"
begin

lemma parse_iff: "parse s = Ok x \<longleftrightarrow> s = print x"
  using parse_print parse_sound by blast

lemma print_inj: "print x = print y \<longleftrightarrow> x = y"
proof
  assume "print x = print y"
  then have "parse (print x) = parse (print y)" by simp
  then show "x = y" by (simp add: parse_print)
qed simp

lemma parse_rejects: "is_err (parse s) \<longleftrightarrow> s \<notin> range print"
proof -
  have "is_ok (parse s) \<longleftrightarrow> s \<in> range print"
    by (auto simp: is_ok_iff parse_iff parse_print)
  then show ?thesis by (simp add: is_err_def)
qed

end

end
