(* ===== verification/BTree_Map.thy ===== *)
theory BTree_Map
  imports Playground_Prelude
begin

text \<open>
  \<open>std::collections::BTreeMap\<close> as the list of its entries in iteration order, which is the
  order of the keys. The interface the components rely on is the locale \<open>ordered_map\<close>: lookups
  after every operation, the invariant, and that a map is determined by its lookups. Its
  consequences are proved once in the locale and used through the interpretation \<open>bt\<close>.
\<close>

type_synonym ('k, 'v) btree = "('k \<times> 'v) list"

fun bt_get :: "('k, 'v) btree \<Rightarrow> 'k \<Rightarrow> 'v option" where
  "bt_get [] k = None"
| "bt_get ((a, v) # m) k = (if k = a then Some v else bt_get m k)"

fun bt_insert :: "'k::linorder \<Rightarrow> 'v \<Rightarrow> ('k, 'v) btree \<Rightarrow> ('k, 'v) btree" where
  "bt_insert k v [] = [(k, v)]"
| "bt_insert k v ((a, w) # m) =
     (if k < a then (k, v) # (a, w) # m
      else if k = a then (k, v) # m
      else (a, w) # bt_insert k v m)"

fun bt_remove :: "'k \<Rightarrow> ('k, 'v) btree \<Rightarrow> ('k, 'v) btree" where
  "bt_remove k [] = []"
| "bt_remove k ((a, w) # m) = (if k = a then m else (a, w) # bt_remove k m)"

definition bt_ok :: "('k::linorder, 'v) btree \<Rightarrow> bool" where
  "bt_ok m = sorted_wrt (<) (map fst m)"

definition bt_keys :: "('k, 'v) btree \<Rightarrow> 'k list" where
  "bt_keys m = map fst m"

definition bt_of_list :: "('k::linorder \<times> 'v) list \<Rightarrow> ('k, 'v) btree" where
  "bt_of_list kvs = foldl (\<lambda>m (k, v). bt_insert k v m) [] kvs"

locale ordered_map =
  fixes get :: "'m \<Rightarrow> 'k \<Rightarrow> 'v option"
    and ins :: "'k \<Rightarrow> 'v \<Rightarrow> 'm \<Rightarrow> 'm"
    and rem :: "'k \<Rightarrow> 'm \<Rightarrow> 'm"
    and ok :: "'m \<Rightarrow> bool"
  assumes get_ins: "get (ins k v m) j = (if j = k then Some v else get m j)"
    and get_rem: "ok m \<Longrightarrow> get (rem k m) j = (if j = k then None else get m j)"
    and ok_ins: "ok m \<Longrightarrow> ok (ins k v m)"
    and ok_rem: "ok m \<Longrightarrow> ok (rem k m)"
    and ext: "ok m \<Longrightarrow> ok m' \<Longrightarrow> (\<And>k. get m k = get m' k) \<Longrightarrow> m = m'"
begin

lemma ins_ins: "ok m \<Longrightarrow> ins k v (ins k w m) = ins k v m"
  by (rule ext) (auto simp: get_ins ok_ins)

lemma ins_commute: "ok m \<Longrightarrow> j \<noteq> k \<Longrightarrow> ins j v (ins k w m) = ins k w (ins j v m)"
  by (rule ext) (auto simp: get_ins ok_ins)

lemma ins_present: "ok m \<Longrightarrow> get m k = Some v \<Longrightarrow> ins k v m = m"
  by (rule ext) (auto simp: get_ins ok_ins)

lemma rem_ins: "ok m \<Longrightarrow> get m k = None \<Longrightarrow> rem k (ins k v m) = m"
  by (rule ext) (auto simp: get_ins get_rem ok_ins ok_rem)

lemma rem_ins_same: "ok m \<Longrightarrow> rem k (ins k v m) = rem k m"
  by (rule ext) (auto simp: get_ins get_rem ok_ins ok_rem)

lemma ins_rem: "ok m \<Longrightarrow> ins k v (rem k m) = ins k v m"
  by (rule ext) (auto simp: get_ins get_rem ok_ins ok_rem)

lemma ins_rem_commute: "ok m \<Longrightarrow> j \<noteq> k \<Longrightarrow> ins j v (rem k m) = rem k (ins j v m)"
  by (rule ext) (auto simp: get_ins get_rem ok_ins ok_rem)

lemma rem_rem: "ok m \<Longrightarrow> rem k (rem k m) = rem k m"
  by (rule ext) (auto simp: get_rem ok_rem)

lemma rem_absent: "ok m \<Longrightarrow> get m k = None \<Longrightarrow> rem k m = m"
  by (rule ext) (auto simp: get_rem ok_rem)

lemma rem_commute: "ok m \<Longrightarrow> rem j (rem k m) = rem k (rem j m)"
  by (rule ext) (auto simp: get_rem ok_rem)

end

lemma bt_keys_simps [simp]: "bt_keys [] = []" "bt_keys ((k, v) # m) = k # bt_keys m"
  by (simp_all add: bt_keys_def)

lemma bt_ok_Nil [simp]: "bt_ok []"
  by (simp add: bt_ok_def)

lemma bt_ok_Cons: "bt_ok ((k, v) # m) \<longleftrightarrow> (\<forall>j \<in> set (bt_keys m). k < j) \<and> bt_ok m"
  by (auto simp: bt_ok_def bt_keys_def)

lemma bt_get_None_iff: "bt_get m k = None \<longleftrightarrow> k \<notin> set (bt_keys m)"
  by (induction m k rule: bt_get.induct) auto

lemma bt_get_Some_key: "bt_get m k = Some v \<Longrightarrow> k \<in> set (bt_keys m)"
  using bt_get_None_iff [of m k] by auto

lemma bt_get_insert: "bt_get (bt_insert k v m) j = (if j = k then Some v else bt_get m j)"
  by (induction k v m rule: bt_insert.induct) auto

lemma bt_keys_insert [simp]: "set (bt_keys (bt_insert k v m)) = insert k (set (bt_keys m))"
  by (induction k v m rule: bt_insert.induct) auto

lemma bt_ok_insert: "bt_ok m \<Longrightarrow> bt_ok (bt_insert k v m)"
proof (induction k v m rule: bt_insert.induct)
  case (1 k v)
  then show ?case by (simp add: bt_ok_def)
next
  case (2 k v a w m)
  then show ?case
    by (auto simp: bt_ok_Cons intro: less_trans)
qed

lemma bt_keys_remove_subset: "set (bt_keys (bt_remove k m)) \<subseteq> set (bt_keys m)"
  by (induction k m rule: bt_remove.induct) auto

lemma bt_ok_remove: "bt_ok m \<Longrightarrow> bt_ok (bt_remove k m)"
  by (induction k m rule: bt_remove.induct)
     (use bt_keys_remove_subset in \<open>fastforce simp: bt_ok_Cons\<close>)+

lemma bt_get_remove: "bt_ok m \<Longrightarrow> bt_get (bt_remove k m) j = (if j = k then None else bt_get m j)"
proof (induction k m rule: bt_remove.induct)
  case (1 k)
  then show ?case by simp
next
  case (2 k a w m)
  then show ?case
    using bt_get_None_iff [of m a] by (auto simp: bt_ok_Cons)
qed

lemma bt_get_head:
  assumes "bt_ok ((k, v) # m)" and "bt_get ((k, v) # m) j = Some w"
  shows "k \<le> j"
proof (cases "j = k")
  case False
  with assms(2) have "j \<in> set (bt_keys m)" by (auto dest: bt_get_Some_key)
  with assms(1) show ?thesis by (auto simp: bt_ok_Cons)
qed simp

lemma bt_ext:
  "bt_ok m \<Longrightarrow> bt_ok m' \<Longrightarrow> (\<And>k. bt_get m k = bt_get m' k) \<Longrightarrow> m = m'"
proof (induction m arbitrary: m')
  case Nil
  show ?case
  proof (cases m')
    case (Cons p n)
    obtain k v where "p = (k, v)" by (cases p)
    with Cons Nil.prems(3) [of k] show ?thesis by simp
  qed simp
next
  case (Cons p m)
  obtain k v where p: "p = (k, v)" by (cases p)
  obtain k' v' n where m': "m' = (k', v') # n"
    using Cons.prems(3) [of k] p by (cases m') auto
  have lookups: "bt_get ((k, v) # m) j = bt_get ((k', v') # n) j" for j
    using Cons.prems(3) p m' by simp
  have "k \<le> k'" and "k' \<le> k"
    using lookups [of k] lookups [of k'] Cons.prems(1,2)
      bt_get_head [of k v m k' v'] bt_get_head [of k' v' n k v] by (auto simp: p m')
  then have k: "k' = k" by simp
  with lookups [of k] have v: "v' = v" by simp
  have "m = n"
  proof (rule Cons.IH)
    show "bt_ok m" and "bt_ok n" using Cons.prems(1,2) by (simp_all add: p m' bt_ok_Cons)
    fix j
    show "bt_get m j = bt_get n j"
    proof (cases "j = k")
      case True
      with Cons.prems(1,2) k have "bt_get m j = None" and "bt_get n j = None"
        by (auto simp: p m' bt_ok_Cons bt_get_None_iff)
      then show ?thesis by simp
    next
      case False
      with lookups [of j] k show ?thesis by simp
    qed
  qed
  with p m' k v show ?case by simp
qed

interpretation bt: ordered_map bt_get bt_insert bt_remove bt_ok
  by unfold_locales (auto simp: bt_get_insert bt_get_remove bt_ok_insert bt_ok_remove intro: bt_ext)

lemma bt_ok_foldl_insert: "bt_ok m \<Longrightarrow> bt_ok (foldl (\<lambda>m (k, v). bt_insert k v m) m kvs)"
  by (induction kvs arbitrary: m) (auto simp: bt_ok_insert)

lemma bt_ok_of_list [simp]: "bt_ok (bt_of_list kvs)"
  by (simp add: bt_of_list_def bt_ok_foldl_insert)

lemma bt_get_foldl_insert:
  "bt_get (foldl (\<lambda>m (k, v). bt_insert k v m) m kvs) j =
     (case map_of (rev kvs) j of Some v \<Rightarrow> Some v | None \<Rightarrow> bt_get m j)"
  by (induction kvs arbitrary: m)
     (auto simp: bt_get_insert map_add_def split: option.splits)

lemma bt_get_of_list: "bt_get (bt_of_list kvs) j = map_of (rev kvs) j"
  by (simp add: bt_of_list_def bt_get_foldl_insert split: option.split)

lemma bt_get_map_of: "bt_get m = map_of m"
proof
  fix k show "bt_get m k = map_of m k"
    by (induction m k rule: bt_get.induct) auto
qed

lemma bt_ok_distinct: "bt_ok m \<Longrightarrow> distinct (bt_keys m)"
  by (induction m) (auto simp: bt_ok_Cons)

lemma map_of_rev: "distinct (map fst m) \<Longrightarrow> map_of (rev m) = map_of m"
  by (intro map_of_inject_set [THEN iffD2]) (auto simp: rev_map [symmetric])

lemma bt_of_list_ok:
  assumes "bt_ok m"
  shows "bt_of_list m = m"
proof (rule bt_ext)
  have "map_of (rev m) = map_of m"
    using bt_ok_distinct [OF assms] by (simp add: bt_keys_def map_of_rev)
  then show "bt_get (bt_of_list m) k = bt_get m k" for k
    by (simp only: bt_get_of_list) (simp only: bt_get_map_of)
qed (use assms in simp_all)

end
