(* ===== verification/Utf8_Std.thy ===== *)
theory Utf8_Std
  imports Playground_Prelude
begin

text \<open>
  UTF-8 as \<open>core::str::from_utf8\<close> decides it: well-formed sequences of one to four bytes (no
  overlong forms, no surrogates, nothing above U+10FFFF), and \<open>valid_up_to\<close>, the length of the
  longest prefix made of such sequences. The lemmas say how \<open>valid_up_to\<close> behaves when bytes
  arrive in pieces, which is all the incremental reader needs.
\<close>

definition byte :: "char \<Rightarrow> nat" where
  "byte c = of_char c"

definition utf8_cont :: "char \<Rightarrow> bool" where
  "utf8_cont c = (128 \<le> byte c \<and> byte c < 192)"

definition utf8_width :: "char \<Rightarrow> nat" where
  "utf8_width c =
     (let a = byte c in
      if a < 128 then 1
      else if 194 \<le> a \<and> a < 224 then 2
      else if 224 \<le> a \<and> a < 240 then 3
      else if 240 \<le> a \<and> a < 245 then 4
      else 0)"

definition utf8_second :: "char \<Rightarrow> char \<Rightarrow> bool" where
  "utf8_second lead c =
     (let a = byte lead; b = byte c in
      if a = 224 then 160 \<le> b \<and> b < 192
      else if a = 237 then 128 \<le> b \<and> b < 160
      else if a = 240 then 144 \<le> b \<and> b < 192
      else if a = 244 then 128 \<le> b \<and> b < 144
      else 128 \<le> b \<and> b < 192)"

text \<open>The width of the well-formed sequence at the front of a byte string, if there is one.\<close>

fun utf8_first :: "bytes \<Rightarrow> nat option" where
  "utf8_first [] = None"
| "utf8_first (a # bs) =
     (let w = utf8_width a in
      if w = 0 \<or> Suc (length bs) < w then None
      else if w = 1 then Some 1
      else if utf8_second a (hd bs) \<and> list_all utf8_cont (take (w - 2) (tl bs)) then Some w
      else None)"

lemma utf8_width_le: "utf8_width c \<le> 4"
  by (simp add: utf8_width_def Let_def)

lemma utf8_first_bounds: "utf8_first bs = Some w \<Longrightarrow> 1 \<le> w \<and> w \<le> 4 \<and> w \<le> length bs"
  using utf8_width_le [of "hd bs"] by (cases bs) (auto simp: Let_def split: if_splits)

lemma utf8_first_append: "utf8_first xs = Some w \<Longrightarrow> utf8_first (xs @ ys) = Some w"
proof (cases xs)
  case (Cons a bs)
  assume "utf8_first xs = Some w"
  with Cons show ?thesis
    by (cases bs) (auto simp: Let_def split: if_splits)
qed simp

lemma utf8_first_append_None:
  assumes "utf8_first xs = None" and "utf8_first (xs @ ys) = Some w"
  shows "length xs < w"
proof (rule ccontr)
  assume "\<not> length xs < w"
  then have w: "w \<le> length xs" by simp
  with assms(2) have "xs \<noteq> []" using utf8_first_bounds [OF assms(2)] by auto
  then obtain a bs where xs: "xs = a # bs" by (cases xs) auto
  from w assms show False
    by (cases bs) (auto simp: xs Let_def split: if_splits)
qed

lemma utf8_first_append_four:
  assumes "utf8_first xs = None" and "4 \<le> length xs"
  shows "utf8_first (xs @ ys) = None"
  using utf8_first_append_None [OF assms(1), of ys] utf8_first_bounds [of "xs @ ys"] assms(2)
  by (cases "utf8_first (xs @ ys)") (fastforce simp del: length_append)+

text \<open>\<open>Utf8Error::valid_up_to\<close>, and the length itself for a valid string.\<close>

function valid_up_to :: "bytes \<Rightarrow> nat" where
  "valid_up_to bs = (case utf8_first bs of None \<Rightarrow> 0 | Some w \<Rightarrow> w + valid_up_to (drop w bs))"
  by pat_completeness auto
termination
  by (relation "measure length") (auto dest!: utf8_first_bounds)

declare valid_up_to.simps [simp del]

definition utf8_valid :: "bytes \<Rightarrow> bool" where
  "utf8_valid bs = (valid_up_to bs = length bs)"

text \<open>\<open>str::from_utf8\<close> and \<open>String::from_utf8\<close>: the string, or how far it was valid.\<close>

definition from_utf8 :: "bytes \<Rightarrow> (nat, string) result" where
  "from_utf8 bs = (if utf8_valid bs then Ok bs else Err (valid_up_to bs))"

lemma valid_up_to_None: "utf8_first bs = None \<Longrightarrow> valid_up_to bs = 0"
  by (subst valid_up_to.simps) simp

lemma valid_up_to_Some: "utf8_first bs = Some w \<Longrightarrow> valid_up_to bs = w + valid_up_to (drop w bs)"
  by (subst valid_up_to.simps) simp

lemma valid_up_to_Nil [simp]: "valid_up_to [] = 0"
  by (simp add: valid_up_to_None)

lemma utf8_valid_Nil [simp]: "utf8_valid []"
  by (simp add: utf8_valid_def)

lemma valid_up_to_zero: "valid_up_to bs = 0 \<longleftrightarrow> utf8_first bs = None"
  using utf8_first_bounds [of bs] by (cases "utf8_first bs") (auto simp: valid_up_to_None valid_up_to_Some)

lemma valid_up_to_le: "valid_up_to bs \<le> length bs"
proof (induction bs rule: valid_up_to.induct)
  case (1 bs)
  show ?case
  proof (cases "utf8_first bs")
    case (Some w)
    with "1.IH" [OF Some] utf8_first_bounds [OF Some] show ?thesis
      by (auto simp: valid_up_to_Some)
  qed (simp add: valid_up_to_None)
qed

text \<open>What follows the valid prefix starts with no well-formed sequence.\<close>

lemma valid_up_to_rest: "valid_up_to (drop (valid_up_to bs) bs) = 0"
proof (induction bs rule: valid_up_to.induct)
  case (1 bs)
  show ?case
  proof (cases "utf8_first bs")
    case (Some w)
    with "1.IH" [OF Some] show ?thesis
      by (simp add: valid_up_to_Some add.commute)
  qed (simp add: valid_up_to_None)
qed

text \<open>Splitting off the valid prefix of a first piece does not change what is found later.\<close>

lemma valid_up_to_append:
  "valid_up_to (xs @ ys) = valid_up_to xs + valid_up_to (drop (valid_up_to xs) xs @ ys)"
proof (induction xs rule: valid_up_to.induct)
  case (1 xs)
  show ?case
  proof (cases "utf8_first xs")
    case (Some w)
    note w = utf8_first_bounds [OF Some]
    have "valid_up_to (xs @ ys) = w + valid_up_to (drop w xs @ ys)"
      using w by (simp add: valid_up_to_Some [OF utf8_first_append [OF Some]])
    with "1.IH" [OF Some] show ?thesis
      by (simp add: valid_up_to_Some [OF Some] add.commute)
  qed (simp add: valid_up_to_None)
qed

lemma valid_up_to_four:
  assumes "valid_up_to xs = 0" and "4 \<le> length xs"
  shows "valid_up_to (xs @ ys) = 0"
  using assms by (simp add: valid_up_to_zero utf8_first_append_four)

lemma utf8_valid_take: "utf8_valid (take (valid_up_to bs) bs)"
proof (induction bs rule: valid_up_to.induct)
  case (1 bs)
  show ?case
  proof (cases "utf8_first bs")
    case (Some w)
    let ?v = "valid_up_to (drop w bs)"
    note w = utf8_first_bounds [OF Some]
    have len: "w + ?v \<le> length bs"
      using valid_up_to_le [of bs] by (simp add: valid_up_to_Some [OF Some])
    have cut: "take (w + ?v) bs = take w bs @ take ?v (drop w bs)"
      by (simp add: take_add)
    have first: "utf8_first (take w bs) = Some w"
    proof (cases "utf8_first (take w bs)")
      case None
      then show ?thesis
        using utf8_first_append_None [OF None, of "drop w bs" w] Some w by simp
    next
      case (Some u)
      with utf8_first_append [OF Some, of "drop w bs"] \<open>utf8_first bs = Some w\<close> show ?thesis by simp
    qed
    have "valid_up_to (take w bs @ take ?v (drop w bs)) = w + valid_up_to (take ?v (drop w bs))"
      using w by (simp add: valid_up_to_Some [OF utf8_first_append [OF first]])
    with "1.IH" [OF Some] len w show ?thesis
      by (simp add: utf8_valid_def valid_up_to_Some [OF Some] cut)
  qed (simp add: valid_up_to_None)
qed

lemma utf8_valid_append: "utf8_valid xs \<Longrightarrow> utf8_valid (xs @ ys) = utf8_valid ys"
  by (simp add: utf8_valid_def valid_up_to_append [of xs ys])

lemma utf8_valid_concat: "list_all utf8_valid xss \<Longrightarrow> utf8_valid (concat xss)"
  by (induction xss) (auto simp: utf8_valid_append)

lemma utf8_first_ascii: "byte a < 128 \<Longrightarrow> utf8_first (a # bs) = Some 1"
  by (simp add: utf8_width_def)

lemma utf8_valid_ascii: "list_all (\<lambda>c. byte c < 128) bs \<Longrightarrow> utf8_valid bs"
proof (induction bs)
  case (Cons a bs)
  then show ?case
    by (simp add: utf8_valid_def valid_up_to_Some [OF utf8_first_ascii])
qed simp

lemma from_utf8_Ok: "from_utf8 bs = Ok s \<longleftrightarrow> s = bs \<and> utf8_valid bs"
  by (auto simp: from_utf8_def)

end
