(* ===== verification/Str_Std.thy ===== *)
theory Str_Std
  imports Playground_Prelude
begin

text \<open>
  The functions of Rust's \<open>str\<close> the code parses with, on ASCII text: \<open>lines\<close>, \<open>trim\<close>,
  \<open>split_whitespace\<close>, \<open>splitn(2, _)\<close> and \<open>join\<close>, with what they return on text that was
  assembled from pieces.
\<close>

subsection \<open>Characters\<close>

definition is_alpha :: "char \<Rightarrow> bool" where
  "is_alpha c \<longleftrightarrow> (let n = of_char c :: nat in 97 \<le> n \<and> n \<le> 122 \<or> 65 \<le> n \<and> n \<le> 90)"

definition is_digit :: "char \<Rightarrow> bool" where
  "is_digit c \<longleftrightarrow> (let n = of_char c :: nat in 48 \<le> n \<and> n \<le> 57)"

definition is_space :: "char \<Rightarrow> bool" where
  "is_space c = (c \<in> {CHR 0x20, CHR 0x09, CHR 0x0A, CHR 0x0B, CHR 0x0C, CHR 0x0D})"

abbreviation newline :: char where "newline \<equiv> CHR 0x0A"
abbreviation carriage_return :: char where "carriage_return \<equiv> CHR 0x0D"

subsection \<open>\<open>lines\<close>\<close>

definition strip_cr :: "string \<Rightarrow> string" where
  "strip_cr l = (if l \<noteq> [] \<and> last l = carriage_return then butlast l else l)"

text \<open>A final line that is empty is dropped; a final line without line feed keeps its \<open>\r\<close>.\<close>

fun str_lines_from :: "string \<Rightarrow> string \<Rightarrow> string list" where
  "str_lines_from acc [] = (if acc = [] then [] else [acc])"
| "str_lines_from acc (c # cs) =
     (if c = newline then strip_cr acc # str_lines_from [] cs else str_lines_from (acc @ [c]) cs)"

definition str_lines :: "string \<Rightarrow> string list" where
  "str_lines s = str_lines_from [] s"

definition plain_line :: "string \<Rightarrow> bool" where
  "plain_line l = (newline \<notin> set l \<and> carriage_return \<notin> set l)"

lemma str_lines_from_line:
  "newline \<notin> set l \<Longrightarrow> str_lines_from acc (l @ newline # s) = strip_cr (acc @ l) # str_lines_from [] s"
  by (induction l arbitrary: acc) auto

lemma strip_cr_plain: "plain_line l \<Longrightarrow> strip_cr l = l"
  by (metis last_in_set plain_line_def strip_cr_def)

lemma str_lines_unlines:
  "list_all plain_line ls \<Longrightarrow> str_lines (concat (map (\<lambda>l. l @ [newline]) ls)) = ls"
proof (induction ls)
  case Nil
  then show ?case by (simp add: str_lines_def)
next
  case (Cons l ls)
  then show ?case
    by (simp add: str_lines_def str_lines_from_line strip_cr_plain)
       (simp add: plain_line_def str_lines_from_line strip_cr_plain)
qed

subsection \<open>\<open>trim\<close>, \<open>trim_start_matches\<close>, \<open>trim_end_matches\<close>\<close>

definition trim_start :: "(char \<Rightarrow> bool) \<Rightarrow> string \<Rightarrow> string" where
  "trim_start p s = dropWhile p s"

definition trim_end :: "(char \<Rightarrow> bool) \<Rightarrow> string \<Rightarrow> string" where
  "trim_end p s = rev (dropWhile p (rev s))"

definition str_trim :: "string \<Rightarrow> string" where
  "str_trim s = trim_end is_space (trim_start is_space s)"

definition trimmed :: "string \<Rightarrow> bool" where
  "trimmed s = (s = [] \<or> \<not> is_space (hd s) \<and> \<not> is_space (last s))"

lemma dropWhile_hd: "s \<noteq> [] \<Longrightarrow> \<not> p (hd s) \<Longrightarrow> dropWhile p s = s"
  by (cases s) auto

lemma trim_start_id: "s = [] \<or> \<not> p (hd s) \<Longrightarrow> trim_start p s = s"
  by (cases s) (auto simp: trim_start_def)

lemma trim_end_id: "s = [] \<or> \<not> p (last s) \<Longrightarrow> trim_end p s = s"
  by (cases s rule: rev_cases) (auto simp: trim_end_def)

lemma trim_end_snoc: "p c \<Longrightarrow> s = [] \<or> \<not> p (last s) \<Longrightarrow> trim_end p (s @ [c]) = s"
  by (cases s rule: rev_cases) (auto simp: trim_end_def)

lemma str_trim_trimmed: "trimmed s \<Longrightarrow> str_trim s = s"
  by (auto simp: str_trim_def trimmed_def trim_start_id trim_end_id)

lemma str_trim_space: "is_space c \<Longrightarrow> str_trim (c # s) = str_trim s"
  by (simp add: str_trim_def trim_start_def)

subsection \<open>\<open>splitn(2, _)\<close>, \<open>split_whitespace\<close>, \<open>join\<close>\<close>

text \<open>The first piece and, when the separator occurs, the rest.\<close>

fun splitn2 :: "char \<Rightarrow> string \<Rightarrow> string \<times> string option" where
  "splitn2 d [] = ([], None)"
| "splitn2 d (c # cs) =
     (if c = d then ([], Some cs) else (let (a, b) = splitn2 d cs in (c # a, b)))"

lemma splitn2_first: "d \<notin> set a \<Longrightarrow> splitn2 d (a @ d # b) = (a, Some b)"
  by (induction a) auto

lemma splitn2_none: "d \<notin> set a \<Longrightarrow> splitn2 d a = (a, None)"
  by (induction a) auto

fun split_whitespace_from :: "string \<Rightarrow> string \<Rightarrow> string list" where
  "split_whitespace_from acc [] = (if acc = [] then [] else [acc])"
| "split_whitespace_from acc (c # cs) =
     (if is_space c
      then (if acc = [] then split_whitespace_from [] cs else acc # split_whitespace_from [] cs)
      else split_whitespace_from (acc @ [c]) cs)"

definition split_whitespace :: "string \<Rightarrow> string list" where
  "split_whitespace s = split_whitespace_from [] s"

definition is_word :: "string \<Rightarrow> bool" where
  "is_word w = (w \<noteq> [] \<and> list_all (\<lambda>c. \<not> is_space c) w)"

lemma split_whitespace_from_word:
  "list_all (\<lambda>c. \<not> is_space c) w \<Longrightarrow> split_whitespace_from acc (w @ s) = split_whitespace_from (acc @ w) s"
  by (induction w arbitrary: acc) auto

lemma split_whitespace_word: "is_word w \<Longrightarrow> is_space c \<Longrightarrow>
    split_whitespace (w @ c # s) = w # split_whitespace s"
  by (simp add: split_whitespace_def is_word_def split_whitespace_from_word)

lemma split_whitespace_last: "is_word w \<Longrightarrow> split_whitespace w = [w]"
  using split_whitespace_from_word [of w "[]" "[]"] by (simp add: split_whitespace_def is_word_def)

fun str_join :: "string \<Rightarrow> string list \<Rightarrow> string" where
  "str_join sep [] = []"
| "str_join sep [s] = s"
| "str_join sep (s # ss) = s @ sep @ str_join sep ss"


subsection \<open>Integers as decimal text\<close>

definition digit_char :: "nat \<Rightarrow> char" where
  "digit_char d = char_of (48 + d)"

fun nat_to_string :: "nat \<Rightarrow> string" where
  "nat_to_string n = (if n < 10 then [digit_char n] else nat_to_string (n div 10) @ [digit_char (n mod 10)])"

declare nat_to_string.simps [simp del]

definition int_to_string :: "int \<Rightarrow> string" where
  "int_to_string i = (if i < 0 then CHR ''-'' # nat_to_string (nat (- i)) else nat_to_string (nat i))"

text \<open>Reading the digits back.\<close>

definition digits_value :: "string \<Rightarrow> nat" where
  "digits_value s = foldl (\<lambda>v c. 10 * v + (of_char c - 48)) 0 s"

lemma of_char_digit: "d < 10 \<Longrightarrow> of_char (digit_char d) = 48 + d"
  by (simp add: digit_char_def of_char_of)

lemma digits_value_nat: "digits_value (nat_to_string n) = n"
proof (induction n rule: nat_to_string.induct)
  case (1 n)
  show ?case
  proof (cases "n < 10")
    case True
    then show ?thesis by (simp add: nat_to_string.simps [of n] digits_value_def of_char_digit)
  next
    case False
    then have "digits_value (nat_to_string (n div 10)) = n div 10" by (rule 1)
    with False show ?thesis
      by (simp add: nat_to_string.simps [of n] digits_value_def of_char_digit)
  qed
qed

lemma nat_to_string_inj: "nat_to_string m = nat_to_string n \<longleftrightarrow> m = n"
  by (metis digits_value_nat)

lemma nat_to_string_digits: "list_all is_digit (nat_to_string n)"
proof (induction n rule: nat_to_string.induct)
  case (1 n)
  then show ?case
    by (cases "n < 10") (simp_all add: nat_to_string.simps [of n] is_digit_def of_char_digit Let_def)
qed

end
