(* ===== verification/Messages.thy ===== *)
theory Messages
  imports Complex_Main Playground_Prelude
begin

text \<open>
  The messages of \<open>orchestrator/src/message.rs\<close> that the coordinator and the worker exchange: the
  two enums, the request and response structs, the widening of a request or response into its
  enum, the narrowing of a worker message into the response a request expects, and the error that
  travels as a chain of messages. The contract of a request with one response is the locale
  \<open>one_to_one\<close>, interpreted for the four requests that have one.
\<close>

type_synonym job_id = u64
type_synonym path = string

text \<open>A floating point number the code only stores, compares and divides: read as a real.\<close>

type_synonym f64 = real

datatype 't multiplexed = Multiplexed (mx_job: job_id) (mx_body: 't)

record write_file_request =
  wf_path :: path
  wf_content :: bytes

record delete_file_request =
  df_path :: path

record read_file_request =
  rf_path :: path

record execute_command_request =
  ec_cmd :: string
  ec_args :: "string list"
  ec_envs :: "string \<rightharpoonup> string"
  ec_cwd :: "string option"

definition execute_command_simple :: "string \<Rightarrow> string list \<Rightarrow> execute_command_request" where
  "execute_command_simple cmd args =
     \<lparr>ec_cmd = cmd, ec_args = args, ec_envs = Map.empty, ec_cwd = None\<rparr>"

datatype write_file_response = WriteFileResponse
datatype delete_file_response = DeleteFileResponse
datatype read_file_response = ReadFileResponse (rfr_content: bytes)

record execute_command_response =
  ecr_success :: bool
  ecr_exit_detail :: string

record command_statistics =
  cs_total_time_secs :: f64
  cs_resident_set_size_bytes :: u64

datatype serialized_error = SerializedError string

datatype serialized_error2 =
  SerializedError2 (se2_message: string) (se2_source: "serialized_error2 option")

datatype coordinator_message =
    CmWriteFile write_file_request
  | CmDeleteFile delete_file_request
  | CmReadFile read_file_request
  | CmExecuteCommand execute_command_request
  | CmStdinPacket string
  | CmStdinClose
  | CmKill

datatype worker_message =
    WmWriteFile write_file_response
  | WmDeleteFile delete_file_response
  | WmReadFile read_file_response
  | WmExecuteCommand execute_command_response
  | WmStdoutPacket string
  | WmStderrPacket string
  | WmCommandStatistics command_statistics
  | WmError serialized_error
  | WmError2 serialized_error2

subsection \<open>Variant names (\<open>AsRefStr\<close>)\<close>

fun worker_message_as_ref :: "worker_message \<Rightarrow> string" where
  "worker_message_as_ref (WmWriteFile _) = ''WriteFile''"
| "worker_message_as_ref (WmDeleteFile _) = ''DeleteFile''"
| "worker_message_as_ref (WmReadFile _) = ''ReadFile''"
| "worker_message_as_ref (WmExecuteCommand _) = ''ExecuteCommand''"
| "worker_message_as_ref (WmStdoutPacket _) = ''StdoutPacket''"
| "worker_message_as_ref (WmStderrPacket _) = ''StderrPacket''"
| "worker_message_as_ref (WmCommandStatistics _) = ''CommandStatistics''"
| "worker_message_as_ref (WmError _) = ''Error''"
| "worker_message_as_ref (WmError2 _) = ''Error2''"

subsection \<open>Errors as chains of messages\<close>

text \<open>
  \<open>SerializedError2::new\<close> takes the error's messages as \<open>snafu::CleanedErrorText\<close> lists them,
  outermost first; that list is the argument here.
\<close>

definition serialized_error2_new :: "string list \<Rightarrow> serialized_error2" where
  "serialized_error2_new texts =
     (let messages = filter (\<lambda>t. t \<noteq> []) texts;
          message = (case messages of [] \<Rightarrow> ''No error message'' | m # _ \<Rightarrow> m);
          source = fold (\<lambda>m source. Some (SerializedError2 m source)) (rev (tl messages)) None
      in SerializedError2 message source)"

fun serialized_error2_adapt :: "serialized_error \<Rightarrow> serialized_error2" where
  "serialized_error2_adapt (SerializedError s) = SerializedError2 s None"

text \<open>Following \<open>source\<close> from an error, as the error trait lets a reader do.\<close>

primrec error_chain :: "serialized_error2 \<Rightarrow> string list"
  and error_chain_opt :: "serialized_error2 option \<Rightarrow> string list" where
  "error_chain (SerializedError2 m s) = m # error_chain_opt s"
| "error_chain_opt None = []"
| "error_chain_opt (Some e) = error_chain e"

lemma error_chain_fold:
  "error_chain_opt (fold (\<lambda>m source. Some (SerializedError2 m source)) ms s) =
     rev ms @ error_chain_opt s"
  by (induction ms arbitrary: s) auto

lemma error_chain_new:
  "error_chain (serialized_error2_new texts) =
     (if filter (\<lambda>t. t \<noteq> []) texts = [] then [''No error message''] else filter (\<lambda>t. t \<noteq> []) texts)"
  by (cases "filter (\<lambda>t. t \<noteq> []) texts")
     (simp_all add: serialized_error2_new_def error_chain_fold del: fold_simps)

subsection \<open>Narrowing a worker message to the response of a request\<close>

text \<open>
  \<open>impl_broad_to_narrow_with_error!\<close>: the expected variant is a success, the two error variants
  are failures of the worker, any other message is handed back.
\<close>

type_synonym 'r narrowed = "(worker_message, (serialized_error2, 'r) result) result"

fun narrow_write_file :: "worker_message \<Rightarrow> write_file_response narrowed" where
  "narrow_write_file (WmWriteFile x) = Ok (Ok x)"
| "narrow_write_file (WmError e) = Ok (Err (serialized_error2_adapt e))"
| "narrow_write_file (WmError2 e) = Ok (Err e)"
| "narrow_write_file m = Err m"

fun narrow_delete_file :: "worker_message \<Rightarrow> delete_file_response narrowed" where
  "narrow_delete_file (WmDeleteFile x) = Ok (Ok x)"
| "narrow_delete_file (WmError e) = Ok (Err (serialized_error2_adapt e))"
| "narrow_delete_file (WmError2 e) = Ok (Err e)"
| "narrow_delete_file m = Err m"

fun narrow_read_file :: "worker_message \<Rightarrow> read_file_response narrowed" where
  "narrow_read_file (WmReadFile x) = Ok (Ok x)"
| "narrow_read_file (WmError e) = Ok (Err (serialized_error2_adapt e))"
| "narrow_read_file (WmError2 e) = Ok (Err e)"
| "narrow_read_file m = Err m"

fun narrow_execute_command :: "worker_message \<Rightarrow> execute_command_response narrowed" where
  "narrow_execute_command (WmExecuteCommand x) = Ok (Ok x)"
| "narrow_execute_command (WmError e) = Ok (Err (serialized_error2_adapt e))"
| "narrow_execute_command (WmError2 e) = Ok (Err e)"
| "narrow_execute_command m = Err m"

text \<open>
  \<open>OneToOneResponse\<close>: \<open>widen\<close> sends the request, \<open>respond\<close> is the worker's widening of its
  response, \<open>narrow\<close> reads the answer.
\<close>

locale one_to_one =
  fixes widen :: "'q \<Rightarrow> coordinator_message"
    and respond :: "'r \<Rightarrow> worker_message"
    and narrow :: "worker_message \<Rightarrow> 'r narrowed"
  assumes widen_inj: "widen q = widen q' \<Longrightarrow> q = q'"
    and narrow_respond: "narrow (respond x) = Ok (Ok x)"
    and narrow_error: "narrow (WmError e) = Ok (Err (serialized_error2_adapt e))"
    and narrow_error2: "narrow (WmError2 e2) = Ok (Err e2)"
    and narrow_Ok: "narrow m = Ok (Ok x) \<Longrightarrow> m = respond x"
    and narrow_failed: "narrow m = Ok (Err e2) \<Longrightarrow>
          m = WmError2 e2 \<or> (\<exists>e. m = WmError e \<and> e2 = serialized_error2_adapt e)"
    and narrow_other: "narrow m = Err m' \<Longrightarrow> m' = m"
begin

lemma narrow_Ok_iff: "narrow m = Ok (Ok x) \<longleftrightarrow> m = respond x"
  using narrow_Ok narrow_respond by blast

lemma narrow_unexpected:
  "narrow m = Err m \<longleftrightarrow> (\<forall>x. m \<noteq> respond x) \<and> (\<forall>e. m \<noteq> WmError e) \<and> (\<forall>e. m \<noteq> WmError2 e)"
proof -
  consider x where "narrow m = Ok (Ok x)" | e where "narrow m = Ok (Err e)" | m' where "narrow m = Err m'"
    by (metis sum.exhaust)
  then show ?thesis
  proof cases
    case 1
    then show ?thesis using narrow_Ok by fastforce
  next
    case 2
    then show ?thesis using narrow_failed by fastforce
  next
    case 3
    moreover from this have "narrow m = Err m" using narrow_other by fastforce
    ultimately show ?thesis using narrow_respond narrow_error narrow_error2 by fastforce
  qed
qed

lemma respond_inj: "respond x = respond y \<longleftrightarrow> x = y"
proof
  assume "respond x = respond y"
  then have "narrow (respond x) = narrow (respond y)" by simp
  then show "x = y" by (simp add: narrow_respond)
qed simp

end

interpretation write_file_1to1: one_to_one CmWriteFile WmWriteFile narrow_write_file
  by unfold_locales (auto elim: narrow_write_file.elims)

interpretation delete_file_1to1: one_to_one CmDeleteFile WmDeleteFile narrow_delete_file
  by unfold_locales (auto elim: narrow_delete_file.elims)

interpretation read_file_1to1: one_to_one CmReadFile WmReadFile narrow_read_file
  by unfold_locales (auto elim: narrow_read_file.elims)

interpretation execute_command_1to1: one_to_one CmExecuteCommand WmExecuteCommand narrow_execute_command
  by unfold_locales (auto elim: narrow_execute_command.elims)

end
