(* ===== verification/Utf8_Reader.thy ===== *)
theory Utf8_Reader
  imports Utf8_Std Messages
begin

text \<open>
  \<open>Utf8BufReader\<close>, \<open>MultiplexingSender\<close> and \<open>copy_child_output\<close> of \<open>orchestrator/src/worker.rs\<close>.
  The process's pipe is the parameter \<open>rd\<close>: given the reader's state and the room in the buffer
  it answers with the next state and the bytes read, as \<open>AsyncReadExt::read\<close> does (no bytes mean
  end of file). The buffer is modelled as the code has it: a fixed array whose first
  \<open>n_incomplete\<close> bytes are the bytes kept from earlier reads.
\<close>

type_synonym 'r async_read = "'r \<Rightarrow> nat \<Rightarrow> 'r \<times> (io_error, bytes) result"

record 'r utf8_buf_reader =
  ur_reader :: 'r
  ur_buffer :: bytes
  ur_n_incomplete :: nat

datatype utf8_buf_reader_error = UtfReader io_error | UtfRanOutOfInput | UtfInvalidUtf8

definition default_capacity :: nat where
  "default_capacity = 32 * 1024"

definition utf8_buf_reader_new :: "'r \<Rightarrow> 'r utf8_buf_reader" where
  "utf8_buf_reader_new r =
     \<lparr>ur_reader = r, ur_buffer = replicate default_capacity (CHR 0x00), ur_n_incomplete = 0\<rparr>"

text \<open>Reading into \<open>buffer[at..]\<close>, and \<open>buffer.copy_within(from..to, 0)\<close>.\<close>

definition read_into :: "bytes \<Rightarrow> nat \<Rightarrow> bytes \<Rightarrow> bytes" where
  "read_into buf pos chunk = take pos buf @ chunk @ drop (pos + length chunk) buf"

definition copy_within :: "bytes \<Rightarrow> nat \<Rightarrow> nat \<Rightarrow> bytes" where
  "copy_within buf start stop = take (stop - start) (drop start buf) @ drop (stop - start) buf"

lemma kept_grows: "chunk \<noteq> [] \<Longrightarrow> k + length chunk < 4 \<Longrightarrow> 4 - (k + length chunk) < 4 - (k::nat)"
  by (cases chunk) auto

text \<open>
  The loop of \<open>next\<close>. It goes round only when fewer than four bytes are buffered and at least one
  byte was read, so the kept bytes grow and the loop ends after at most four rounds whatever the
  pipe does.
\<close>

function utf8_next :: "'r async_read \<Rightarrow> 'r utf8_buf_reader \<Rightarrow>
    'r utf8_buf_reader \<times> (utf8_buf_reader_error, string option) result" where
  "utf8_next rd b =
     (case rd (ur_reader b) (length (ur_buffer b) - ur_n_incomplete b) of
        (r', Err e) \<Rightarrow> (b\<lparr>ur_reader := r'\<rparr>, Err (UtfReader e))
      | (r', Ok chunk) \<Rightarrow>
          let n_read = length chunk;
              buf = read_into (ur_buffer b) (ur_n_incomplete b) chunk;
              n_valid = ur_n_incomplete b + n_read;
              b1 = b\<lparr>ur_reader := r', ur_buffer := buf\<rparr>
          in if n_read = 0 \<and> ur_n_incomplete b = 0 then (b1, Ok None)
             else let valid = valid_up_to (take n_valid buf) in
               if valid = 0 \<and> \<not> n_valid < 4 then (b1, Err UtfInvalidUtf8)
               else if valid = 0 \<and> n_read = 0 then (b1, Err UtfRanOutOfInput)
               else let s = take valid buf;
                        b2 = b1\<lparr>ur_buffer := copy_within buf valid n_valid,
                                ur_n_incomplete := n_valid - valid\<rparr>
                    in if s \<noteq> [] then (b2, Ok (Some s)) else utf8_next rd b2)"
  by pat_completeness auto
termination
  by (relation "measure (\<lambda>(rd, b). 4 - ur_n_incomplete b)") (auto simp: Let_def intro: kept_grows)

declare utf8_next.simps [simp del]

subsection \<open>The sender of one job's messages\<close>

text \<open>
  The channel to the serialisation task is the list of the messages it took; \<open>acc i\<close> says
  whether it takes the \<open>i\<close>-th one, that is, whether the receiver is still there.
\<close>

type_synonym worker_log = "worker_message multiplexed list"

datatype multiplexing_sender_error = UnableToSendWorkerMessage send_error

definition send_raw ::
    "(nat \<Rightarrow> bool) \<Rightarrow> job_id \<Rightarrow> worker_message \<Rightarrow> worker_log \<Rightarrow>
     (multiplexing_sender_error, worker_log) result" where
  "send_raw acc job m sent =
     (if acc (length sent) then Ok (sent @ [Multiplexed job m])
      else Err (UnableToSendWorkerMessage ()))"

definition send_ok ::
    "(nat \<Rightarrow> bool) \<Rightarrow> ('v \<Rightarrow> worker_message) \<Rightarrow> job_id \<Rightarrow> 'v \<Rightarrow> worker_log \<Rightarrow>
     (multiplexing_sender_error, worker_log) result" where
  "send_ok acc into job v sent = send_raw acc job (into v) sent"

definition send_err ::
    "(nat \<Rightarrow> bool) \<Rightarrow> job_id \<Rightarrow> string list \<Rightarrow> worker_log \<Rightarrow>
     (multiplexing_sender_error, worker_log) result" where
  "send_err acc job texts sent = send_raw acc job (WmError2 (serialized_error2_new texts)) sent"

text \<open>\<open>send\<close>: \<open>texts\<close> lists an error's cleaned messages.\<close>

definition send_result ::
    "(nat \<Rightarrow> bool) \<Rightarrow> ('v \<Rightarrow> worker_message) \<Rightarrow> ('e \<Rightarrow> string list) \<Rightarrow> job_id \<Rightarrow>
     ('e, 'v) result \<Rightarrow> worker_log \<Rightarrow> (multiplexing_sender_error, worker_log) result" where
  "send_result acc into texts job message sent =
     (case message of
        Ok v \<Rightarrow> send_ok acc into job v sent
      | Err e \<Rightarrow> send_err acc job (texts e) sent)"

subsection \<open>Copying a child's output\<close>

definition output_byte_limit :: nat where
  "output_byte_limit = 640 * 1024"

datatype copy_child_output_error =
    CopyUnableToRead utf8_buf_reader_error
  | CopyUnableToSend multiplexing_sender_error
  | CopyTooManyBytes nat

text \<open>
  The \<open>while let\<close> loop. One unit of fuel is one packet; \<open>None\<close> is a run longer than the fuel.
\<close>

fun copy_child_output_loop ::
    "nat \<Rightarrow> 'r async_read \<Rightarrow> (nat \<Rightarrow> bool) \<Rightarrow> job_id \<Rightarrow> (string \<Rightarrow> worker_message) \<Rightarrow>
     'r utf8_buf_reader \<Rightarrow> nat \<Rightarrow> worker_log \<Rightarrow>
     (worker_log \<times> (copy_child_output_error, unit) result) option" where
  "copy_child_output_loop 0 rd acc job xform b n_total sent = None"
| "copy_child_output_loop (Suc fuel) rd acc job xform b n_total sent =
     (case utf8_next rd b of
        (b', Err e) \<Rightarrow> Some (sent, Err (CopyUnableToRead e))
      | (b', Ok None) \<Rightarrow> Some (sent, Ok ())
      | (b', Ok (Some buffer)) \<Rightarrow>
          (case send_raw acc job (xform buffer) sent of
             Err e \<Rightarrow> Some (sent, Err (CopyUnableToSend e))
           | Ok sent2 \<Rightarrow>
               let n_total' = saturating_add n_total (length buffer) in
               if n_total' \<le> output_byte_limit
               then copy_child_output_loop fuel rd acc job xform b' n_total' sent2
               else Some (sent2, Err (CopyTooManyBytes n_total'))))"

definition copy_child_output ::
    "nat \<Rightarrow> 'r async_read \<Rightarrow> (nat \<Rightarrow> bool) \<Rightarrow> job_id \<Rightarrow> (string \<Rightarrow> worker_message) \<Rightarrow>
     'r \<Rightarrow> worker_log \<Rightarrow> (worker_log \<times> (copy_child_output_error, unit) result) option" where
  "copy_child_output fuel rd acc job xform r sent =
     copy_child_output_loop fuel rd acc job xform (utf8_buf_reader_new r) 0 sent"

subsection \<open>The buffer holds the bytes not yet handed out\<close>

definition pending :: "'r utf8_buf_reader \<Rightarrow> bytes" where
  "pending b = take (ur_n_incomplete b) (ur_buffer b)"

definition reader_ok :: "'r utf8_buf_reader \<Rightarrow> bool" where
  "reader_ok b = (ur_n_incomplete b \<le> length (ur_buffer b) \<and> valid_up_to (pending b) = 0)"

lemma reader_ok_new: "reader_ok (utf8_buf_reader_new r)"
  by (simp add: reader_ok_def utf8_buf_reader_new_def pending_def)

lemma pending_new: "pending (utf8_buf_reader_new r) = []"
  by (simp add: utf8_buf_reader_new_def pending_def)

lemma length_read_into:
  "n + length chunk \<le> length buf \<Longrightarrow> length (read_into buf n chunk) = length buf"
  by (simp add: read_into_def)

lemma take_read_into:
  "n + length chunk \<le> length buf \<Longrightarrow> take (n + length chunk) (read_into buf n chunk) = take n buf @ chunk"
  by (simp add: read_into_def)

lemma length_copy_within: "m \<le> length buf \<Longrightarrow> length (copy_within buf v m) = length buf"
  by (simp add: copy_within_def)

lemma take_copy_within:
  "v \<le> m \<Longrightarrow> m \<le> length buf \<Longrightarrow> take (m - v) (copy_within buf v m) = drop v (take m buf)"
  by (simp add: copy_within_def drop_take)

text \<open>
  One round, on the window \<open>w\<close>, which is \<open>pending b @ chunk\<close>, instead of the buffer: the refinement the
  correctness proof works with. The reader is \<open>b1\<close> before and \<open>b2\<close> after the valid bytes are taken out.
\<close>

definition round_outcome ::
    "'r async_read \<Rightarrow> 'r utf8_buf_reader \<Rightarrow> 'r utf8_buf_reader \<Rightarrow> bytes \<Rightarrow> bytes \<Rightarrow>
     'r utf8_buf_reader \<times> (utf8_buf_reader_error, string option) result" where
  "round_outcome rd b1 b2 chunk w =
     (if w = [] then (b1, Ok None)
      else if valid_up_to w = 0 \<and> 4 \<le> length w then (b1, Err UtfInvalidUtf8)
      else if valid_up_to w = 0 \<and> chunk = [] then (b1, Err UtfRanOutOfInput)
      else if valid_up_to w = 0 then utf8_next rd b2
      else (b2, Ok (Some (take (valid_up_to w) w))))"

lemma utf8_next_round:
  assumes ok: "reader_ok b"
    and rd: "rd (ur_reader b) (length (ur_buffer b) - ur_n_incomplete b) = (r', Ok chunk)"
    and room: "length chunk \<le> length (ur_buffer b) - ur_n_incomplete b"
  obtains b1 b2 where "utf8_next rd b = round_outcome rd b1 b2 chunk (pending b @ chunk)"
    and "ur_reader b2 = r'" and "reader_ok b2" and "length (ur_buffer b2) = length (ur_buffer b)"
    and "pending b2 = drop (valid_up_to (pending b @ chunk)) (pending b @ chunk)"
proof -
  define n where "n = ur_n_incomplete b"
  define buf where "buf = read_into (ur_buffer b) n chunk"
  define w where "w = pending b @ chunk"
  define v where "v = valid_up_to w"
  define b1 where "b1 = b\<lparr>ur_reader := r', ur_buffer := buf\<rparr>"
  define b2 where "b2 = b1\<lparr>ur_buffer := copy_within buf v (n + length chunk),
                          ur_n_incomplete := n + length chunk - v\<rparr>"
  have n: "n \<le> length (ur_buffer b)" using ok by (simp add: reader_ok_def n_def)
  with room have fits: "n + length chunk \<le> length (ur_buffer b)" by (simp add: n_def)
  have len: "length buf = length (ur_buffer b)"
    using fits by (simp add: buf_def length_read_into)
  have win: "take (n + length chunk) buf = w"
    using fits by (simp add: buf_def take_read_into w_def pending_def n_def)
  have lw: "length w = n + length chunk" using n by (simp add: w_def pending_def n_def)
  have v_le: "v \<le> n + length chunk" using valid_up_to_le [of w] by (simp add: v_def lw)
  have tv: "take v buf = take v w" using v_le by (simp add: win [symmetric] min_def)
  have tv0: "take v w = [] \<longleftrightarrow> v = 0"
    using valid_up_to_le [of w] by (auto simp: v_def)
  have w0: "w = [] \<longleftrightarrow> chunk = [] \<and> n = 0" using lw by (cases w) auto
  have b2_pending: "pending b2 = drop v w"
    using take_copy_within [OF v_le, of buf] fits len by (simp add: b2_def pending_def win)
  have b2_len: "length (ur_buffer b2) = length (ur_buffer b)"
    using fits len by (simp add: b2_def length_copy_within)
  have "valid_up_to (pending b2) = 0" by (simp add: b2_pending v_def valid_up_to_rest)
  then have b2_ok: "reader_ok b2"
    using fits by (simp add: reader_ok_def b2_len) (simp add: b2_def)
  have rd': "rd (ur_reader b) (length (ur_buffer b) - n) = (r', Ok chunk)"
    using rd by (simp add: n_def)
  have eq: "utf8_next rd b = round_outcome rd b1 b2 chunk w"
    unfolding round_outcome_def v_def [symmetric]
    by (subst utf8_next.simps,
        simp add: rd' Let_def n_def [symmetric] buf_def [symmetric] b1_def [symmetric] win
          v_def [symmetric] b2_def [symmetric] tv tv0 w0 lw not_less,
        auto simp: b1_def buf_def)
  show ?thesis
    by (rule that [of b1 b2])
       (simp_all add: eq b2_ok b2_len b2_pending w_def [symmetric] v_def [symmetric],
        simp add: b2_def b1_def)
qed

subsection \<open>Any pipe that delivers some content\<close>

text \<open>
  \<open>delivers rd r bs\<close>: reading from state \<open>r\<close> yields exactly the bytes \<open>bs\<close> and then end of
  file for ever, in pieces of any size the buffer has room for. This is the contract of
  \<open>AsyncRead\<close> for a pipe that raises no io error.
\<close>

inductive delivers :: "'r async_read \<Rightarrow> 'r \<Rightarrow> bytes \<Rightarrow> bool" for rd where
  eof: "(\<And>n. rd r n = (r, Ok [])) \<Longrightarrow> delivers rd r []"
| piece: "bs \<noteq> [] \<Longrightarrow> rd r 0 = (r, Ok []) \<Longrightarrow>
    (\<And>n. 0 < n \<Longrightarrow> \<exists>r' chunk rest. rd r n = (r', Ok chunk) \<and> chunk \<noteq> [] \<and> length chunk \<le> n \<and>
       bs = chunk @ rest \<and> delivers rd r' rest) \<Longrightarrow> delivers rd r bs"

lemma delivers_read:
  assumes "delivers rd r bs"
  obtains r' chunk rest where "rd r n = (r', Ok chunk)" and "length chunk \<le> n"
    and "bs = chunk @ rest" and "delivers rd r' rest"
    and "chunk = [] \<longleftrightarrow> n = 0 \<or> bs = []"
  using assms
proof (cases rule: delivers.cases)
  case eof
  then show ?thesis using that [of r "[]" "[]"] assms by simp
next
  case piece
  show ?thesis
  proof (cases "n = 0")
    case True
    then show ?thesis using that [of r "[]" bs] assms piece(2) by simp
  next
    case False
    then show ?thesis using piece(1) piece(3) [of n] that by blast
  qed
qed

text \<open>The error the rest of a stream that is not UTF-8 leads to.\<close>

definition rest_error :: "bytes \<Rightarrow> utf8_buf_reader_error" where
  "rest_error c = (if 4 \<le> length c then UtfInvalidUtf8 else UtfRanOutOfInput)"

text \<open>What the next call returns when \<open>c\<close> is still to come, and in which state it leaves the reader.\<close>

definition next_delivers ::
    "'r async_read \<Rightarrow> nat \<Rightarrow> bytes \<Rightarrow> 'r utf8_buf_reader \<times> (utf8_buf_reader_error, string option) result \<Rightarrow> bool" where
  "next_delivers rd cap c out \<longleftrightarrow> (case out of
      (b', Ok None) \<Rightarrow> c = []
    | (b', Err e) \<Rightarrow> c \<noteq> [] \<and> valid_up_to c = 0 \<and> e = rest_error c
    | (b', Ok (Some s)) \<Rightarrow> s \<noteq> [] \<and> utf8_valid s \<and> length s \<le> cap \<and>
        (\<exists>rest. c = s @ pending b' @ rest \<and> delivers rd (ur_reader b') rest) \<and>
        reader_ok b' \<and> length (ur_buffer b') = cap)"

lemma pending_length: "reader_ok b \<Longrightarrow> length (pending b) = ur_n_incomplete b"
  by (simp add: pending_def reader_ok_def)

text \<open>The call after a round that found no valid character has fewer bytes to read.\<close>

lemma again_shorter:
  assumes "reader_ok b" and "reader_ok b2" and "pending b2 = pending b @ chunk" and "chunk \<noteq> []"
    and "length (pending b @ chunk) < 4"
  shows "4 - ur_n_incomplete b2 < 4 - ur_n_incomplete b"
  using assms kept_grows [of chunk "ur_n_incomplete b"] pending_length [OF assms(1)] pending_length [OF assms(2)]
  by simp

text \<open>A round that does not read again.\<close>

lemma round_delivers:
  assumes c: "c = w @ rest" and full: "chunk = [] \<Longrightarrow> length w < 4 \<Longrightarrow> rest = []"
    and last: "\<not> (w \<noteq> [] \<and> valid_up_to w = 0 \<and> length w < 4 \<and> chunk \<noteq> [])" and lw: "length w \<le> n"
    and b2: "reader_ok b2" "length (ur_buffer b2) = n" "pending b2 = drop (valid_up_to w) w"
    and del: "delivers rd (ur_reader b2) rest" and eof_chunk: "w = [] \<Longrightarrow> chunk = []"
  shows "next_delivers rd n c (round_outcome rd b1 b2 chunk w)"
proof -
  consider (eof) "w = []" | (bad) "w \<noteq> []" "valid_up_to w = 0" "4 \<le> length w"
    | (short) "w \<noteq> []" "valid_up_to w = 0" "length w < 4" "chunk = []" | (some) "0 < valid_up_to w"
    using last by linarith
  then show ?thesis
  proof cases
    case eof
    then have "c = []" using full eof_chunk by (simp add: c)
    with eof show ?thesis by (simp add: round_outcome_def next_delivers_def)
  next
    case bad
    then have "valid_up_to c = 0" and "4 \<le> length c" and "c \<noteq> []"
      using valid_up_to_four [of w rest] by (auto simp: c)
    with bad show ?thesis by (simp add: round_outcome_def next_delivers_def rest_error_def)
  next
    case short
    then have "c = w" using full by (simp add: c)
    with short show ?thesis by (simp add: round_outcome_def next_delivers_def rest_error_def)
  next
    case some
    then have w: "w \<noteq> []" using valid_up_to_le [of w] by auto
    have "length (take (valid_up_to w) w) \<le> n" using lw by simp
    moreover have "c = take (valid_up_to w) w @ pending b2 @ rest" by (simp add: c b2(3))
    ultimately show ?thesis using some w b2 del
      by (auto simp: round_outcome_def next_delivers_def utf8_valid_take)
  qed
qed

lemma utf8_next_delivers:
  assumes "reader_ok b" and "4 \<le> length (ur_buffer b)"
    and "delivers rd (ur_reader b) rest" and "c = pending b @ rest"
  shows "next_delivers rd (length (ur_buffer b)) c (utf8_next rd b)"
  using assms
proof (induction "4 - ur_n_incomplete b" arbitrary: b rest rule: less_induct)
  case less
  let ?room = "length (ur_buffer b) - ur_n_incomplete b"
  obtain r' chunk rest' where
    rd: "rd (ur_reader b) ?room = (r', Ok chunk)" and fits: "length chunk \<le> ?room"
    and rest: "rest = chunk @ rest'" and del: "delivers rd r' rest'"
    and empty: "chunk = [] \<longleftrightarrow> ?room = 0 \<or> rest = []"
    using delivers_read [OF less.prems(3)] .
  define w where "w = pending b @ chunk"
  obtain b1 b2 where out: "utf8_next rd b = round_outcome rd b1 b2 chunk w"
    and b2: "ur_reader b2 = r'" "reader_ok b2" "length (ur_buffer b2) = length (ur_buffer b)"
      "pending b2 = drop (valid_up_to w) w"
    using utf8_next_round [of b rd r' chunk, OF less.prems(1) rd fits] unfolding w_def .
  have c: "c = w @ rest'" using less.prems(4) rest by (simp add: w_def)
  note np = pending_length [OF less.prems(1)]
  have full: "rest = []" if "chunk = []" "length w < 4"
    using that empty np less.prems(2) by (auto simp: w_def)
  have lw: "length w \<le> length (ur_buffer b)" using fits np less.prems(1) by (auto simp: w_def reader_ok_def)
  show ?case
  proof (cases "w \<noteq> [] \<and> valid_up_to w = 0 \<and> length w < 4 \<and> chunk \<noteq> []")
    case again: True
    then have p2: "pending b2 = w" by (simp add: b2(4))
    have "4 - ur_n_incomplete b2 < 4 - ur_n_incomplete b"
      using again_shorter [OF less.prems(1) b2(2)] p2 again by (simp add: w_def)
    from less.hyps [OF this b2(2), of rest'] p2 b2(1,3) less.prems(2) del c
    have "next_delivers rd (length (ur_buffer b)) c (utf8_next rd b2)" by simp
    then show ?thesis using again by (simp add: out round_outcome_def)
  next
    case False
    have "rest' = []" if "chunk = []" "length w < 4" using full [OF that] rest by simp
    moreover have "w = [] \<Longrightarrow> chunk = []" by (simp add: w_def)
    ultimately show ?thesis
      unfolding out by (intro round_delivers [OF c _ False lw b2(2-4) del [folded b2(1)]])
  qed
qed

subsection \<open>Draining the pipe\<close>

abbreviation packets :: "job_id \<Rightarrow> (string \<Rightarrow> worker_message) \<Rightarrow> string list \<Rightarrow> worker_log" where
  "packets job xform ss \<equiv> map (\<lambda>s. Multiplexed job (xform s)) ss"

text \<open>How a stream ends: cleanly, or with the error of what follows its valid prefix.\<close>

definition stream_end :: "bytes \<Rightarrow> (copy_child_output_error, unit) result" where
  "stream_end c =
     (if utf8_valid c then Ok ()
      else Err (CopyUnableToRead (rest_error (drop (valid_up_to c) c))))"

lemma stream_end_prefix:
  assumes "utf8_valid s"
  shows "stream_end (s @ c) = stream_end c"
    and "take (valid_up_to (s @ c)) (s @ c) = s @ take (valid_up_to c) c"
    and "valid_up_to (s @ c) = length s + valid_up_to c"
proof -
  show v: "valid_up_to (s @ c) = length s + valid_up_to c"
    using assms by (simp add: valid_up_to_append [of s c] utf8_valid_def)
  show "take (valid_up_to (s @ c)) (s @ c) = s @ take (valid_up_to c) c" by (simp add: v)
  show "stream_end (s @ c) = stream_end c"
    using assms by (simp add: stream_end_def v utf8_valid_append)
qed

text \<open>What a copy of \<open>c\<close> comes to when \<open>n_total\<close> bytes were copied and \<open>sent\<close> was sent before.\<close>

definition copy_delivers ::
    "bytes \<Rightarrow> nat \<Rightarrow> job_id \<Rightarrow> (string \<Rightarrow> worker_message) \<Rightarrow> worker_log \<Rightarrow>
     (worker_log \<times> (copy_child_output_error, unit) result) option \<Rightarrow> bool" where
  "copy_delivers c n_total job xform sent out \<longleftrightarrow> (\<exists>ss. list_all utf8_valid ss \<and> [] \<notin> set ss \<and>
      (if n_total + valid_up_to c \<le> output_byte_limit
       then concat ss = take (valid_up_to c) c \<and> out = Some (sent @ packets job xform ss, stream_end c)
       else (\<exists>more. concat ss @ more = take (valid_up_to c) c) \<and>
         output_byte_limit < n_total + length (concat ss) \<and>
         out = Some (sent @ packets job xform ss, Err (CopyTooManyBytes (n_total + length (concat ss))))))"

lemma copy_delivers_ended:
  "n_total \<le> output_byte_limit \<Longrightarrow> valid_up_to c = 0 \<Longrightarrow> copy_delivers c n_total job xform sent (Some (sent, stream_end c))"
  unfolding copy_delivers_def by (intro exI [of _ "[]"]) simp

lemma copy_delivers_over:
  assumes "utf8_valid s" and "s \<noteq> []" and "output_byte_limit < n_total + length s"
  shows "copy_delivers (s @ c) n_total job xform sent
    (Some (sent @ packets job xform [s], Err (CopyTooManyBytes (n_total + length s))))"
proof -
  note pre = stream_end_prefix [OF assms(1), of c]
  have "\<not> n_total + valid_up_to (s @ c) \<le> output_byte_limit" using pre(3) assms(3) by simp
  then show ?thesis unfolding copy_delivers_def using assms pre(2) by (intro exI [of _ "[s]"]) simp
qed

lemma copy_delivers_packet:
  assumes "utf8_valid s" and "s \<noteq> []"
    and "copy_delivers c (n_total + length s) job xform (sent @ packets job xform [s]) out"
  shows "copy_delivers (s @ c) n_total job xform sent out"
proof -
  note pre = stream_end_prefix [OF assms(1), of c]
  from assms(3) obtain ss where "list_all utf8_valid ss" "[] \<notin> set ss"
    "if n_total + length s + valid_up_to c \<le> output_byte_limit
     then concat ss = take (valid_up_to c) c \<and>
       out = Some ((sent @ packets job xform [s]) @ packets job xform ss, stream_end c)
     else (\<exists>more. concat ss @ more = take (valid_up_to c) c) \<and>
       output_byte_limit < n_total + length s + length (concat ss) \<and>
       out = Some ((sent @ packets job xform [s]) @ packets job xform ss,
         Err (CopyTooManyBytes (n_total + length s + length (concat ss))))"
    unfolding copy_delivers_def by blast
  then show ?thesis unfolding copy_delivers_def using assms(1,2) pre
    by (intro exI [of _ "s # ss"]) (auto simp: add.assoc split: if_splits)
qed

lemma copy_loop_delivers:
  assumes "\<forall>i. acc i"
  shows "reader_ok b \<Longrightarrow> 4 \<le> length (ur_buffer b) \<Longrightarrow>
    output_byte_limit + length (ur_buffer b) \<le> usize_max \<Longrightarrow>
    delivers rd (ur_reader b) rest \<Longrightarrow> c = pending b @ rest \<Longrightarrow>
    length c < fuel \<Longrightarrow> n_total \<le> output_byte_limit \<Longrightarrow>
    copy_delivers c n_total job xform sent (copy_child_output_loop fuel rd acc job xform b n_total sent)"
proof (induction fuel arbitrary: b rest c n_total sent)
  case (Suc fuel)
  obtain b' r where out: "utf8_next rd b = (b', r)" by (metis surj_pair)
  then have next_del: "next_delivers rd (length (ur_buffer b)) c (b', r)"
    using utf8_next_delivers [OF Suc.prems(1,2,4,5)] by simp
  consider (ended) "r = Ok None" | (failed) e where "r = Err e" | (some) s where "r = Ok (Some s)"
    by (metis old.sum.exhaust option.exhaust)
  then show ?case
  proof cases
    case ended
    then have "c = []" using next_del by (simp add: next_delivers_def)
    then show ?thesis using copy_delivers_ended [OF Suc.prems(7), of "[]"] out ended by (simp add: stream_end_def)
  next
    case failed
    then have e: "valid_up_to c = 0" "e = rest_error c" "c \<noteq> []" using next_del by (auto simp: next_delivers_def)
    then have "\<not> utf8_valid c" by (simp add: utf8_valid_def)
    then show ?thesis using copy_delivers_ended [OF Suc.prems(7) e(1)] out failed e by (simp add: stream_end_def)
  next
    case some
    from next_del some obtain rest' where s: "s \<noteq> []" "utf8_valid s" "length s \<le> length (ur_buffer b)"
      "c = s @ pending b' @ rest'" "delivers rd (ur_reader b') rest'" "reader_ok b'"
      "length (ur_buffer b') = length (ur_buffer b)" by (auto simp: next_delivers_def)
    have total: "saturating_add n_total (length s) = n_total + length s"
      using s(3) Suc.prems(3,7) by (intro saturating_add_exact) linarith
    show ?thesis
    proof (cases "n_total + length s \<le> output_byte_limit")
      case False
      then show ?thesis using copy_delivers_over [OF s(2,1)] out some s(4)
        by (simp add: send_raw_def assms total Let_def)
    next
      case True
      have "length (pending b' @ rest') < fuel" using Suc.prems(6) s(1,4) by (cases s) auto
      from Suc.IH [OF s(6) _ _ s(5) refl this True, of "sent @ packets job xform [s]"] Suc.prems(2,3) s(7)
      show ?thesis using copy_delivers_packet [OF s(2,1)] True out some s(4)
        by (simp add: send_raw_def assms total Let_def)
    qed
  qed
qed simp

lemma copy_child_output_delivers:
  assumes "delivers rd r c" and "length c < fuel" and "\<forall>i. acc i"
  shows "copy_delivers c 0 job xform sent (copy_child_output fuel rd acc job xform r sent)"
proof -
  let ?b = "utf8_buf_reader_new r"
  have b: "4 \<le> length (ur_buffer ?b)" "output_byte_limit + length (ur_buffer ?b) \<le> usize_max"
    "ur_reader ?b = r"
    by (simp_all add: utf8_buf_reader_new_def default_capacity_def output_byte_limit_def usize_max_def)
  show ?thesis
    using copy_loop_delivers [of acc ?b rd c c fuel 0 job xform sent, OF assms(3) reader_ok_new b(1,2)]
      assms(1,2) b(3) pending_new [of r]
    by (simp only: copy_child_output_def append_Nil le0 simp_thms)
qed


text \<open>A child whose output is longer than the limit is cut off: the copy fails with the number of
  bytes sent, which is over the limit, and what was sent is a prefix of the output.
\<close>

theorem copy_child_output_too_long:
  assumes "delivers rd r c" and "output_byte_limit < valid_up_to c" and "length c < fuel"
    and "\<forall>i. acc i"
  shows "\<exists>ss more. copy_child_output fuel rd acc job xform r sent =
      Some (sent @ packets job xform ss, Err (CopyTooManyBytes (length (concat ss)))) \<and>
    output_byte_limit < length (concat ss) \<and> concat ss @ more = c"
proof -
  obtain ss more where ss: "concat ss @ more = take (valid_up_to c) c"
    "output_byte_limit < length (concat ss)"
    "copy_child_output fuel rd acc job xform r sent =
      Some (sent @ packets job xform ss, Err (CopyTooManyBytes (length (concat ss))))"
    using copy_child_output_delivers [OF assms(1,3,4), of job xform sent] assms(2) unfolding copy_delivers_def by auto
  have "concat ss @ (more @ drop (valid_up_to c) c) = c"
    using ss(1) by (metis append.assoc append_take_drop_id)
  with ss show ?thesis by blast
qed

subsection \<open>A bound that needs no assumption on the content\<close>

definition reads_fit :: "'r async_read \<Rightarrow> bool" where
  "reads_fit rd \<longleftrightarrow> (\<forall>r n r' chunk. rd r n = (r', Ok chunk) \<longrightarrow> length chunk \<le> n)"

lemma utf8_next_safe:
  assumes reads: "reads_fit rd"
  shows "reader_ok b \<Longrightarrow> utf8_next rd b = (b', Ok (Some s)) \<Longrightarrow>
    reader_ok b' \<and> length (ur_buffer b') = length (ur_buffer b) \<and>
    utf8_valid s \<and> length s \<le> length (ur_buffer b)"
proof (induction "4 - ur_n_incomplete b" arbitrary: b rule: less_induct)
  case less
  let ?room = "length (ur_buffer b) - ur_n_incomplete b"
  obtain r' chunk where rd: "rd (ur_reader b) ?room = (r', Ok chunk)"
    using less.prems(2) by (subst (asm) utf8_next.simps) (auto split: prod.splits sum.splits)
  have fits: "length chunk \<le> ?room" using reads rd by (auto simp: reads_fit_def)
  define w where "w = pending b @ chunk"
  obtain b1 b2 where out: "utf8_next rd b = round_outcome rd b1 b2 chunk w"
    and b2: "reader_ok b2" "length (ur_buffer b2) = length (ur_buffer b)" "pending b2 = drop (valid_up_to w) w"
    using utf8_next_round [of b rd r' chunk, OF less.prems(1) rd fits] unfolding w_def by metis
  show ?case
  proof (cases "valid_up_to w = 0")
    case False
    then have "b' = b2" and "s = take (valid_up_to w) w"
      using less.prems(2) by (auto simp: out round_outcome_def split: if_splits)
    moreover have "length w \<le> length (ur_buffer b)"
      using fits pending_length [OF less.prems(1)] less.prems(1) by (auto simp: w_def reader_ok_def)
    ultimately show ?thesis using b2 by (auto simp: utf8_valid_take)
  next
    case True
    then have next_b2: "utf8_next rd b2 = (b', Ok (Some s))" and "chunk \<noteq> []" and "length w < 4"
      using less.prems(2) by (auto simp: out round_outcome_def split: if_splits)
    then have "4 - ur_n_incomplete b2 < 4 - ur_n_incomplete b"
      using again_shorter [OF less.prems(1) b2(1)] b2(3) True by (simp add: w_def)
    from less.hyps [OF this b2(1) next_b2] show ?thesis by (simp add: b2(2))
  qed
qed

lemma copy_loop_bounded:
  assumes reads: "reads_fit rd"
  shows "reader_ok b \<Longrightarrow> n_total \<le> output_byte_limit \<Longrightarrow>
    output_byte_limit + length (ur_buffer b) \<le> usize_max \<Longrightarrow>
    copy_child_output_loop fuel rd acc job xform b n_total sent = Some (sent', res) \<Longrightarrow>
    \<exists>ss. sent' = sent @ packets job xform ss \<and> list_all utf8_valid ss \<and>
      n_total + length (concat ss) \<le> output_byte_limit + length (ur_buffer b)"
proof (induction fuel arbitrary: b n_total sent)
  case 0
  then show ?case by simp
next
  case (Suc fuel)
  obtain b' nx where next_eq: "utf8_next rd b = (b', nx)" by (cases "utf8_next rd b")
  show ?case
  proof (cases "\<exists>s. nx = Ok (Some s) \<and> acc (length sent)")
    case False
    with Suc.prems next_eq have "sent' = sent"
      by (auto simp: send_raw_def split: sum.splits option.splits if_splits)
    with Suc.prems(2) show ?thesis by (intro exI [of _ "[]"]) simp
  next
    case True
    then obtain s where s: "nx = Ok (Some s)" and acc: "acc (length sent)" by blast
    have safe: "reader_ok b'" "length (ur_buffer b') = length (ur_buffer b)"
      "utf8_valid s" "length s \<le> length (ur_buffer b)"
      using utf8_next_safe [OF reads Suc.prems(1), of b' s] next_eq s by simp_all
    have total: "saturating_add n_total (length s) = n_total + length s"
      using safe(4) Suc.prems(2,3) by (intro saturating_add_exact) linarith
    let ?sent = "sent @ [Multiplexed job (xform s)]"
    show ?thesis
    proof (cases "n_total + length s \<le> output_byte_limit")
      case False
      with Suc.prems(4) next_eq s acc total have "sent' = ?sent" by (simp add: send_raw_def Let_def)
      with safe Suc.prems(2) show ?thesis by (intro exI [of _ "[s]"]) auto
    next
      case le: True
      with Suc.prems(4) next_eq s acc total
      have "copy_child_output_loop fuel rd acc job xform b' (n_total + length s) ?sent =
          Some (sent', res)" by (simp add: send_raw_def Let_def)
      from Suc.IH [OF _ le _ this] safe Suc.prems(3) obtain ss where
        "sent' = ?sent @ packets job xform ss" "list_all utf8_valid ss"
        "n_total + length s + length (concat ss) \<le> output_byte_limit + length (ur_buffer b)"
        by auto
      with safe show ?thesis by (intro exI [of _ "s # ss"]) auto
    qed
  qed
qed


subsection \<open>A pipe for the witnesses: a list of pieces\<close>

fun piece_reader :: "bytes list async_read" where
  "piece_reader [] n = ([], Ok [])"
| "piece_reader (c # cs) n =
     (if n = 0 then (c # cs, Ok [])
      else if length c \<le> n then (cs, Ok c)
      else (drop n c # cs, Ok (take n c)))"

lemma delivers_pieces: "[] \<notin> set cs \<Longrightarrow> delivers piece_reader cs (concat cs)"
proof (induction "length (concat cs)" arbitrary: cs rule: less_induct)
  case less
  show ?case
  proof (cases cs)
    case Nil
    then show ?thesis by (auto intro: delivers.eof)
  next
    case (Cons c ds)
    with less.prems have c: "c \<noteq> []" "[] \<notin> set ds" by auto
    show ?thesis
    proof (rule delivers.piece)
      show "concat cs \<noteq> []" using Cons c by simp
      show "piece_reader cs 0 = (cs, Ok [])" by (simp add: Cons)
      fix n :: nat
      assume n: "0 < n"
      have "delivers piece_reader ds (concat ds)"
        using c Cons by (intro less.hyps) auto
      moreover have "delivers piece_reader (drop n c # ds) (concat (drop n c # ds))"
        if "n < length c" using that c n Cons by (intro less.hyps) auto
      moreover have "c @ concat ds = take n c @ drop n c @ concat ds"
        by (metis append.assoc append_take_drop_id)
      ultimately show "\<exists>r' chunk rest. piece_reader cs n = (r', Ok chunk) \<and> chunk \<noteq> [] \<and>
          length chunk \<le> n \<and> concat cs = chunk @ rest \<and> delivers piece_reader r' rest"
        using n c
        by (cases "length c \<le> n")
           (simp add: Cons, simp add: Cons not_le, intro exI [of _ "drop n c @ concat ds"], simp)
    qed
  qed
qed

lemma reads_fit_pieces: "reads_fit piece_reader"
proof -
  have "piece_reader r n = (r', Ok chunk) \<Longrightarrow> length chunk \<le> n" for r n r' chunk
    by (cases r) (auto split: if_splits)
  then show ?thesis by (auto simp: reads_fit_def)
qed

lemmas utf8_eval = utf8_width_def utf8_second_def utf8_cont_def byte_def Let_def


theorem copy_child_output_too_long_witness:
  "\<exists>ss more. copy_child_output (output_byte_limit + 2) piece_reader (\<lambda>_. True) 7 WmStderrPacket
      [replicate (output_byte_limit + 1) (CHR ''x'')] [] =
      Some (packets 7 WmStderrPacket ss, Err (CopyTooManyBytes (length (concat ss)))) \<and>
    output_byte_limit < length (concat ss) \<and>
    concat ss @ more = replicate (output_byte_limit + 1) (CHR ''x'')"
proof -
  let ?c = "replicate (output_byte_limit + 1) (CHR ''x'')"
  have "utf8_valid ?c" by (rule utf8_valid_ascii) (simp add: list_all_iff byte_def)
  then have "valid_up_to ?c = output_byte_limit + 1" by (simp add: utf8_valid_def)
  moreover have "delivers piece_reader [?c] ?c" using delivers_pieces [of "[?c]"] by simp
  ultimately show ?thesis
    using copy_child_output_too_long [of piece_reader "[?c]" ?c "output_byte_limit + 2" "\<lambda>_. True"
        7 WmStderrPacket "[]"] by simp
qed


end
