(* ===== verification/Worker_Files.thy ===== *)
theory Worker_Files
  imports Messages
begin

text \<open>
  The file handlers of \<open>orchestrator/src/worker.rs\<close> on an explicit file system: a partial map from
  paths to contents. What the operating system may refuse is an argument of each handler: the
  answer to \<open>create_dir_all\<close>, and to the operation itself, with the content a failed write leaves.
\<close>

type_synonym file_system = "path \<rightharpoonup> bytes"
type_synonym io_answer = "(io_error, unit) result"

subsection \<open>Paths\<close>

definition is_absolute :: "path \<Rightarrow> bool" where
  "is_absolute p = (case p of [] \<Rightarrow> False | c # _ \<Rightarrow> c = CHR ''/'')"

text \<open>\<open>PathBuf::push\<close>: an absolute path replaces the buffer.\<close>

definition path_push :: "path \<Rightarrow> path \<Rightarrow> path" where
  "path_push base p =
     (if is_absolute p then p
      else if base = [] \<or> last base = CHR ''/'' then base @ p
      else base @ ''/'' @ p)"

text \<open>\<open>Path::parent\<close>, of a path without \<open>.\<close> components.\<close>

definition path_parent :: "path \<Rightarrow> path option" where
  "path_parent p =
     (let slash = (\<lambda>c. c = CHR ''/''); r = dropWhile slash (rev p)
      in if r = [] then None
         else let d = rev (dropWhile (\<lambda>c. \<not> slash c) r); d' = rev (dropWhile slash (rev d))
              in Some (if d \<noteq> [] \<and> d' = [] then ''/'' else d'))"

definition parse_working_dir :: "string option \<Rightarrow> path \<Rightarrow> path" where
  "parse_working_dir cwd project_path = (case cwd of None \<Rightarrow> project_path | Some p \<Rightarrow> path_push project_path p)"

lemma path_push_inj:
  "\<not> is_absolute p \<Longrightarrow> \<not> is_absolute q \<Longrightarrow> path_push base p = path_push base q \<longleftrightarrow> p = q"
  by (simp add: path_push_def)

subsection \<open>Handlers\<close>

datatype write_file_error =
    UnableToCreateDir io_error path
  | UnableToWriteFile io_error path

datatype delete_file_error = UnableToDeleteFile io_error path
datatype read_file_error = UnableToReadFile io_error path

text \<open>A write that fails may have created, truncated or partly written the file.\<close>

datatype write_answer = Written | WriteFailed io_error "bytes option"

definition handle_write_file ::
    "io_answer \<Rightarrow> write_answer \<Rightarrow> write_file_request \<Rightarrow> path \<Rightarrow> file_system \<Rightarrow>
     (write_file_error, write_file_response) result \<times> file_system" where
  "handle_write_file mkdir wr req project_dir fs =
     (let path = parse_working_dir (Some (wf_path req)) project_dir;
          write = (case wr of
             Written \<Rightarrow> (Ok WriteFileResponse, fs(path \<mapsto> wf_content req))
           | WriteFailed e rest \<Rightarrow> (Err (UnableToWriteFile e path), fs(path := rest)))
      in case path_parent path of
           None \<Rightarrow> write
         | Some parent_dir \<Rightarrow>
             (case mkdir of
                Err e \<Rightarrow> (Err (UnableToCreateDir e parent_dir), fs)
              | Ok _ \<Rightarrow> write))"

text \<open>\<open>fs::remove_file\<close>: a path that names no file is \<open>NotFound\<close>.\<close>

definition remove_file :: "io_answer \<Rightarrow> path \<Rightarrow> file_system \<Rightarrow> (io_error, unit) result \<times> file_system" where
  "remove_file rm path fs =
     (if fs path = None then (Err IoNotFound, fs)
      else case rm of Ok _ \<Rightarrow> (Ok (), fs(path := None)) | Err e \<Rightarrow> (Err e, fs))"

definition handle_delete_file ::
    "io_answer \<Rightarrow> delete_file_request \<Rightarrow> path \<Rightarrow> file_system \<Rightarrow>
     (delete_file_error, delete_file_response) result \<times> file_system" where
  "handle_delete_file rm req project_dir fs =
     (let path = parse_working_dir (Some (df_path req)) project_dir;
          (removed, fs') = remove_file rm path fs;
          r = (case removed of
                 Ok u \<Rightarrow> Ok u
               | Err e \<Rightarrow> if e = IoNotFound then Ok () else Err e)
      in (map_ok (\<lambda>_. DeleteFileResponse) (map_err (\<lambda>e. UnableToDeleteFile e path) r), fs'))"

definition handle_read_file ::
    "io_answer \<Rightarrow> read_file_request \<Rightarrow> path \<Rightarrow> file_system \<Rightarrow>
     (read_file_error, read_file_response) result" where
  "handle_read_file rd req project_dir fs =
     (let path = parse_working_dir (Some (rf_path req)) project_dir
      in case fs path of
           None \<Rightarrow> Err (UnableToReadFile IoNotFound path)
         | Some content \<Rightarrow>
             (case rd of
                Err e \<Rightarrow> Err (UnableToReadFile e path)
              | Ok _ \<Rightarrow> Ok (ReadFileResponse content)))"

subsection \<open>Their contract\<close>

lemma write_file_Ok:
  assumes "handle_write_file mkdir wr req dir fs = (Ok r, fs')"
  shows "fs' = fs(parse_working_dir (Some (wf_path req)) dir \<mapsto> wf_content req)"
  using assms by (auto simp: handle_write_file_def Let_def split: option.splits sum.splits write_answer.splits)

lemma write_file_frame:
  "path \<noteq> parse_working_dir (Some (wf_path req)) dir \<Longrightarrow>
   snd (handle_write_file mkdir wr req dir fs) path = fs path"
  by (auto simp: handle_write_file_def Let_def split: option.splits sum.splits write_answer.splits)

lemma delete_file_Ok:
  assumes "handle_delete_file rm req dir fs = (Ok r, fs')"
    and "rm \<noteq> Err IoNotFound"
  shows "fs' = fs(parse_working_dir (Some (df_path req)) dir := None)"
  using assms
  by (auto simp: handle_delete_file_def remove_file_def Let_def fun_upd_idem_iff
      split: option.splits sum.splits if_splits)

lemma delete_file_frame:
  "path \<noteq> parse_working_dir (Some (df_path req)) dir \<Longrightarrow>
   snd (handle_delete_file rm req dir fs) path = fs path"
  by (auto simp: handle_delete_file_def remove_file_def Let_def split: option.splits sum.splits)

lemma write_file_succeeds:
  "handle_write_file (Ok ()) Written req dir fs =
     (Ok WriteFileResponse, fs(parse_working_dir (Some (wf_path req)) dir \<mapsto> wf_content req))"
  by (auto simp: handle_write_file_def Let_def split: option.splits)

lemma delete_file_succeeds:
  "handle_delete_file (Ok ()) req dir fs =
     (Ok DeleteFileResponse, fs(parse_working_dir (Some (df_path req)) dir := None))"
  by (auto simp: handle_delete_file_def remove_file_def Let_def split: option.splits)



end
