(* ===== verification/Cargo_Toml.thy ===== *)
theory Cargo_Toml
  imports BTree_Map "HOL-Library.Sublist"
begin

text \<open>
  The crate \<open>modify-cargo-toml\<close>: the four edits of a \<open>Cargo.toml\<close> document. A document is a
  \<open>toml::Value\<close>, whose tables are \<open>BTreeMap\<close>s. Each edit reads the document into the structs the
  function declares (their serde attributes \<open>default\<close>, \<open>flatten\<close>, \<open>skip_serializing_if\<close> and
  \<open>rename_all\<close> are written out), changes a field, and writes the struct back. The \<open>unwrap\<close> of a
  document that does not have the struct's shape is a panic, modelled as an error.
\<close>

datatype toml_value =
    TString string
  | TInteger int
  | TFloat string
  | TBoolean bool
  | TDatetime string
  | TArray "toml_value list"
  | TTable "(string \<times> toml_value) list"

type_synonym toml_table = "(string, toml_value) btree"

datatype toml_error = MissingField string | InvalidType string

subsection \<open>Reading and writing struct fields\<close>

fun de_string :: "toml_value \<Rightarrow> (toml_error, string) result" where
  "de_string (TString s) = Ok s"
| "de_string _ = Err (InvalidType ''a string'')"

fun de_bool :: "toml_value \<Rightarrow> (toml_error, bool) result" where
  "de_bool (TBoolean b) = Ok b"
| "de_bool _ = Err (InvalidType ''a boolean'')"

fun de_table :: "toml_value \<Rightarrow> (toml_error, toml_table) result" where
  "de_table (TTable m) = Ok m"
| "de_table _ = Err (InvalidType ''a map'')"

fun de_strings :: "toml_value \<Rightarrow> (toml_error, string list) result" where
  "de_strings (TArray vs) = res_map de_string vs"
| "de_strings _ = Err (InvalidType ''a sequence'')"

text \<open>A field without and with \<open>#[serde(default)]\<close>.\<close>

definition de_field ::
    "toml_table \<Rightarrow> string \<Rightarrow> (toml_value \<Rightarrow> (toml_error, 'a) result) \<Rightarrow> (toml_error, 'a) result" where
  "de_field m k de = (case bt_get m k of None \<Rightarrow> Err (MissingField k) | Some v \<Rightarrow> de v)"

definition de_default ::
    "toml_table \<Rightarrow> string \<Rightarrow> 'a \<Rightarrow> (toml_value \<Rightarrow> (toml_error, 'a) result) \<Rightarrow> (toml_error, 'a) result" where
  "de_default m k d de = (case bt_get m k of None \<Rightarrow> Ok d | Some v \<Rightarrow> de v)"

text \<open>\<open>#[serde(flatten)] other\<close>: every entry that is not a declared field.\<close>

definition flatten_rest :: "string list \<Rightarrow> toml_table \<Rightarrow> toml_table" where
  "flatten_rest ks m = fold bt_remove ks m"

definition ser_fields :: "(string \<times> toml_value) list \<Rightarrow> toml_table \<Rightarrow> toml_value" where
  "ser_fields fields other = TTable (bt_of_list (fields @ other))"

text \<open>\<open>modify\<close>: read, change, write.\<close>

definition modify ::
    "(toml_value \<Rightarrow> (toml_error, 't) result) \<Rightarrow> ('t \<Rightarrow> toml_value) \<Rightarrow> ('t \<Rightarrow> 't) \<Rightarrow>
     toml_value \<Rightarrow> (toml_error, toml_value) result" where
  "modify de ser f cargo_toml = map_ok (\<lambda>t. ser (f t)) (de cargo_toml)"

definition ensure_string_in_vec :: "string list \<Rightarrow> string \<Rightarrow> string list" where
  "ensure_string_in_vec values val = (if \<not> list_ex (\<lambda>f. f = val) values then values @ [val] else values)"

subsection \<open>\<open>set_edition\<close>\<close>

record edition_package =
  ep_edition :: string
  ep_other :: toml_table

record edition_manifest =
  em_package :: edition_package
  em_other :: toml_table

definition de_edition_package :: "toml_value \<Rightarrow> (toml_error, edition_package) result" where
  "de_edition_package v = res_bind (de_table v) (\<lambda>m.
     res_bind (de_default m ''edition'' [] de_string) (\<lambda>e.
     Ok \<lparr>ep_edition = e, ep_other = flatten_rest [''edition''] m\<rparr>))"

definition de_edition_manifest :: "toml_value \<Rightarrow> (toml_error, edition_manifest) result" where
  "de_edition_manifest v = res_bind (de_table v) (\<lambda>m.
     res_bind (de_field m ''package'' de_edition_package) (\<lambda>p.
     Ok \<lparr>em_package = p, em_other = flatten_rest [''package''] m\<rparr>))"

definition ser_edition_package :: "edition_package \<Rightarrow> toml_value" where
  "ser_edition_package p = ser_fields [(''edition'', TString (ep_edition p))] (ep_other p)"

definition ser_edition_manifest :: "edition_manifest \<Rightarrow> toml_value" where
  "ser_edition_manifest c = ser_fields [(''package'', ser_edition_package (em_package c))] (em_other c)"

definition set_edition :: "toml_value \<Rightarrow> string \<Rightarrow> (toml_error, toml_value) result" where
  "set_edition cargo_toml edition =
     modify de_edition_manifest ser_edition_manifest
       (\<lambda>c. c\<lparr>em_package := (em_package c)\<lparr>ep_edition := edition\<rparr>\<rparr>) cargo_toml"

subsection \<open>\<open>remove_dependencies\<close>\<close>

record deps_manifest =
  dm_dependencies :: toml_table
  dm_other :: toml_table

definition de_deps_manifest :: "toml_value \<Rightarrow> (toml_error, deps_manifest) result" where
  "de_deps_manifest v = res_bind (de_table v) (\<lambda>m.
     res_bind (de_field m ''dependencies'' de_table) (\<lambda>d.
     Ok \<lparr>dm_dependencies = d, dm_other = flatten_rest [''dependencies''] m\<rparr>))"

definition ser_deps_manifest :: "deps_manifest \<Rightarrow> toml_value" where
  "ser_deps_manifest c = ser_fields [(''dependencies'', TTable (dm_dependencies c))] (dm_other c)"

definition remove_dependencies :: "toml_value \<Rightarrow> (toml_error, toml_value) result" where
  "remove_dependencies cargo_toml =
     modify de_deps_manifest ser_deps_manifest (\<lambda>c. c\<lparr>dm_dependencies := []\<rparr>) cargo_toml"

subsection \<open>\<open>set_crate_type\<close>\<close>

record lib_section =
  ls_crate_type :: "string list"
  ls_proc_macro :: bool
  ls_other :: toml_table

definition lib_default :: lib_section where
  "lib_default = \<lparr>ls_crate_type = [], ls_proc_macro = False, ls_other = []\<rparr>"

record lib_manifest =
  lm_lib :: lib_section
  lm_other :: toml_table

definition de_lib_section :: "toml_value \<Rightarrow> (toml_error, lib_section) result" where
  "de_lib_section v = res_bind (de_table v) (\<lambda>m.
     res_bind (de_default m ''crate-type'' [] de_strings) (\<lambda>ct.
     res_bind (de_default m ''proc-macro'' False de_bool) (\<lambda>pm.
     Ok \<lparr>ls_crate_type = ct, ls_proc_macro = pm,
         ls_other = flatten_rest [''crate-type'', ''proc-macro''] m\<rparr>)))"

definition de_lib_manifest :: "toml_value \<Rightarrow> (toml_error, lib_manifest) result" where
  "de_lib_manifest v = res_bind (de_table v) (\<lambda>m.
     res_bind (de_default m ''lib'' lib_default de_lib_section) (\<lambda>l.
     Ok \<lparr>lm_lib = l, lm_other = flatten_rest [''lib''] m\<rparr>))"

definition ser_lib_section :: "lib_section \<Rightarrow> toml_value" where
  "ser_lib_section l = ser_fields
     ((if ls_crate_type l = [] then [] else [(''crate-type'', TArray (map TString (ls_crate_type l)))])
      @ [(''proc-macro'', TBoolean (ls_proc_macro l))]) (ls_other l)"

definition ser_lib_manifest :: "lib_manifest \<Rightarrow> toml_value" where
  "ser_lib_manifest c = ser_fields [(''lib'', ser_lib_section (lm_lib c))] (lm_other c)"

definition set_crate_type :: "toml_value \<Rightarrow> string \<Rightarrow> (toml_error, toml_value) result" where
  "set_crate_type cargo_toml crate_type =
     modify de_lib_manifest ser_lib_manifest
       (\<lambda>c. if crate_type = ''proc-macro''
            then c\<lparr>lm_lib := (lm_lib c)\<lparr>ls_proc_macro := True\<rparr>\<rparr>
            else c\<lparr>lm_lib := (lm_lib c)\<lparr>ls_crate_type :=
                   ensure_string_in_vec (ls_crate_type (lm_lib c)) crate_type\<rparr>\<rparr>) cargo_toml"

subsection \<open>\<open>set_release_lto\<close>\<close>

record profile_section =
  ps_lto :: bool
  ps_other :: toml_table

record profiles_section =
  pfs_release :: profile_section
  pfs_other :: toml_table

record profile_manifest =
  pm_profile :: profiles_section
  pm_other :: toml_table

definition profile_default :: profile_section where
  "profile_default = \<lparr>ps_lto = False, ps_other = []\<rparr>"

definition profiles_default :: profiles_section where
  "profiles_default = \<lparr>pfs_release = profile_default, pfs_other = []\<rparr>"

definition de_profile :: "toml_value \<Rightarrow> (toml_error, profile_section) result" where
  "de_profile v = res_bind (de_table v) (\<lambda>m.
     res_bind (de_default m ''lto'' False de_bool) (\<lambda>l.
     Ok \<lparr>ps_lto = l, ps_other = flatten_rest [''lto''] m\<rparr>))"

definition de_profiles :: "toml_value \<Rightarrow> (toml_error, profiles_section) result" where
  "de_profiles v = res_bind (de_table v) (\<lambda>m.
     res_bind (de_default m ''release'' profile_default de_profile) (\<lambda>r.
     Ok \<lparr>pfs_release = r, pfs_other = flatten_rest [''release''] m\<rparr>))"

definition de_profile_manifest :: "toml_value \<Rightarrow> (toml_error, profile_manifest) result" where
  "de_profile_manifest v = res_bind (de_table v) (\<lambda>m.
     res_bind (de_default m ''profile'' profiles_default de_profiles) (\<lambda>p.
     Ok \<lparr>pm_profile = p, pm_other = flatten_rest [''profile''] m\<rparr>))"

definition ser_profile :: "profile_section \<Rightarrow> toml_value" where
  "ser_profile p = ser_fields [(''lto'', TBoolean (ps_lto p))] (ps_other p)"

definition ser_profiles :: "profiles_section \<Rightarrow> toml_value" where
  "ser_profiles p = ser_fields [(''release'', ser_profile (pfs_release p))] (pfs_other p)"

definition ser_profile_manifest :: "profile_manifest \<Rightarrow> toml_value" where
  "ser_profile_manifest c = ser_fields [(''profile'', ser_profiles (pm_profile c))] (pm_other c)"

definition set_release_lto :: "toml_value \<Rightarrow> bool \<Rightarrow> (toml_error, toml_value) result" where
  "set_release_lto cargo_toml lto =
     modify de_profile_manifest ser_profile_manifest
       (\<lambda>c. c\<lparr>pm_profile := (pm_profile c)\<lparr>pfs_release :=
              (pfs_release (pm_profile c))\<lparr>ps_lto := lto\<rparr>\<rparr>\<rparr>) cargo_toml"


subsection \<open>The specification: point updates of a document\<close>

text \<open>
  What the edits promise is stated with paths: \<open>toml_path\<close> reads the value at a path of table
  keys, \<open>toml_put\<close> replaces it and creates the tables on the way.
\<close>

fun toml_path :: "toml_value \<Rightarrow> string list \<Rightarrow> toml_value option" where
  "toml_path v [] = Some v"
| "toml_path (TTable m) (k # ks) = (case bt_get m k of None \<Rightarrow> None | Some v \<Rightarrow> toml_path v ks)"
| "toml_path _ (k # ks) = None"

definition subtable :: "toml_table \<Rightarrow> string \<Rightarrow> toml_table" where
  "subtable m k = (case bt_get m k of Some (TTable n) \<Rightarrow> n | _ \<Rightarrow> [])"

fun toml_put :: "string list \<Rightarrow> toml_value \<Rightarrow> toml_table \<Rightarrow> toml_table" where
  "toml_put [] v m = m"
| "toml_put [k] v m = bt_insert k v m"
| "toml_put (k # ks) v m = bt_insert k (TTable (toml_put ks v (subtable m k))) m"

text \<open>Every table of a document is a \<open>BTreeMap\<close>: its keys ascend.\<close>

function toml_ok :: "toml_value \<Rightarrow> bool" where
  "toml_ok (TTable m) = (bt_ok m \<and> list_all (\<lambda>kv. toml_ok (snd kv)) m)"
| "toml_ok (TArray vs) = list_all toml_ok vs"
| "toml_ok (TString s) = True"
| "toml_ok (TInteger i) = True"
| "toml_ok (TFloat f) = True"
| "toml_ok (TBoolean b) = True"
| "toml_ok (TDatetime d) = True"
  by pat_completeness auto

lemma size_toml_table: "kv \<in> set m \<Longrightarrow> size (snd kv) < size (TTable m)"
  by (induction m) (auto simp: less_Suc_eq_le split: prod.splits intro: trans_le_add1 trans_le_add2)

lemma size_toml_array: "v \<in> set vs \<Longrightarrow> size v < size (TArray vs)"
  by (induction vs) auto

termination toml_ok
  by (relation "measure size") (simp_all add: size_toml_table size_toml_array del: toml_value.size)

lemma bt_get_toml_ok: "toml_ok (TTable m) \<Longrightarrow> bt_get m k = Some v \<Longrightarrow> toml_ok v"
  by (induction m) (auto simp: bt_ok_Cons split: if_splits)

lemma toml_ok_bt: "toml_ok (TTable m) \<Longrightarrow> bt_ok m"
  by simp

lemma toml_ok_Nil [simp]: "toml_ok (TTable [])"
  by simp

lemma subtable_ok: "toml_ok (TTable m) \<Longrightarrow> toml_ok (TTable (subtable m k))"
  by (auto simp: subtable_def dest: bt_get_toml_ok split: option.splits toml_value.splits simp del: toml_ok.simps)

lemma toml_ok_insert: "toml_ok (TTable m) \<Longrightarrow> toml_ok v \<Longrightarrow> toml_ok (TTable (bt_insert k v m))"
proof -
  assume m: "toml_ok (TTable m)" and v: "toml_ok v"
  have "list_all (\<lambda>kv. toml_ok (snd kv)) (bt_insert k v m)"
    if "list_all (\<lambda>kv. toml_ok (snd kv)) m"
    using that v by (induction k v m rule: bt_insert.induct) auto
  with m show ?thesis by (simp add: bt_ok_insert)
qed

lemma toml_ok_remove: "toml_ok (TTable m) \<Longrightarrow> toml_ok (TTable (bt_remove k m))"
proof -
  assume m: "toml_ok (TTable m)"
  have "list_all (\<lambda>kv. toml_ok (snd kv)) (bt_remove k m)"
    if "list_all (\<lambda>kv. toml_ok (snd kv)) m"
    using that by (induction k m rule: bt_remove.induct) auto
  with m show ?thesis by (simp add: bt_ok_remove)
qed

lemma toml_ok_put: "toml_ok (TTable m) \<Longrightarrow> toml_ok v \<Longrightarrow> toml_ok (TTable (toml_put ks v m))"
proof (induction ks v m rule: toml_put.induct)
  case (3 k k' ks v m)
  then show ?case using subtable_ok [of m k] toml_ok_insert by auto
qed (auto simp del: toml_ok.simps intro: toml_ok_insert)

declare toml_ok.simps(1) [simp del]

lemma parallel_Cons_same: "(k # ks) \<parallel> (k # js) \<longleftrightarrow> ks \<parallel> js"
  by (auto simp: parallel_def)

lemma subtable_put: "subtable (bt_insert k v m) j =
    (if j = k then (case v of TTable n \<Rightarrow> n | _ \<Rightarrow> []) else subtable m j)"
  by (simp add: subtable_def bt_get_insert)

lemma toml_path_put_same: "ks \<noteq> [] \<Longrightarrow> toml_path (TTable (toml_put ks v m)) ks = Some v"
  by (induction ks v m rule: toml_put.induct) (auto simp: bt_get_insert)

lemma toml_path_subtable: "toml_path (TTable m) (k # j # js) = toml_path (TTable (subtable m k)) (j # js)"
  by (auto simp: subtable_def split: option.splits toml_value.splits)

lemma toml_path_put_frame:
  "ks \<parallel> js \<Longrightarrow> toml_path (TTable (toml_put ks v m)) js = toml_path (TTable m) js"
proof (induction ks v m arbitrary: js rule: toml_put.induct)
  case (1 v m)
  then show ?case by simp
next
  case (2 k v m)
  then show ?case by (cases js) (auto simp: bt_get_insert)
next
  case (3 k k' ks v m)
  then obtain j js' where js: "js = j # js'" by (cases js) auto
  show ?case
  proof (cases "j = k")
    case False
    with js show ?thesis by (simp add: bt_get_insert)
  next
    case True
    with 3 js have par: "(k' # ks) \<parallel> js'" by (simp add: parallel_Cons_same)
    then obtain i js2 where js': "js' = i # js2" by (cases js') auto
    show ?thesis
      using "3.IH" [OF par] js js' True
      by (simp add: toml_path_subtable subtable_put del: toml_path.simps(2))
  qed
qed

lemma toml_put_put: "toml_ok (TTable m) \<Longrightarrow> toml_put ks v (toml_put ks w m) = toml_put ks v m"
proof (induction ks v m rule: toml_put.induct)
  case (1 v m)
  then show ?case by simp
next
  case (2 k v m)
  then show ?case by (simp add: bt.ins_ins toml_ok_bt)
next
  case (3 k k' ks v m)
  then have "toml_ok (TTable (subtable m k))" by (simp add: subtable_ok)
  with 3 show ?case by (auto simp: subtable_put bt.ins_ins toml_ok_bt)
qed

lemma toml_put_commute:
  "ks \<parallel> js \<Longrightarrow> toml_ok (TTable m) \<Longrightarrow> toml_put ks v (toml_put js w m) = toml_put js w (toml_put ks v m)"
proof (induction ks v m arbitrary: js rule: toml_put.induct)
  case (1 v m)
  then show ?case by simp
next
  case (2 k v m)
  then obtain j js' where js: "js = j # js'" and "j \<noteq> k" by (cases js) auto
  with 2 show ?case by (cases js') (auto simp: bt.ins_commute subtable_put toml_ok_bt)
next
  case (3 k k' ks v m)
  then obtain j js' where js: "js = j # js'" by (cases js) auto
  have ok: "toml_ok (TTable (subtable m k))" "bt_ok m" using 3 by (auto simp: subtable_ok toml_ok_bt)
  show ?case
  proof (cases "j = k")
    case False
    with js ok show ?thesis by (cases js') (auto simp: bt.ins_commute subtable_put)
  next
    case True
    with 3 js have par: "(k' # ks) \<parallel> js'" by (simp add: parallel_Cons_same)
    then obtain i js2 where js': "js' = i # js2" by (cases js') auto
    show ?thesis
      using "3.IH" [OF par ok(1)] js js' True ok(2) by (simp add: subtable_put bt.ins_ins)
  qed
qed


subsection \<open>The edits are point updates\<close>

lemma flatten_rest_get: "bt_ok m \<Longrightarrow> bt_get (flatten_rest ks m) j = (if j \<in> set ks then None else bt_get m j)"
  by (induction ks arbitrary: m) (auto simp: flatten_rest_def bt_get_remove bt_ok_remove)

lemma flatten_rest_ok: "bt_ok m \<Longrightarrow> bt_ok (flatten_rest ks m)"
  by (induction ks arbitrary: m) (auto simp: flatten_rest_def bt_ok_remove)

lemma bt_get_fold_insert:
  "bt_get (fold (\<lambda>(k, v). bt_insert k v) fs m) j =
     (case map_of (rev fs) j of Some v \<Rightarrow> Some v | None \<Rightarrow> bt_get m j)"
  by (induction fs arbitrary: m) (auto simp: bt_get_insert map_add_def split: option.splits)

lemma bt_ok_fold_insert: "bt_ok m \<Longrightarrow> bt_ok (fold (\<lambda>(k, v). bt_insert k v) fs m)"
  by (induction fs arbitrary: m) (auto simp: bt_ok_insert)

lemma ser_fields_eq:
  assumes "bt_ok m" and "set (map fst fs) \<subseteq> set ks"
  shows "ser_fields fs (flatten_rest ks m) = TTable (fold (\<lambda>(k, v). bt_insert k v) fs (flatten_rest ks m))"
proof -
  have m: "bt_ok (flatten_rest ks m)" by (rule flatten_rest_ok [OF assms(1)])
  have "bt_get (bt_of_list (fs @ flatten_rest ks m)) j =
      bt_get (fold (\<lambda>(k, v). bt_insert k v) fs (flatten_rest ks m)) j" for j
  proof -
    have "map_of (rev (flatten_rest ks m)) j = bt_get (flatten_rest ks m) j"
      using bt_ok_distinct [OF m] by (simp add: bt_get_map_of bt_keys_def map_of_rev)
    moreover have "bt_get (flatten_rest ks m) j = None \<or> map_of (rev fs) j = None"
      using assms(2) by (auto simp: flatten_rest_get assms(1) map_of_eq_None_iff)
    ultimately show ?thesis
      by (auto simp: bt_get_of_list bt_get_fold_insert map_add_def split: option.split)
  qed
  with m show ?thesis
    unfolding ser_fields_def by (intro arg_cong [where f = TTable] bt_ext) (simp_all add: bt_ok_fold_insert)
qed

lemma ser_fields_rest: "bt_ok m \<Longrightarrow> ser_fields [(k, v)] (flatten_rest [k] m) = TTable (bt_insert k v m)"
  by (simp add: ser_fields_eq) (simp add: flatten_rest_def bt.ins_rem)

lemma de_table_Ok: "de_table v = Ok m \<longleftrightarrow> v = TTable m"
  by (cases v) auto

lemma de_default_Ok: "de_default m k d de = Ok x \<longleftrightarrow>
    (bt_get m k = None \<and> x = d) \<or> (\<exists>v. bt_get m k = Some v \<and> de v = Ok x)"
  by (auto simp: de_default_def split: option.splits)

lemma de_field_Ok: "de_field m k de = Ok x \<longleftrightarrow> (\<exists>v. bt_get m k = Some v \<and> de v = Ok x)"
  by (auto simp: de_field_def split: option.splits)

lemmas de_iffs = result_iffs de_table_Ok de_default_Ok de_field_Ok

lemma set_edition_eq:
  assumes "toml_ok v" and "set_edition v e = Ok v'"
  obtains m where "v = TTable m" and "v' = TTable (toml_put [''package'', ''edition''] (TString e) m)"
proof -
  from assms(2) obtain m p where v: "v = TTable m" and p: "bt_get m ''package'' = Some (TTable p)"
    and v': "v' = ser_edition_manifest
      \<lparr>em_package = \<lparr>ep_edition = e, ep_other = flatten_rest [''edition''] p\<rparr>,
       em_other = flatten_rest [''package''] m\<rparr>"
    by (auto simp: set_edition_def modify_def de_edition_manifest_def de_edition_package_def de_iffs)
  have "bt_ok m" "bt_ok p"
    using assms(1) bt_get_toml_ok [OF _ p] v by (auto intro: toml_ok_bt)
  with v v' p show thesis
    by (intro that [OF v])
       (simp add: ser_edition_manifest_def ser_edition_package_def ser_fields_rest subtable_def)
qed

lemma remove_dependencies_eq:
  assumes "toml_ok v" and "remove_dependencies v = Ok v'"
  obtains m where "v = TTable m" and "v' = TTable (toml_put [''dependencies''] (TTable []) m)"
proof -
  from assms(2) obtain m where v: "v = TTable m" and v': "v' = ser_deps_manifest
      \<lparr>dm_dependencies = [], dm_other = flatten_rest [''dependencies''] m\<rparr>"
    by (auto simp: remove_dependencies_def modify_def de_deps_manifest_def de_iffs)
  with assms(1) show thesis
    by (intro that [OF v]) (simp add: ser_deps_manifest_def ser_fields_rest toml_ok_bt)
qed

lemma de_lib_manifest_Ok:
  assumes "de_lib_manifest (TTable m) = Ok c"
  obtains ct pm where "c =
     \<lparr>lm_lib = \<lparr>ls_crate_type = ct, ls_proc_macro = pm,
        ls_other = flatten_rest [''crate-type'', ''proc-macro''] (subtable m ''lib'')\<rparr>,
      lm_other = flatten_rest [''lib''] m\<rparr>"
proof -
  from assms obtain l where c: "c = \<lparr>lm_lib = l, lm_other = flatten_rest [''lib''] m\<rparr>"
    and l: "(bt_get m ''lib'' = None \<and> l = lib_default) \<or>
       (\<exists>v. bt_get m ''lib'' = Some v \<and> de_lib_section v = Ok l)"
    by (auto simp: de_lib_manifest_def de_iffs)
  from l have "\<exists>ct pm. l = \<lparr>ls_crate_type = ct, ls_proc_macro = pm,
      ls_other = flatten_rest [''crate-type'', ''proc-macro''] (subtable m ''lib'')\<rparr>"
    by (auto simp: de_lib_section_def de_iffs subtable_def lib_default_def flatten_rest_def)
  with c show thesis by (auto intro: that)
qed

text \<open>The keys of the \<open>lib\<close> table after \<open>set_crate_type\<close> wrote it.\<close>

definition lib_table :: "string list \<Rightarrow> bool \<Rightarrow> toml_table \<Rightarrow> toml_table" where
  "lib_table types proc_macro m = bt_insert ''proc-macro'' (TBoolean proc_macro)
     (if types = [] then bt_remove ''crate-type'' m
      else bt_insert ''crate-type'' (TArray (map TString types)) m)"

lemma ser_lib_section_eq:
  assumes "bt_ok m"
  shows "ser_lib_section \<lparr>ls_crate_type = ct, ls_proc_macro = pm,
      ls_other = flatten_rest [''crate-type'', ''proc-macro''] m\<rparr> = TTable (lib_table ct pm m)"
proof -
  have rem: "bt_insert ''proc-macro'' v (bt_remove ''proc-macro'' n) = bt_insert ''proc-macro'' v n"
    if "bt_ok n" for v n using that by (rule bt.ins_rem)
  have "bt_insert ''crate-type'' w (flatten_rest [''crate-type'', ''proc-macro''] m) =
      bt_remove ''proc-macro'' (bt_insert ''crate-type'' w m)" for w
    using assms by (simp add: flatten_rest_def bt.ins_rem_commute bt.ins_rem bt_ok_remove)
  then show ?thesis
    using assms
    by (simp add: ser_lib_section_def lib_table_def ser_fields_eq rem bt_ok_insert)
       (simp add: flatten_rest_def rem bt_ok_remove)
qed

lemma set_crate_type_eq:
  assumes "toml_ok v" and "set_crate_type v t = Ok v'"
  obtains m c where "v = TTable m" and "de_lib_manifest v = Ok c"
    and "v' = TTable (toml_put [''lib''] (TTable (lib_table
           (if t = ''proc-macro'' then ls_crate_type (lm_lib c)
            else ensure_string_in_vec (ls_crate_type (lm_lib c)) t)
           (ls_proc_macro (lm_lib c) \<or> t = ''proc-macro'') (subtable m ''lib''))) m)"
proof -
  from assms(2) obtain c where c: "de_lib_manifest v = Ok c"
    by (auto simp: set_crate_type_def modify_def de_iffs)
  then obtain m where v: "v = TTable m"
    by (auto simp: de_lib_manifest_def de_iffs)
  have ok: "bt_ok m" "bt_ok (subtable m ''lib'')"
    using assms(1) v subtable_ok by (auto intro: toml_ok_bt)
  from c [unfolded v] obtain ct pm where norm: "c =
     \<lparr>lm_lib = \<lparr>ls_crate_type = ct, ls_proc_macro = pm,
        ls_other = flatten_rest [''crate-type'', ''proc-macro''] (subtable m ''lib'')\<rparr>,
      lm_other = flatten_rest [''lib''] m\<rparr>" by (rule de_lib_manifest_Ok)
  have "v' = ser_lib_manifest (if t = ''proc-macro'' then c\<lparr>lm_lib := (lm_lib c)\<lparr>ls_proc_macro := True\<rparr>\<rparr>
      else c\<lparr>lm_lib := (lm_lib c)\<lparr>ls_crate_type := ensure_string_in_vec (ls_crate_type (lm_lib c)) t\<rparr>\<rparr>)"
    using assms(2) c by (simp add: set_crate_type_def modify_def)
  then show thesis
    by (intro that [OF v c])
       (simp add: norm ser_lib_manifest_def ser_lib_section_eq ser_fields_rest ok)
qed

lemma set_release_lto_eq:
  assumes "toml_ok v" and "set_release_lto v b = Ok v'"
  obtains m where "v = TTable m"
    and "v' = TTable (toml_put [''profile'', ''release'', ''lto''] (TBoolean b) m)"
proof -
  from assms(2) obtain m ps where v: "v = TTable m"
    and ps: "(bt_get m ''profile'' = None \<and> ps = profiles_default) \<or>
       (\<exists>w. bt_get m ''profile'' = Some w \<and> de_profiles w = Ok ps)"
    and v': "v' = ser_profile_manifest \<lparr>pm_profile = ps\<lparr>pfs_release := (pfs_release ps)\<lparr>ps_lto := b\<rparr>\<rparr>,
       pm_other = flatten_rest [''profile''] m\<rparr>"
    by (auto simp: set_release_lto_def modify_def de_profile_manifest_def de_iffs)
  let ?n = "subtable m ''profile''"
  from ps have "\<exists>r. ps = \<lparr>pfs_release = r, pfs_other = flatten_rest [''release''] ?n\<rparr> \<and>
      ps_other r = flatten_rest [''lto''] (subtable ?n ''release'')"
    by (auto simp: de_profiles_def de_profile_def de_iffs subtable_def profiles_default_def
        profile_default_def flatten_rest_def)
  then obtain r where r: "ps = \<lparr>pfs_release = r, pfs_other = flatten_rest [''release''] ?n\<rparr>"
    "ps_other r = flatten_rest [''lto''] (subtable ?n ''release'')" by blast
  have "toml_ok (TTable ?n)" using assms(1) v by (simp add: subtable_ok)
  then have "bt_ok m" "bt_ok ?n" "bt_ok (subtable ?n ''release'')"
    using assms(1) v subtable_ok by (auto intro: toml_ok_bt)
  with v' r show thesis
    by (intro that [OF v])
       (simp add: ser_profile_manifest_def ser_profiles_def ser_profile_def ser_fields_rest)
qed

subsection \<open>Sequences of edits\<close>

text \<open>An edit as a value, its meaning, and the paths it may change.\<close>

datatype cargo_edit =
    SetEdition string
  | RemoveDependencies
  | SetCrateType string
  | SetReleaseLto bool

fun apply_edit :: "cargo_edit \<Rightarrow> toml_value \<Rightarrow> (toml_error, toml_value) result" where
  "apply_edit (SetEdition e) v = set_edition v e"
| "apply_edit RemoveDependencies v = remove_dependencies v"
| "apply_edit (SetCrateType t) v = set_crate_type v t"
| "apply_edit (SetReleaseLto b) v = set_release_lto v b"

fun apply_edits :: "cargo_edit list \<Rightarrow> toml_value \<Rightarrow> (toml_error, toml_value) result" where
  "apply_edits [] v = Ok v"
| "apply_edits (ed # eds) v = res_bind (apply_edit ed v) (apply_edits eds)"

fun footprint :: "cargo_edit \<Rightarrow> string list list" where
  "footprint (SetEdition _) = [[''package'', ''edition'']]"
| "footprint RemoveDependencies = [[''dependencies'']]"
| "footprint (SetCrateType _) = [[''lib'', ''crate-type''], [''lib'', ''proc-macro'']]"
| "footprint (SetReleaseLto _) = [[''profile'', ''release'', ''lto'']]"

definition section_of :: "cargo_edit \<Rightarrow> string" where
  "section_of ed = hd (hd (footprint ed))"

text \<open>A document every edit can read.\<close>

definition manifest_ok :: "toml_value \<Rightarrow> bool" where
  "manifest_ok v \<longleftrightarrow> toml_ok v \<and> is_ok (de_edition_manifest v) \<and> is_ok (de_deps_manifest v) \<and>
     is_ok (de_lib_manifest v) \<and> is_ok (de_profile_manifest v)"

lemma lib_table_frame: "bt_ok n \<Longrightarrow> j \<noteq> ''crate-type'' \<Longrightarrow> j \<noteq> ''proc-macro'' \<Longrightarrow>
    bt_get (lib_table ct pm n) j = bt_get n j"
  by (simp add: lib_table_def bt_get_insert bt_get_remove)

lemma lib_table_ok: "toml_ok (TTable n) \<Longrightarrow> toml_ok (TTable (lib_table ct pm n))"
  by (simp add: lib_table_def toml_ok_insert toml_ok_remove list_all_iff)

text \<open>
  Every edit reads and replaces the value of one top level key: \<open>section_edit\<close> is what it makes
  of that value.
\<close>

fun section_edit :: "cargo_edit \<Rightarrow> toml_value option \<Rightarrow> (toml_error, toml_value) result" where
  "section_edit (SetEdition e) x =
     map_ok (\<lambda>p. ser_edition_package (p\<lparr>ep_edition := e\<rparr>))
       (case x of None \<Rightarrow> Err (MissingField ''package'') | Some v \<Rightarrow> de_edition_package v)"
| "section_edit RemoveDependencies x =
     map_ok (\<lambda>_. TTable [])
       (case x of None \<Rightarrow> Err (MissingField ''dependencies'') | Some v \<Rightarrow> de_table v)"
| "section_edit (SetCrateType t) x =
     map_ok (\<lambda>l. ser_lib_section (if t = ''proc-macro'' then l\<lparr>ls_proc_macro := True\<rparr>
               else l\<lparr>ls_crate_type := ensure_string_in_vec (ls_crate_type l) t\<rparr>))
       (case x of None \<Rightarrow> Ok lib_default | Some v \<Rightarrow> de_lib_section v)"
| "section_edit (SetReleaseLto b) x =
     map_ok (\<lambda>p. ser_profiles (p\<lparr>pfs_release := (pfs_release p)\<lparr>ps_lto := b\<rparr>\<rparr>))
       (case x of None \<Rightarrow> Ok profiles_default | Some v \<Rightarrow> de_profiles v)"

lemma apply_edit_section:
  assumes "bt_ok m"
  shows "apply_edit ed (TTable m) =
     map_ok (\<lambda>w. TTable (bt_insert (section_of ed) w m)) (section_edit ed (bt_get m (section_of ed)))"
proof (cases ed)
  case (SetEdition e)
  with assms show ?thesis
    by (cases "section_edit ed (bt_get m (section_of ed))")
       (auto simp: set_edition_def modify_def de_edition_manifest_def de_field_def section_of_def
         ser_edition_manifest_def ser_fields_rest result_iffs split: option.splits)
next
  case RemoveDependencies
  with assms show ?thesis
    by (cases "section_edit ed (bt_get m (section_of ed))")
       (auto simp: remove_dependencies_def modify_def de_deps_manifest_def de_field_def section_of_def
         ser_deps_manifest_def ser_fields_rest result_iffs split: option.splits)
next
  case (SetCrateType t)
  with assms show ?thesis
    by (cases "section_edit ed (bt_get m (section_of ed))")
       (auto simp: set_crate_type_def modify_def de_lib_manifest_def de_default_def section_of_def
         ser_lib_manifest_def ser_fields_rest result_iffs split: option.splits)
next
  case (SetReleaseLto b)
  with assms show ?thesis
    by (cases "section_edit ed (bt_get m (section_of ed))")
       (auto simp: set_release_lto_def modify_def de_profile_manifest_def de_default_def section_of_def
         ser_profile_manifest_def ser_fields_rest result_iffs split: option.splits)
qed

text \<open>Whether an edit succeeds is decided by the value of its section alone.\<close>

fun section_ok :: "string \<Rightarrow> toml_value option \<Rightarrow> bool" where
  "section_ok k x =
     (if k = ''package'' then (case x of None \<Rightarrow> False | Some v \<Rightarrow> is_ok (de_edition_package v))
      else if k = ''dependencies'' then (case x of None \<Rightarrow> False | Some v \<Rightarrow> is_ok (de_table v))
      else if k = ''lib'' then (case x of None \<Rightarrow> True | Some v \<Rightarrow> is_ok (de_lib_section v))
      else if k = ''profile'' then (case x of None \<Rightarrow> True | Some v \<Rightarrow> is_ok (de_profiles v))
      else True)"

lemma is_ok_res_bind: "is_ok (res_bind r f) \<longleftrightarrow> (\<exists>a. r = Ok a \<and> is_ok (f a))"
  by (cases r) auto

definition sections :: "string list" where
  "sections = [''package'', ''dependencies'', ''lib'', ''profile'']"

lemma is_ok_res_bind_Ok: "is_ok (res_bind r (\<lambda>x. Ok (f x))) = is_ok r"
  by (cases r) auto

lemma manifest_reads:
  "is_ok (de_edition_manifest (TTable m)) = section_ok ''package'' (bt_get m ''package'')"
  "is_ok (de_deps_manifest (TTable m)) = section_ok ''dependencies'' (bt_get m ''dependencies'')"
  "is_ok (de_lib_manifest (TTable m)) = section_ok ''lib'' (bt_get m ''lib'')"
  "is_ok (de_profile_manifest (TTable m)) = section_ok ''profile'' (bt_get m ''profile'')"
  by (simp_all add: de_edition_manifest_def de_deps_manifest_def de_lib_manifest_def
       de_profile_manifest_def is_ok_res_bind_Ok de_field_def de_default_def split: option.splits)

lemma manifest_ok_table: "manifest_ok (TTable m) \<longleftrightarrow>
    toml_ok (TTable m) \<and> (\<forall>k \<in> set sections. section_ok k (bt_get m k))"
  unfolding manifest_ok_def manifest_reads sections_def by simp

lemma manifest_ok_cases:
  assumes "manifest_ok v" obtains m where "v = TTable m"
  using assms by (cases v) (simp_all add: manifest_ok_def de_edition_manifest_def)

lemma section_edit_is_ok: "is_ok (section_edit ed x) = section_ok (section_of ed) x"
  by (cases ed) (auto simp: section_of_def split: option.splits)

declare section_ok.simps [simp del]

lemma de_strings_map: "res_map de_string (map TString ss) = Ok ss"
  by (induction ss) auto

lemma lib_table_reads: "bt_ok n \<Longrightarrow> is_ok (de_lib_section (TTable (lib_table ct pm n)))"
  by (simp add: de_lib_section_def de_default_def lib_table_def bt_get_insert bt_get_remove
      de_strings_map)

lemma de_lib_section_Ok: "de_lib_section v = Ok l \<Longrightarrow>
    \<exists>n. v = TTable n \<and> ls_other l = flatten_rest [''crate-type'', ''proc-macro''] n"
  by (auto simp: de_lib_section_def de_iffs)

lemma de_profiles_Ok: "de_profiles v = Ok p \<Longrightarrow> \<exists>n. v = TTable n \<and> pfs_other p = flatten_rest [''release''] n
    \<and> ps_other (pfs_release p) = flatten_rest [''lto''] (subtable n ''release'')"
  by (auto simp: de_profiles_def de_profile_def de_iffs subtable_def profile_default_def flatten_rest_def)

text \<open>The value an edit writes has the shape of its section again, and is well-formed.\<close>

lemma crate_type_shape:
  assumes "section_edit (SetCrateType t) x = Ok w" and "\<And>v. x = Some v \<Longrightarrow> toml_ok v"
  shows "toml_ok w \<and> section_ok (section_of (SetCrateType t)) (Some w)"
proof -
  from assms(1) obtain l where
      x: "x = None \<and> l = lib_default \<or> (\<exists>v. x = Some v \<and> de_lib_section v = Ok l)"
    and w: "w = ser_lib_section (if t = ''proc-macro'' then l\<lparr>ls_proc_macro := True\<rparr>
               else l\<lparr>ls_crate_type := ensure_string_in_vec (ls_crate_type l) t\<rparr>)"
    by (cases x) (auto simp: result_iffs)
  from x obtain n where l: "ls_other l = flatten_rest [''crate-type'', ''proc-macro''] n"
    "x = None \<and> n = [] \<or> x = Some (TTable n)"
    by (auto simp: lib_default_def flatten_rest_def dest!: de_lib_section_Ok)
  have n: "toml_ok (TTable n)" using assms(2) l(2) by auto
  have "\<exists>ct pm. w = TTable (lib_table ct pm n)"
    unfolding w using l(1) ser_lib_section_eq [OF toml_ok_bt [OF n]] by (cases l) auto
  with n show ?thesis
    using lib_table_reads [OF toml_ok_bt [OF n]]
    by (auto simp: section_of_def section_ok.simps lib_table_ok)
qed

lemma release_lto_shape:
  assumes "section_edit (SetReleaseLto b) x = Ok w" and "\<And>v. x = Some v \<Longrightarrow> toml_ok v"
  shows "toml_ok w \<and> section_ok (section_of (SetReleaseLto b)) (Some w)"
proof -
  from assms(1) obtain p where
      x: "x = None \<and> p = profiles_default \<or> (\<exists>v. x = Some v \<and> de_profiles v = Ok p)"
    and w: "w = ser_profiles (p\<lparr>pfs_release := (pfs_release p)\<lparr>ps_lto := b\<rparr>\<rparr>)"
    by (cases x) (auto simp: result_iffs)
  from x obtain n where p: "pfs_other p = flatten_rest [''release''] n"
    "ps_other (pfs_release p) = flatten_rest [''lto''] (subtable n ''release'')"
    "x = None \<and> n = [] \<or> x = Some (TTable n)"
    by (auto simp: profiles_default_def profile_default_def flatten_rest_def subtable_def
        dest!: de_profiles_Ok)
  have n: "toml_ok (TTable n)" using assms(2) p(3) by auto
  have "w = TTable (toml_put [''release'', ''lto''] (TBoolean b) n)"
    using p n w by (simp add: ser_profiles_def ser_profile_def ser_fields_rest toml_ok_bt subtable_ok)
  with n show ?thesis
    by (auto simp: section_of_def section_ok.simps toml_ok_put de_profiles_def de_profile_def
        de_default_def bt_get_insert simp del: toml_put.simps(3))
       (simp add: de_profile_def de_default_def bt_get_insert)
qed

lemma section_edit_shape:
  assumes "section_edit ed x = Ok w" and "\<And>v. x = Some v \<Longrightarrow> toml_ok v"
  shows "toml_ok w \<and> section_ok (section_of ed) (Some w)"
proof (cases ed)
  case (SetEdition e)
  with assms(1) obtain v p where x: "x = Some v" "de_edition_package v = Ok p"
    "w = ser_edition_package (p\<lparr>ep_edition := e\<rparr>)"
    by (auto simp: result_iffs split: option.splits)
  then obtain n where n: "v = TTable n" "ep_other p = flatten_rest [''edition''] n"
    by (auto simp: de_edition_package_def de_iffs)
  have "toml_ok (TTable n)" using assms(2) x n by simp
  moreover from this have "w = TTable (bt_insert ''edition'' (TString e) n)"
    using x n by (simp add: ser_edition_package_def ser_fields_rest toml_ok_bt)
  ultimately show ?thesis
    using SetEdition by (simp add: section_of_def section_ok.simps toml_ok_insert
        de_edition_package_def de_default_def bt_get_insert)
next
  case RemoveDependencies
  with assms(1) show ?thesis
    by (auto simp: section_of_def section_ok.simps result_iffs)
next
  case (SetCrateType t)
  with assms show ?thesis using crate_type_shape by blast
next
  case (SetReleaseLto b)
  with assms show ?thesis using release_lto_shape by blast
qed

lemma apply_edit_ok:
  assumes "manifest_ok v"
  obtains v' where "apply_edit ed v = Ok v'" and "manifest_ok v'"
proof -
  from assms obtain m where v: "v = TTable m" by (rule manifest_ok_cases)
  from assms have m: "toml_ok (TTable m)" "\<forall>k \<in> set sections. section_ok k (bt_get m k)"
    by (simp_all add: v manifest_ok_table)
  have "section_of ed \<in> set sections"
    by (cases ed) (simp_all add: section_of_def sections_def)
  with m(2) have "is_ok (section_edit ed (bt_get m (section_of ed)))"
    by (simp add: section_edit_is_ok)
  then obtain w where w: "section_edit ed (bt_get m (section_of ed)) = Ok w"
    by (auto simp: is_ok_iff)
  have shape: "toml_ok w \<and> section_ok (section_of ed) (Some w)"
    using section_edit_shape [OF w] bt_get_toml_ok [OF m(1)] by simp
  show thesis
    by (rule that [of "TTable (bt_insert (section_of ed) w m)"])
       (use m shape in \<open>simp_all add: v w apply_edit_section toml_ok_bt manifest_ok_table
          toml_ok_insert bt_get_insert\<close>)
qed

lemma apply_edits_ok: "manifest_ok v \<Longrightarrow> \<exists>v'. apply_edits eds v = Ok v' \<and> manifest_ok v'"
proof (induction eds arbitrary: v)
  case (Cons ed eds)
  from Cons.prems obtain w where "apply_edit ed v = Ok w" "manifest_ok w" by (rule apply_edit_ok)
  with Cons.IH [of w] show ?case by auto
qed simp

subsection \<open>Properties\<close>

text \<open>The document the properties are applied to: a package, a dependency and a profile.\<close>

definition sample_manifest :: toml_value where
  "sample_manifest = TTable
     [(''dependencies'', TTable [(''rand'', TString ''1'')]),
      (''package'', TTable [(''edition'', TString ''2018''), (''name'', TString ''playground'')]),
      (''profile'', TTable [(''release'', TTable [(''lto'', TBoolean True)])])]"

lemma sample_manifest_ok: "manifest_ok sample_manifest"
  by code_simp

text \<open>C19: no sequence of the four edits panics on a manifest they can read: each \<open>unwrap\<close> of the
  crate succeeds, and the result is again a manifest that every edit can read.\<close>

theorem cargo_edits_never_panic:
  assumes "manifest_ok v"
  shows "\<exists>v'. apply_edits eds v = Ok v' \<and> manifest_ok v'"
  using assms by (rule apply_edits_ok)

theorem cargo_edits_never_panic_witness:
  "\<exists>v'. apply_edits [SetEdition ''2021'', SetCrateType ''bin'', SetReleaseLto False, RemoveDependencies]
     sample_manifest = Ok v' \<and> manifest_ok v'"
  by (rule cargo_edits_never_panic [OF sample_manifest_ok])

text \<open>What a run of \<open>set_crate_type\<close> leaves in the document.\<close>

lemma set_crate_type_effect:
  assumes "toml_ok v" and "set_crate_type v t = Ok v'"
  shows "\<exists>c. de_lib_manifest v = Ok c \<and>
     toml_path v' [''lib'', ''proc-macro''] =
       Some (TBoolean (ls_proc_macro (lm_lib c) \<or> t = ''proc-macro'')) \<and>
     toml_path v' [''lib'', ''crate-type''] =
       (let types = (if t = ''proc-macro'' then ls_crate_type (lm_lib c)
                     else ensure_string_in_vec (ls_crate_type (lm_lib c)) t)
        in if types = [] then None else Some (TArray (map TString types))) \<and>
     (\<forall>js. js \<parallel> [''lib'', ''crate-type''] \<and> js \<parallel> [''lib'', ''proc-macro''] \<longrightarrow>
        toml_path v' js = toml_path v js)"
proof -
  from assms obtain m c where v: "v = TTable m" and c: "de_lib_manifest v = Ok c"
    and v': "v' = TTable (toml_put [''lib''] (TTable (lib_table
           (if t = ''proc-macro'' then ls_crate_type (lm_lib c)
            else ensure_string_in_vec (ls_crate_type (lm_lib c)) t)
           (ls_proc_macro (lm_lib c) \<or> t = ''proc-macro'') (subtable m ''lib''))) m)"
    by (rule set_crate_type_eq)
  let ?n = "subtable m ''lib''"
  have n: "bt_ok ?n" using assms(1) v by (auto intro: toml_ok_bt subtable_ok)
  have "toml_path v' js = toml_path v js"
    if js: "js \<parallel> [''lib'', ''crate-type'']" "js \<parallel> [''lib'', ''proc-macro'']" for js
  proof (cases "js \<parallel> [''lib'']")
    case True
    then show ?thesis unfolding v' v by (intro toml_path_put_frame) (simp add: parallel_commute)
  next
    case False
    with js obtain i is' where "js = ''lib'' # i # is'" "i \<noteq> ''crate-type''" "i \<noteq> ''proc-macro''"
      by (cases js; cases "tl js") (auto simp: parallel_def)
    then show ?thesis
      using n by (simp add: v v' toml_path_subtable subtable_put lib_table_frame del: toml_path.simps(2))
         (simp add: lib_table_frame)
  qed
  then show ?thesis
    using n c by (auto simp: v' bt_get_insert lib_table_def bt_get_remove Let_def)
qed

text \<open>The other three edits are one point update each, with a value of their own.\<close>

fun edit_value :: "cargo_edit \<Rightarrow> toml_value option" where
  "edit_value (SetEdition e) = Some (TString e)"
| "edit_value RemoveDependencies = Some (TTable [])"
| "edit_value (SetCrateType _) = None"
| "edit_value (SetReleaseLto b) = Some (TBoolean b)"

lemma apply_edit_put:
  assumes "toml_ok v" and "apply_edit ed v = Ok v'" and "edit_value ed = Some w"
  obtains m where "v = TTable m" and "v' = TTable (toml_put (hd (footprint ed)) w m)"
    and "footprint ed = [hd (footprint ed)]"
  using assms
  by (cases ed) (auto elim: set_edition_eq remove_dependencies_eq set_release_lto_eq
      simp del: toml_put.simps)

lemma apply_edit_frame:
  assumes "toml_ok v" and "apply_edit ed v = Ok v'" and "list_all (\<lambda>ks. js \<parallel> ks) (footprint ed)"
  shows "toml_path v' js = toml_path v js"
proof (cases "edit_value ed")
  case None
  then obtain t where "ed = SetCrateType t" by (cases ed) auto
  with assms set_crate_type_effect [of v t v'] show ?thesis by auto
next
  case (Some w)
  with assms(1,2) obtain m where m: "v = TTable m" "v' = TTable (toml_put (hd (footprint ed)) w m)"
    "footprint ed = [hd (footprint ed)]" by (rule apply_edit_put)
  have "list_all (\<lambda>ks. js \<parallel> ks) [hd (footprint ed)]" using assms(3) m(3) by metis
  then have "hd (footprint ed) \<parallel> js" by (simp add: parallel_commute)
  then show ?thesis unfolding m(1,2) by (rule toml_path_put_frame)
qed

text \<open>What each edit promises of the document it returns.\<close>

fun edit_written :: "cargo_edit \<Rightarrow> toml_value \<Rightarrow> toml_value \<Rightarrow> bool" where
  "edit_written (SetEdition e) v v' = (toml_path v' [''package'', ''edition''] = Some (TString e))"
| "edit_written RemoveDependencies v v' = (toml_path v' [''dependencies''] = Some (TTable []))"
| "edit_written (SetCrateType t) v v' =
     (case de_lib_manifest v of
        Err _ \<Rightarrow> False
      | Ok c \<Rightarrow>
          toml_path v' [''lib'', ''proc-macro''] =
            Some (TBoolean (ls_proc_macro (lm_lib c) \<or> t = ''proc-macro'')) \<and>
          toml_path v' [''lib'', ''crate-type''] =
            (let types = (if t = ''proc-macro'' \<or> t \<in> set (ls_crate_type (lm_lib c))
                          then ls_crate_type (lm_lib c) else ls_crate_type (lm_lib c) @ [t])
             in if types = [] then None else Some (TArray (map TString types))))"
| "edit_written (SetReleaseLto b) v v' =
     (toml_path v' [''profile'', ''release'', ''lto''] = Some (TBoolean b))"

lemma ensure_string_in_vec_eq:
  "ensure_string_in_vec values val = (if val \<in> set values then values else values @ [val])"
  by (auto simp: ensure_string_in_vec_def list_ex_iff)

lemma apply_edit_written:
  assumes "toml_ok v" and "apply_edit ed v = Ok v'"
  shows "edit_written ed v v'"
proof (cases ed)
  case (SetEdition e)
  with assms show ?thesis by (auto elim!: set_edition_eq simp: bt_get_insert)
next
  case RemoveDependencies
  with assms show ?thesis by (auto elim!: remove_dependencies_eq simp: bt_get_insert)
next
  case (SetCrateType t)
  with assms set_crate_type_effect [of v t v'] show ?thesis
    by (auto simp: ensure_string_in_vec_eq Let_def)
next
  case (SetReleaseLto b)
  with assms show ?thesis by (auto elim!: set_release_lto_eq simp: bt_get_insert)
qed

lemma apply_edits_two:
  assumes "manifest_ok (TTable m)"
  shows "\<exists>w w'. section_edit a (bt_get m (section_of a)) = Ok w \<and>
    apply_edit a (TTable m) = Ok (TTable (bt_insert (section_of a) w m)) \<and>
    section_edit b (bt_get (bt_insert (section_of a) w m) (section_of b)) = Ok w' \<and>
    apply_edits [a, b] (TTable m) =
      Ok (TTable (bt_insert (section_of b) w' (bt_insert (section_of a) w m)))"
proof -
  have m: "bt_ok m" using assms by (simp add: manifest_ok_table toml_ok_bt)
  from assms obtain v' where v': "apply_edit a (TTable m) = Ok v'" "manifest_ok v'"
    by (rule apply_edit_ok)
  then obtain w where w: "section_edit a (bt_get m (section_of a)) = Ok w"
    "v' = TTable (bt_insert (section_of a) w m)"
    by (auto simp: apply_edit_section m result_iffs)
  from v'(2) obtain v'' where "apply_edit b v' = Ok v''" by (rule apply_edit_ok)
  with w m show ?thesis
    by (auto simp: apply_edit_section bt_ok_insert result_iffs)
qed

text \<open>C18: an edit writes exactly what it is named for (the edition, an empty dependency table, the
  crate type appended once or the proc-macro flag, the lto flag) and every other path of the
  document, at any depth, reads as before.\<close>

theorem cargo_edit_is_local:
  assumes "toml_ok v" and "apply_edit ed v = Ok v'"
  shows "edit_written ed v v' \<and>
    (\<forall>js. list_all (\<lambda>ks. js \<parallel> ks) (footprint ed) \<longrightarrow> toml_path v' js = toml_path v js)"
  using apply_edit_written [OF assms] apply_edit_frame [OF assms] by blast

theorem cargo_edit_is_local_witness:
  "\<exists>v'. set_edition sample_manifest ''2021'' = Ok v' \<and> toml_path v' [''package'', ''name''] = Some (TString ''playground'')"
proof -
  obtain v' where v': "apply_edit (SetEdition ''2021'') sample_manifest = Ok v'"
    using sample_manifest_ok by (rule apply_edit_ok)
  have "toml_ok sample_manifest" using sample_manifest_ok by (simp add: manifest_ok_def)
  from cargo_edit_is_local [OF this v']
  have "toml_path v' [''package'', ''name''] = toml_path sample_manifest [''package'', ''name'']"
    by (simp add: parallel_def)
  with v' show ?thesis by (simp add: sample_manifest_def)
qed



end
