(* ===== verification/Asm_Cleanup.thy ===== *)
theory Asm_Cleanup
  imports Str_Std
begin

text \<open>
  The crate \<open>asm-cleanup\<close>: demangling of symbols and the removal of unused labels, data and
  directives from assembly. The regular expressions are applied by the crate \<open>regex\<close> and the
  graph is walked by \<open>petgraph\<close>; both are parameters (\<open>asm_patterns\<close>, \<open>dfs\<close>), and
  \<open>ascii_patterns\<close> and \<open>reach_list\<close> are what the patterns and the walk mean on ASCII text and on
  finite graphs. The specification of the filter is reachability of labels from the operands of
  the opcodes.
\<close>

subsection \<open>\<open>demangle_asm\<close>\<close>

text \<open>The class of the pattern \<open>_[a-zA-Z0-9._$]*\<close> after its first character.\<close>

definition symbol_char :: "char \<Rightarrow> bool" where
  "symbol_char c = (is_alpha c \<or> is_digit c \<or> c \<in> set ''._$'')"

text \<open>\<open>replace_all\<close>: every leftmost longest match is replaced, the text between is copied.\<close>

function demangle_asm :: "(string \<Rightarrow> string) \<Rightarrow> string \<Rightarrow> string" where
  "demangle_asm demangle [] = []"
| "demangle_asm demangle (c # cs) =
     (if c = CHR ''_''
      then demangle (c # takeWhile symbol_char cs) @ demangle_asm demangle (dropWhile symbol_char cs)
      else c # demangle_asm demangle cs)"
  by pat_completeness auto

termination demangle_asm
  by (relation "measure (\<lambda>(_, s). length s)") (simp_all add: le_imp_less_Suc length_dropWhile_le)

lemma demangle_asm_id: "demangle_asm (\<lambda>s. s) block = block"
proof (induction "\<lambda>s :: string. s" block rule: demangle_asm.induct)
  case (2 c cs)
  then show ?case by simp
qed simp

lemma demangle_asm_no_symbol: "CHR ''_'' \<notin> set block \<Longrightarrow> demangle_asm demangle block = block"
  by (induction block) auto

subsection \<open>The patterns\<close>

text \<open>What the crate \<open>regex\<close> answers for the seven patterns on a line: a match, or the text of
  the first capture group, or that of all successive matches.\<close>

record asm_patterns =
  opcode_is_match :: "string \<Rightarrow> bool"
  label_decl_capture :: "string \<Rightarrow> string option"
  label_ref_captures :: "string \<Rightarrow> string list"
  data_is_match :: "string \<Rightarrow> bool"
  function_capture :: "string \<Rightarrow> string option"
  directive_is_match :: "string \<Rightarrow> bool"
  blank_is_match :: "string \<Rightarrow> bool"

datatype line_type =
    Opcode
  | LabelDecl string
  | Data string
  | FunctionDecl
  | Directive
  | Blank
  | Misc

record asm_state =
  as_current_label :: string
  as_line_info :: "line_type list"
  as_labels :: "string list"
  as_operands :: "string list"
  as_label_graph :: "(string \<times> string) list"

definition asm_start :: asm_state where
  "asm_start = \<lparr>as_current_label = [], as_line_info = [], as_labels = [], as_operands = [],
     as_label_graph = []\<rparr>"

subsection \<open>\<open>filter_asm\<close>\<close>

text \<open>One line of the first pass.\<close>

definition note_line :: "asm_patterns \<Rightarrow> asm_state \<Rightarrow> string \<Rightarrow> asm_state" where
  "note_line re st l =
     (let push = (\<lambda>t st. st\<lparr>as_line_info := as_line_info st @ [t]\<rparr>) in
      if opcode_is_match re l
      then (push Opcode st)\<lparr>as_operands := as_operands st @ drop 1 (label_ref_captures re l)\<rparr>
      else case label_decl_capture re l of
        Some label \<Rightarrow>
          (push (LabelDecl label) st)\<lparr>as_labels := as_labels st @ [label], as_current_label := label\<rparr>
      | None \<Rightarrow>
          if data_is_match re l \<and> as_current_label st \<noteq> []
          then (push (Data (as_current_label st)) st)\<lparr>as_label_graph := as_label_graph st @
                 map (\<lambda>r. (as_current_label st, r)) (drop 1 (label_ref_captures re l))\<rparr>
          else case function_capture re l of
            Some f \<Rightarrow> (push FunctionDecl st)\<lparr>as_operands := as_operands st @ [f]\<rparr>
          | None \<Rightarrow>
              if directive_is_match re l then push Directive st
              else if blank_is_match re l then push Blank st
              else push Misc st)"

definition note_lines :: "asm_patterns \<Rightarrow> string list \<Rightarrow> asm_state" where
  "note_lines re ls = foldl (note_line re) asm_start ls"

definition contains_node :: "(string \<times> string) list \<Rightarrow> string \<Rightarrow> bool" where
  "contains_node g n = list_ex (\<lambda>(a, b). a = n \<or> b = n) g"

text \<open>The labels that are declared and used, then those the walk of the data graph visits.\<close>

definition used_labels ::
    "((string \<times> string) list \<Rightarrow> string \<Rightarrow> string list) \<Rightarrow> asm_state \<Rightarrow> string list" where
  "used_labels dfs st =
     (let used = filter (\<lambda>l. l \<in> set (as_operands st)) (as_labels st);
          data_labels = concat (map (\<lambda>l. if contains_node (as_label_graph st) l
                                         then dfs (as_label_graph st) l else []) used)
      in used @ data_labels)"

fun emit_line :: "string list \<Rightarrow> string \<Rightarrow> line_type \<Rightarrow> string" where
  "emit_line used l Opcode = l @ [CHR 0x0A]"
| "emit_line used l Misc = l @ [CHR 0x0A]"
| "emit_line used l (Data d) = (if d \<in> set used then l @ [CHR 0x0A] else [])"
| "emit_line used l (LabelDecl d) =
     (if d \<in> set used then [CHR 0x0A] @ l @ [CHR 0x0A] else [])"
| "emit_line used l FunctionDecl = []"
| "emit_line used l Directive = []"
| "emit_line used l Blank = []"

definition filter_asm ::
    "asm_patterns \<Rightarrow> ((string \<times> string) list \<Rightarrow> string \<Rightarrow> string list) \<Rightarrow> string \<Rightarrow> string" where
  "filter_asm re dfs block =
     (let st = note_lines re (str_lines block);
          used = used_labels dfs st
      in concat (map (\<lambda>(l, t). emit_line used l t) (zip (str_lines block) (as_line_info st))))"

subsection \<open>The patterns on ASCII text and the walk of a finite graph\<close>

text \<open>The text after \<open>^\s+\<close>, when the line starts with white space.\<close>

definition after_space :: "string \<Rightarrow> string option" where
  "after_space l = (case l of [] \<Rightarrow> None
     | c # _ \<Rightarrow> if is_space c then Some (dropWhile is_space l) else None)"

definition is_prefix_of :: "string \<Rightarrow> string \<Rightarrow> bool" where
  "is_prefix_of p s = (take (length p) s = p)"

definition ascii_opcode :: "string \<Rightarrow> bool" where
  "ascii_opcode l = (case after_space l of
     Some (c # cs) \<Rightarrow> is_alpha c \<and> cs \<noteq> [] \<and> last cs \<noteq> CHR '':''
   | _ \<Rightarrow> False)"

definition label_char :: "char \<Rightarrow> bool" where
  "label_char c = (is_alpha c \<or> is_digit c \<or> c \<in> set ''$&_.,<>[]{}: '' \<or> c = CHR 0x27)"

definition comment_or_end :: "string \<Rightarrow> bool" where
  "comment_or_end t = (t = [] \<or> (case after_space t of Some (c # _) \<Rightarrow> c = CHR ''#'' | _ \<Rightarrow> False))"

text \<open>\<open>^([a-zA-Z_.<][..]*):(\s+#.*)?$\<close>: the class is greedy and contains the colon, so the longest
  prefix that leaves a colon and an optional comment is the capture.\<close>

definition ascii_label_decl :: "string \<Rightarrow> string option" where
  "ascii_label_decl l = (case l of
     [] \<Rightarrow> None
   | c # cs \<Rightarrow>
       if is_alpha c \<or> c \<in> set ''_.<''
       then map_option (\<lambda>n. c # take n cs)
              (find (\<lambda>n. case drop n cs of [] \<Rightarrow> False | d # t \<Rightarrow> d = CHR '':'' \<and> comment_or_end t)
                (rev [0..<Suc (length (takeWhile label_char cs))]))
       else None)"

function ascii_label_refs :: "string \<Rightarrow> string list" where
  "ascii_label_refs [] = []"
| "ascii_label_refs (c # cs) =
     (if is_alpha c \<or> c = CHR ''_'' \<or> c = CHR ''.''
      then (c # takeWhile symbol_char cs) # ascii_label_refs (dropWhile symbol_char cs)
      else ascii_label_refs cs)"
  by pat_completeness auto

termination ascii_label_refs
  by (relation "measure length") (simp_all add: le_imp_less_Suc length_dropWhile_le)

definition ascii_data :: "string \<Rightarrow> bool" where
  "ascii_data l = (case after_space l of
     Some (c # cs) \<Rightarrow> c = CHR ''.'' \<and> list_ex (\<lambda>p. is_prefix_of p cs)
       [''string'', ''asciz'', ''ascii'', ''byte'', ''1byte'', ''2byte'', ''4byte'', ''8byte'',
        ''short'', ''word'', ''long'', ''quad'', ''value'', ''zero'']
   | _ \<Rightarrow> False)"

definition ascii_function :: "string \<Rightarrow> string option" where
  "ascii_function l = (case after_space l of
     Some r \<Rightarrow>
       if is_prefix_of ''.type'' r \<and> is_prefix_of (rev '',@function'') (rev (drop 5 r))
       then Some (dropWhile is_space (take (length r - 5 - 10) (drop 5 r))) else None
   | None \<Rightarrow> None)"

definition ascii_directive :: "string \<Rightarrow> bool" where
  "ascii_directive l = (case after_space l of
     Some (c # cs) \<Rightarrow> c = CHR ''.'' \<and> cs \<noteq> [] \<and> last cs \<noteq> CHR '':''
   | _ \<Rightarrow> False)"

definition ascii_blank :: "string \<Rightarrow> bool" where
  "ascii_blank l = list_all is_space l"

definition ascii_patterns :: asm_patterns where
  "ascii_patterns = \<lparr>opcode_is_match = ascii_opcode, label_decl_capture = ascii_label_decl,
     label_ref_captures = ascii_label_refs, data_is_match = ascii_data,
     function_capture = ascii_function, directive_is_match = ascii_directive,
     blank_is_match = ascii_blank\<rparr>"

text \<open>Everything reachable, by as many rounds as there are edges.\<close>

definition reach_round :: "(string \<times> string) list \<Rightarrow> string list \<Rightarrow> string list" where
  "reach_round g xs = remdups (xs @ map snd (filter (\<lambda>(a, b). a \<in> set xs) g))"

definition reach_list :: "(string \<times> string) list \<Rightarrow> string \<Rightarrow> string list" where
  "reach_list g a = (reach_round g ^^ length g) [a]"


lemma set_reach_round: "set (reach_round g xs) = set xs \<union> set g `` set xs"
  by (force simp: reach_round_def image_iff)

lemma reach_rounds: "set ((reach_round g ^^ n) [a]) = {b. \<exists>m \<le> n. (a, b) \<in> set g ^^ m}"
proof (induction n)
  case 0
  then show ?case by simp
next
  case (Suc n)
  have "b \<in> set ((reach_round g ^^ Suc n) [a]) \<longleftrightarrow> (\<exists>m \<le> Suc n. (a, b) \<in> set g ^^ m)" for b
  proof
    assume "b \<in> set ((reach_round g ^^ Suc n) [a])"
    then consider "b \<in> set ((reach_round g ^^ n) [a])"
      | c where "c \<in> set ((reach_round g ^^ n) [a])" "(c, b) \<in> set g"
      by (auto simp: set_reach_round)
    then show "\<exists>m \<le> Suc n. (a, b) \<in> set g ^^ m"
    proof cases
      case 1
      then show ?thesis using Suc.IH by (auto intro: le_SucI)
    next
      case 2
      then obtain m where "m \<le> n" "(a, c) \<in> set g ^^ m" using Suc.IH by auto
      with 2(2) have "(a, b) \<in> set g ^^ Suc m" by auto
      with \<open>m \<le> n\<close> show ?thesis by (meson Suc_le_mono)
    qed
  next
    assume "\<exists>m \<le> Suc n. (a, b) \<in> set g ^^ m"
    then obtain m where m: "m \<le> Suc n" "(a, b) \<in> set g ^^ m" by blast
    show "b \<in> set ((reach_round g ^^ Suc n) [a])"
    proof (cases "m \<le> n")
      case True
      with m Suc.IH show ?thesis by (auto simp: set_reach_round)
    next
      case False
      with m obtain c where "(a, c) \<in> set g ^^ n" "(c, b) \<in> set g"
        by (cases m) (auto simp: le_Suc_eq)
      with Suc.IH show ?thesis by (auto simp: set_reach_round)
    qed
  qed
  then show ?case by blast
qed

lemma reach_list_rtrancl: "set (reach_list g a) = {b. (a, b) \<in> (set g)\<^sup>*}"
proof -
  have "(a, b) \<in> (set g)\<^sup>* \<longleftrightarrow> (\<exists>m \<le> length g. (a, b) \<in> set g ^^ m)" for b
    using rtrancl_finite_eq_relpow [of "set g"] card_length [of g] rtrancl_power [of "(a, b)" "set g"]
    by (auto intro: le_trans)
  then show ?thesis by (simp add: reach_list_def reach_rounds)
qed

subsection \<open>The specification\<close>

text \<open>\<open>petgraph\<close>: a walk from a node visits exactly the nodes reachable from it.\<close>

definition dfs_visits_reachable ::
    "((string \<times> string) list \<Rightarrow> string \<Rightarrow> string list) \<Rightarrow> bool" where
  "dfs_visits_reachable dfs \<longleftrightarrow> (\<forall>g a. set (dfs g a) = {b. (a, b) \<in> (set g)\<^sup>*})"

text \<open>A label is used when an operand names a declared label from which the data directives lead
  to it.\<close>

definition label_used :: "asm_state \<Rightarrow> string \<Rightarrow> bool" where
  "label_used st l \<longleftrightarrow> (\<exists>r \<in> set (as_labels st) \<inter> set (as_operands st).
     (r, l) \<in> (set (as_label_graph st))\<^sup>*)"

fun line_kept :: "(string \<Rightarrow> bool) \<Rightarrow> line_type \<Rightarrow> bool" where
  "line_kept used Opcode = True"
| "line_kept used Misc = True"
| "line_kept used (Data d) = used d"
| "line_kept used (LabelDecl d) = used d"
| "line_kept used _ = False"

fun line_text :: "string \<Rightarrow> line_type \<Rightarrow> string" where
  "line_text l (LabelDecl d) = [CHR 0x0A] @ l @ [CHR 0x0A]"
| "line_text l _ = l @ [CHR 0x0A]"

lemma isolated_node: "\<not> contains_node g r \<Longrightarrow> (r, l) \<in> (set g)\<^sup>* \<Longrightarrow> l = r"
  by (auto simp: contains_node_def list_ex_iff elim: converse_rtranclE)

lemma used_labels_spec:
  assumes "dfs_visits_reachable dfs"
  shows "l \<in> set (used_labels dfs st) \<longleftrightarrow> label_used st l"
proof -
  have dfs: "b \<in> set (dfs g a) \<longleftrightarrow> (a, b) \<in> (set g)\<^sup>*" for g a b
    using assms by (simp add: dfs_visits_reachable_def)
  let ?g = "as_label_graph st"
  have "l \<in> set (used_labels dfs st) \<longleftrightarrow> (\<exists>r \<in> set (as_labels st) \<inter> set (as_operands st).
      l = r \<or> contains_node ?g r \<and> (r, l) \<in> (set ?g)\<^sup>*)"
    by (auto simp: used_labels_def dfs Let_def split: if_splits)
  moreover have "l = r \<or> contains_node ?g r \<and> (r, l) \<in> (set ?g)\<^sup>* \<longleftrightarrow> (r, l) \<in> (set ?g)\<^sup>*" for r
    using isolated_node [of ?g r l] by auto
  ultimately show ?thesis by (simp add: label_used_def)
qed

lemma emit_line_spec:
  assumes "dfs_visits_reachable dfs"
  shows "emit_line (used_labels dfs st) l t = (if line_kept (label_used st) t then line_text l t else [])"
  by (cases t) (simp_all add: used_labels_spec [OF assms])

lemma note_line_info: "length (as_line_info (note_line re st l)) = Suc (length (as_line_info st))"
  by (auto simp: note_line_def Let_def split: option.split)

lemma note_lines_length: "length (as_line_info (note_lines re ls)) = length ls"
proof -
  have "length (as_line_info (foldl (note_line re) st ls)) = length (as_line_info st) + length ls" for st
    by (induction ls arbitrary: st) (auto simp: note_line_info)
  then show ?thesis by (simp add: note_lines_def asm_start_def)
qed

lemma concat_map_if: "concat (map (\<lambda>x. if P x then f x else []) xs) = concat (map f (filter P xs))"
  by (induction xs) auto

lemma reach_list_visits: "dfs_visits_reachable reach_list"
  by (simp add: dfs_visits_reachable_def reach_list_rtrancl)


text \<open>The test \<open>used_data_kept\<close> of the crate.\<close>

definition used_data_block :: string where
  "used_data_block = ''ref.2:'' @ [CHR 0x0A] @ ''  .quad 1'' @ [CHR 0x0A] @ ''  jmp ref.2'' @ [CHR 0x0A]"


end
