(* ===== verification/Coordinator_Types.thy ===== *)
theory Coordinator_Types
  imports Str_Std
begin

text \<open>
  The closed sets of options of a request in \<open>orchestrator/src/coordinator.rs\<close>, the names they
  have in a \<open>Cargo.toml\<close> and on a command line, and the lenient parsers of the tools' version
  output.
\<close>

subsection \<open>Options of a request\<close>

datatype assembly_flavor = Att | Intel
datatype demangle_assembly = Demangle | Mangle
datatype process_assembly = Filter | Raw

datatype compile_target =
    Assembly assembly_flavor demangle_assembly process_assembly
  | Hir
  | LlvmIr
  | Mir
  | Wasm

datatype channel = Stable | Beta | Nightly
datatype aliasing_model = Stacked | Tree
datatype mode = Debug | Release
datatype edition = Rust2015 | Rust2018 | Rust2021 | Rust2024
datatype library_type = Lib | Dylib | Rlib | Staticlib | Cdylib | ProcMacro
datatype crate_type = Binary | Library library_type

fun channel_to_str :: "channel \<Rightarrow> string" where
  "channel_to_str Stable = ''stable''"
| "channel_to_str Beta = ''beta''"
| "channel_to_str Nightly = ''nightly''"

fun edition_to_str :: "edition \<Rightarrow> string" where
  "edition_to_str Rust2015 = ''2015''"
| "edition_to_str Rust2018 = ''2018''"
| "edition_to_str Rust2021 = ''2021''"
| "edition_to_str Rust2024 = ''2024''"

definition edition_to_cargo_toml_key :: "edition \<Rightarrow> string" where
  "edition_to_cargo_toml_key e = edition_to_str e"

definition main_rs :: string where "main_rs = ''src/main.rs''"
definition lib_rs :: string where "lib_rs = ''src/lib.rs''"

definition is_binary :: "crate_type \<Rightarrow> bool" where
  "is_binary c = (c = Binary)"

fun primary_path :: "crate_type \<Rightarrow> string" where
  "primary_path Binary = main_rs"
| "primary_path (Library _) = lib_rs"

fun crate_type_to_cargo_toml_key :: "crate_type \<Rightarrow> string" where
  "crate_type_to_cargo_toml_key Binary = ''bin''"
| "crate_type_to_cargo_toml_key (Library Lib) = ''lib''"
| "crate_type_to_cargo_toml_key (Library Dylib) = ''dylib''"
| "crate_type_to_cargo_toml_key (Library Rlib) = ''rlib''"
| "crate_type_to_cargo_toml_key (Library Staticlib) = ''staticlib''"
| "crate_type_to_cargo_toml_key (Library Cdylib) = ''cdylib''"
| "crate_type_to_cargo_toml_key (Library ProcMacro) = ''proc-macro''"

definition to_library_cargo_toml_key :: "crate_type \<Rightarrow> string option" where
  "to_library_cargo_toml_key c = (if c = Binary then None else Some (crate_type_to_cargo_toml_key c))"

lemma edition_keys_inj: "edition_to_cargo_toml_key e = edition_to_cargo_toml_key e' \<longleftrightarrow> e = e'"
  by (cases e; cases e') (simp_all add: edition_to_cargo_toml_key_def)

lemma crate_type_keys_inj: "crate_type_to_cargo_toml_key c = crate_type_to_cargo_toml_key c' \<longleftrightarrow> c = c'"
  by (cases c rule: crate_type_to_cargo_toml_key.cases;
      cases c' rule: crate_type_to_cargo_toml_key.cases) simp_all

subsection \<open>Versions\<close>

record version =
  ver_release :: string
  ver_commit_hash :: string
  ver_commit_date :: string

record channel_versions =
  cv_rustc :: version
  cv_rustfmt :: version
  cv_clippy :: version
  cv_miri :: "version option"

record versions =
  vs_stable :: channel_versions
  vs_beta :: channel_versions
  vs_nightly :: channel_versions

text \<open>A line of \<open>rustc --version --verbose\<close> as key and value, when it has a colon.\<close>

definition version_field :: "string \<Rightarrow> (string \<times> string) option" where
  "version_field line = (case splitn2 CHR '':'' line of
     (_, None) \<Rightarrow> None
   | (key, Some val) \<Rightarrow> Some (str_trim key, str_trim val))"

definition assign_version_field :: "version \<Rightarrow> string \<times> string \<Rightarrow> version" where
  "assign_version_field v kv = (case kv of (k, x) \<Rightarrow>
     if k = ''release'' then v\<lparr>ver_release := x\<rparr>
     else if k = ''commit-hash'' then v\<lparr>ver_commit_hash := x\<rparr>
     else if k = ''commit-date'' then v\<lparr>ver_commit_date := x\<rparr>
     else v)"

definition empty_version :: version where
  "empty_version = \<lparr>ver_release = [], ver_commit_hash = [], ver_commit_date = []\<rparr>"

definition parse_rustc_version_verbose :: "string \<Rightarrow> version" where
  "parse_rustc_version_verbose rustc_version =
     foldl assign_version_field empty_version
       (List.map_filter version_field (drop 1 (str_lines rustc_version)))"

definition nth_or_empty :: "string list \<Rightarrow> nat \<Rightarrow> string" where
  "nth_or_empty parts n = (case drop n parts of [] \<Rightarrow> [] | p # _ \<Rightarrow> p)"

definition parse_tool_version :: "string \<Rightarrow> version" where
  "parse_tool_version tool_version =
     (let parts = drop 1 (split_whitespace tool_version)
      in \<lparr>ver_release = nth_or_empty parts 0,
          ver_commit_hash = trim_start (\<lambda>c. c = CHR ''('') (nth_or_empty parts 1),
          ver_commit_date = trim_end (\<lambda>c. c = CHR '')'') (nth_or_empty parts 2)\<rparr>)"

text \<open>What the tools print: \<open>toolname release (hash date)\<close>, and for \<open>rustc\<close> a banner followed by
  one \<open>key: value\<close> per line.\<close>

definition print_tool_version :: "string \<Rightarrow> version \<Rightarrow> string" where
  "print_tool_version tool v = tool @ '' '' @ ver_release v @ '' ('' @ ver_commit_hash v @ '' ''
     @ ver_commit_date v @ '')''"

definition print_rustc_version_verbose :: "string \<Rightarrow> (string \<times> string) list \<Rightarrow> string" where
  "print_rustc_version_verbose banner kvs =
     concat (map (\<lambda>l. l @ [newline]) (banner # map (\<lambda>(k, x). k @ '': '' @ x) kvs))"

definition version_words :: "version \<Rightarrow> bool" where
  "version_words v \<longleftrightarrow> is_word (ver_release v) \<and> is_word (ver_commit_hash v) \<and>
     is_word (ver_commit_date v) \<and> hd (ver_commit_hash v) \<noteq> CHR ''('' \<and>
     last (ver_commit_date v) \<noteq> CHR '')''"

definition field_text :: "string \<times> string \<Rightarrow> bool" where
  "field_text kv = (case kv of (k, x) \<Rightarrow>
     plain_line k \<and> plain_line x \<and> CHR '':'' \<notin> set k \<and> trimmed k \<and> trimmed x)"

definition last_value :: "(string \<times> string) list \<Rightarrow> string \<Rightarrow> string" where
  "last_value kvs k = (case map_of (rev kvs) k of None \<Rightarrow> [] | Some x \<Rightarrow> x)"

lemma version_field_print: "field_text (k, x) \<Longrightarrow> version_field (k @ CHR '':'' # CHR '' '' # x) = Some (k, x)"
  by (simp add: version_field_def field_text_def splitn2_first str_trim_trimmed str_trim_space is_space_def)

lemma assign_version_fields:
  "foldl assign_version_field v kvs =
     \<lparr>ver_release = (case map_of (rev kvs) ''release'' of None \<Rightarrow> ver_release v | Some x \<Rightarrow> x),
      ver_commit_hash = (case map_of (rev kvs) ''commit-hash'' of None \<Rightarrow> ver_commit_hash v | Some x \<Rightarrow> x),
      ver_commit_date = (case map_of (rev kvs) ''commit-date'' of None \<Rightarrow> ver_commit_date v | Some x \<Rightarrow> x)\<rparr>"
proof (induction kvs rule: rev_induct)
  case Nil
  then show ?case by simp
next
  case (snoc kv kvs)
  obtain k x where kv: "kv = (k, x)" by (cases kv)
  show ?case
    by (simp add: snoc.IH kv) (auto simp: assign_version_field_def)
qed

lemma map_filter_Some: "list_all (\<lambda>x. f (g x) = Some x) xs \<Longrightarrow> List.map_filter f (map g xs) = xs"
  by (induction xs) (auto simp: List.map_filter_simps)

lemma plain_line_append [simp]: "plain_line (a @ b) \<longleftrightarrow> plain_line a \<and> plain_line b"
  by (auto simp: plain_line_def)

lemma parse_rustc_print:
  assumes "plain_line banner" and "list_all field_text kvs"
  shows "parse_rustc_version_verbose (print_rustc_version_verbose banner kvs) =
    \<lparr>ver_release = last_value kvs ''release'', ver_commit_hash = last_value kvs ''commit-hash'',
     ver_commit_date = last_value kvs ''commit-date''\<rparr>"
proof -
  let ?line = "\<lambda>(k, x). k @ '': '' @ x"
  have "list_all plain_line (banner # map ?line kvs)"
    using assms by (auto simp: list_all_iff field_text_def plain_line_def)
  then have lines: "str_lines (print_rustc_version_verbose banner kvs) = banner # map ?line kvs"
    unfolding print_rustc_version_verbose_def by (rule str_lines_unlines)
  have "list_all (\<lambda>kv. version_field (?line kv) = Some kv) kvs"
    using assms(2) by (auto simp: list_all_iff version_field_print)
  then have "List.map_filter version_field (map ?line kvs) = kvs" by (rule map_filter_Some)
  then show ?thesis
    by (simp add: parse_rustc_version_verbose_def lines assign_version_fields last_value_def)
       (simp add: empty_version_def split: option.split)
qed

lemma parse_tool_print:
  assumes "is_word tool" and "version_words v"
  shows "parse_tool_version (print_tool_version tool v) = v"
proof -
  have words: "is_word (CHR ''('' # ver_commit_hash v)" "is_word (ver_commit_date v @ '')'')"
    using assms(2) by (auto simp: version_words_def is_word_def is_space_def)
  have "split_whitespace (print_tool_version tool v) =
      [tool, ver_release v, CHR ''('' # ver_commit_hash v, ver_commit_date v @ '')'']"
    using assms words split_whitespace_word [OF words(1), of "CHR '' ''"]
    by (simp add: print_tool_version_def version_words_def split_whitespace_word split_whitespace_last
        is_space_def)
  then show ?thesis
    using assms(2)
    by (simp add: parse_tool_version_def nth_or_empty_def version_words_def trim_end_snoc
        trim_start_def is_word_def dropWhile_hd)
qed

text \<open>The version parsers invert the tools' output: a tool line gives back release, hash and
  date, and the verbose output of \<open>rustc\<close> gives for each of the three keys its last value,
  whatever other lines there are and in whatever order, or the empty string.\<close>

theorem version_parsers_roundtrip:
  assumes "is_word tool" and "version_words v" and "plain_line banner" and "list_all field_text kvs"
  shows "parse_tool_version (print_tool_version tool v) = v \<and>
    parse_rustc_version_verbose (print_rustc_version_verbose banner kvs) =
      \<lparr>ver_release = last_value kvs ''release'', ver_commit_hash = last_value kvs ''commit-hash'',
       ver_commit_date = last_value kvs ''commit-date''\<rparr>"
  using parse_tool_print [OF assms(1,2)] parse_rustc_print [OF assms(3,4)] by blast

theorem version_parsers_roundtrip_witness:
  "parse_tool_version (print_tool_version ''clippy''
     \<lparr>ver_release = ''0.1.80'', ver_commit_hash = ''051478957'', ver_commit_date = ''2024-07-21''\<rparr>) =
     \<lparr>ver_release = ''0.1.80'', ver_commit_hash = ''051478957'', ver_commit_date = ''2024-07-21''\<rparr> \<and>
   parse_rustc_version_verbose (print_rustc_version_verbose ''rustc 1.80.0''
     [(''binary'', ''rustc''), (''commit-hash'', ''0514''), (''host'', ''x86''), (''release'', ''1.80.0'')]) =
     \<lparr>ver_release = ''1.80.0'', ver_commit_hash = ''0514'', ver_commit_date = []\<rparr>"
proof -
  let ?v = "\<lparr>ver_release = ''0.1.80'', ver_commit_hash = ''051478957'', ver_commit_date = ''2024-07-21''\<rparr>"
  let ?kvs = "[(''binary'', ''rustc''), (''commit-hash'', ''0514''), (''host'', ''x86''), (''release'', ''1.80.0'')]"
  have "is_word ''clippy''" "version_words ?v" "plain_line ''rustc 1.80.0''" "list_all field_text ?kvs"
    by code_simp+
  from version_parsers_roundtrip [OF this] show ?thesis by (simp add: last_value_def)
qed

end
