(* ===== verification/Requests.thy ===== *)
theory Requests
  imports Coordinator_Types Worker_Files Cargo_Toml Asm_Cleanup "HOL-Library.Multiset"
begin

text \<open>
  The six requests of \<open>orchestrator/src/coordinator.rs\<close> and how each is lowered: the files it
  deletes and writes, its cargo command, and its edits of \<open>Cargo.toml\<close>. The trait
  \<open>LowerRequest\<close> is the locale \<open>lower_request\<close>, whose law is that the deleted and the written
  files are disjoint; the locale is interpreted for the six requests.
\<close>

subsection \<open>Code\<close>

record code_file =
  cf_name :: string
  cf_content :: string

datatype code = Single string | Multiple "code_file list"

fun files :: "code \<Rightarrow> crate_type \<Rightarrow> (string \<times> string) list" where
  "files (Single code) crate_type = [(primary_path crate_type, code)]"
| "files (Multiple fs) crate_type = map (\<lambda>cf. (cf_name cf, cf_content cf)) fs"

text \<open>The candidates are a \<open>BTreeSet\<close>, listed in the order of the paths.\<close>

definition delete_candidates :: "string list" where
  "delete_candidates = [''build.rs'', lib_rs, main_rs]"

definition delete_requests :: "code \<Rightarrow> crate_type \<Rightarrow> delete_file_request list" where
  "delete_requests code crate_type =
     map (\<lambda>path. \<lparr>df_path = path\<rparr>)
       (fold (\<lambda>(name, _) candidates. remove1 name candidates) (files code crate_type) delete_candidates)"

definition write_requests :: "code \<Rightarrow> crate_type \<Rightarrow> write_file_request list" where
  "write_requests code crate_type =
     map (\<lambda>(path, content). \<lparr>wf_path = path, wf_content = content\<rparr>) (files code crate_type)"

lemma delete_candidates_sorted: "sorted_wrt (<) delete_candidates"
  by code_simp

lemma fold_remove1:
  "distinct cs \<Longrightarrow> distinct (fold (\<lambda>(n, _) cs. remove1 n cs) fs cs) \<and>
   set (fold (\<lambda>(n, _) cs. remove1 n cs) fs cs) = set cs - set (map fst fs)"
proof (induction fs arbitrary: cs)
  case (Cons f fs)
  obtain n c where "f = (n, c)" by (cases f)
  with Cons.IH [of "remove1 n cs"] Cons.prems show ?case by auto
qed simp

lemma delete_requests_paths:
  "distinct (map df_path (delete_requests code ct))"
  "set (map df_path (delete_requests code ct)) = set delete_candidates - set (map fst (files code ct))"
proof -
  have "distinct delete_candidates" by code_simp
  from fold_remove1 [OF this, of "files code ct"]
  show "distinct (map df_path (delete_requests code ct))"
    "set (map df_path (delete_requests code ct)) = set delete_candidates - set (map fst (files code ct))"
    by (simp_all add: delete_requests_def comp_def)
qed

lemma write_requests_paths: "map wf_path (write_requests code ct) = map fst (files code ct)"
  by (simp add: write_requests_def comp_def case_prod_unfold)

subsection \<open>The requests\<close>

record execute_request =
  er_channel :: channel
  er_mode :: mode
  er_edition :: edition
  er_crate_type :: crate_type
  er_tests :: bool
  er_backtrace :: bool
  er_code :: code

record compile_request =
  cr_target :: compile_target
  cr_channel :: channel
  cr_crate_type :: crate_type
  cr_mode :: mode
  cr_edition :: edition
  cr_tests :: bool
  cr_backtrace :: bool
  cr_code :: code

record format_request =
  fr_channel :: channel
  fr_crate_type :: crate_type
  fr_edition :: edition
  fr_code :: code

record clippy_request =
  cl_channel :: channel
  cl_crate_type :: crate_type
  cl_edition :: edition
  cl_code :: code

record miri_request =
  mr_channel :: channel
  mr_crate_type :: crate_type
  mr_edition :: edition
  mr_tests :: bool
  mr_aliasing_model :: aliasing_model
  mr_code :: code

record macro_expansion_request =
  me_channel :: channel
  me_crate_type :: crate_type
  me_edition :: edition
  me_code :: code

definition execute_delete_files :: "execute_request \<Rightarrow> delete_file_request list" where
  "execute_delete_files r = delete_requests (er_code r) (er_crate_type r)"

definition execute_write_files :: "execute_request \<Rightarrow> write_file_request list" where
  "execute_write_files r = write_requests (er_code r) (er_crate_type r)"

definition execute_cargo_request :: "execute_request \<Rightarrow> execute_command_request" where
  "execute_cargo_request r =
     (let cmd = (if er_tests r then ''test'' else if is_binary (er_crate_type r) then ''run'' else ''build'');
          args = [cmd] @ (if er_mode r = Release then [''--release''] else []);
          envs = (if er_backtrace r then [''RUST_BACKTRACE'' \<mapsto> ''1''] else Map.empty)
      in \<lparr>ec_cmd = ''cargo'', ec_args = args, ec_envs = envs, ec_cwd = None\<rparr>)"

definition compile_delete_files :: "compile_request \<Rightarrow> delete_file_request list" where
  "compile_delete_files r = delete_requests (cr_code r) (cr_crate_type r)"

definition compile_write_files :: "compile_request \<Rightarrow> write_file_request list" where
  "compile_write_files r = write_requests (cr_code r) (cr_crate_type r)"

definition output_path :: string where
  "output_path = ''compilation''"

definition read_output_request :: "compile_request \<Rightarrow> read_file_request" where
  "read_output_request r = \<lparr>rf_path = output_path\<rparr>"

definition postprocess_result ::
    "(string \<Rightarrow> string) \<Rightarrow> asm_patterns \<Rightarrow> ((string \<times> string) list \<Rightarrow> string \<Rightarrow> string list) \<Rightarrow>
     compile_request \<Rightarrow> string \<Rightarrow> string" where
  "postprocess_result rustc_demangle re dfs r code =
     (case cr_target r of
        Assembly _ demangle process \<Rightarrow>
          (let code = (if demangle = Demangle then demangle_asm rustc_demangle code else code)
           in if process = Filter then filter_asm re dfs code else code)
      | _ \<Rightarrow> code)"

fun target_args :: "compile_target \<Rightarrow> channel \<Rightarrow> string list" where
  "target_args (Assembly flavor _ _) channel =
     [''--'', ''--emit'', ''asm=compilation'']
     @ (if channel = Nightly then [''-Z'', ''verbose-asm''] else [])
     @ [''-C'']
     @ (case flavor of
          Att \<Rightarrow> [''llvm-args=-x86-asm-syntax=att'']
        | Intel \<Rightarrow> [''llvm-args=-x86-asm-syntax=intel''])"
| "target_args LlvmIr _ = [''--'', ''--emit'', ''llvm-ir=compilation'']"
| "target_args Mir _ = [''--'', ''--emit'', ''mir=compilation'']"
| "target_args Hir _ = [''--'', ''-Zunpretty=hir'', ''-o'', output_path]"
| "target_args Wasm _ = [''-o'', output_path]"

definition crate_args :: "crate_type \<Rightarrow> string list" where
  "crate_args ct = (case ct of Binary \<Rightarrow> [''--bin'', ''playground''] | Library _ \<Rightarrow> [''--lib''])"

definition compile_cargo_request :: "compile_request \<Rightarrow> execute_command_request" where
  "compile_cargo_request r =
     (let args = (if cr_target r = Wasm then [''wasm''] else [''rustc''])
            @ (if cr_mode r = Release then [''--release''] else [])
            @ crate_args (cr_crate_type r)
            @ target_args (cr_target r) (cr_channel r);
          envs = (if cr_backtrace r then [''RUST_BACKTRACE'' \<mapsto> ''1''] else Map.empty)
      in \<lparr>ec_cmd = ''cargo'', ec_args = args, ec_envs = envs, ec_cwd = None\<rparr>)"

definition format_delete_files :: "format_request \<Rightarrow> delete_file_request list" where
  "format_delete_files r = delete_requests (fr_code r) (fr_crate_type r)"

definition format_write_files :: "format_request \<Rightarrow> write_file_request list" where
  "format_write_files r = write_requests (fr_code r) (fr_crate_type r)"

definition read_output_requests :: "format_request \<Rightarrow> read_file_request list" where
  "read_output_requests r = map (\<lambda>(path, _). \<lparr>rf_path = path\<rparr>) (files (fr_code r) (fr_crate_type r))"

definition format_cargo_request :: "format_request \<Rightarrow> execute_command_request" where
  "format_cargo_request r = execute_command_simple ''cargo'' [''fmt'']"

definition clippy_delete_files :: "clippy_request \<Rightarrow> delete_file_request list" where
  "clippy_delete_files r = delete_requests (cl_code r) (cl_crate_type r)"

definition clippy_write_files :: "clippy_request \<Rightarrow> write_file_request list" where
  "clippy_write_files r = write_requests (cl_code r) (cl_crate_type r)"

definition clippy_cargo_request :: "clippy_request \<Rightarrow> execute_command_request" where
  "clippy_cargo_request r = execute_command_simple ''cargo'' [''clippy'']"

definition miri_delete_files :: "miri_request \<Rightarrow> delete_file_request list" where
  "miri_delete_files r = delete_requests (mr_code r) (mr_crate_type r)"

definition miri_write_files :: "miri_request \<Rightarrow> write_file_request list" where
  "miri_write_files r = write_requests (mr_code r) (mr_crate_type r)"

definition miri_cargo_request :: "miri_request \<Rightarrow> execute_command_request" where
  "miri_cargo_request r =
     (let miriflags = (if mr_aliasing_model r = Tree then [''-Zmiri-tree-borrows''] else [])
            @ [''-Zmiri-disable-isolation''];
          subcommand = (if mr_tests r then ''test'' else ''run'')
      in \<lparr>ec_cmd = ''cargo'', ec_args = [''miri'', subcommand],
          ec_envs = [''MIRIFLAGS'' \<mapsto> str_join '' '' miriflags, ''MIRI_SYSROOT'' \<mapsto> ''/playground/.cache/miri''],
          ec_cwd = None\<rparr>)"

definition macro_expansion_delete_files :: "macro_expansion_request \<Rightarrow> delete_file_request list" where
  "macro_expansion_delete_files r = delete_requests (me_code r) (me_crate_type r)"

definition macro_expansion_write_files :: "macro_expansion_request \<Rightarrow> write_file_request list" where
  "macro_expansion_write_files r = write_requests (me_code r) (me_crate_type r)"

definition macro_expansion_cargo_request :: "macro_expansion_request \<Rightarrow> execute_command_request" where
  "macro_expansion_cargo_request r =
     execute_command_simple ''cargo''
       ([''rustc''] @ crate_args (me_crate_type r) @ [''--'', ''-Zunpretty=expanded''])"

subsection \<open>\<open>CargoTomlModifier\<close>\<close>

text \<open>The part the six implementations share, then the two that differ.\<close>

definition modify_edition_and_crate_type ::
    "edition \<Rightarrow> crate_type \<Rightarrow> toml_value \<Rightarrow> (toml_error, toml_value) result" where
  "modify_edition_and_crate_type e ct cargo_toml =
     res_bind (set_edition cargo_toml (edition_to_cargo_toml_key e)) (\<lambda>cargo_toml.
     (case to_library_cargo_toml_key ct of
        Some crate_type \<Rightarrow> set_crate_type cargo_toml crate_type
      | None \<Rightarrow> Ok cargo_toml))"

definition execute_modify_cargo_toml :: "execute_request \<Rightarrow> toml_value \<Rightarrow> (toml_error, toml_value) result" where
  "execute_modify_cargo_toml r = modify_edition_and_crate_type (er_edition r) (er_crate_type r)"

definition compile_modify_cargo_toml :: "compile_request \<Rightarrow> toml_value \<Rightarrow> (toml_error, toml_value) result" where
  "compile_modify_cargo_toml r cargo_toml =
     res_bind (modify_edition_and_crate_type (cr_edition r) (cr_crate_type r) cargo_toml) (\<lambda>cargo_toml.
     if cr_target r = Wasm
     then res_bind (remove_dependencies cargo_toml) (\<lambda>cargo_toml. set_release_lto cargo_toml True)
     else Ok cargo_toml)"

definition format_modify_cargo_toml :: "format_request \<Rightarrow> toml_value \<Rightarrow> (toml_error, toml_value) result" where
  "format_modify_cargo_toml r = modify_edition_and_crate_type (fr_edition r) (fr_crate_type r)"

definition clippy_modify_cargo_toml :: "clippy_request \<Rightarrow> toml_value \<Rightarrow> (toml_error, toml_value) result" where
  "clippy_modify_cargo_toml r = modify_edition_and_crate_type (cl_edition r) (cl_crate_type r)"

definition miri_modify_cargo_toml :: "miri_request \<Rightarrow> toml_value \<Rightarrow> (toml_error, toml_value) result" where
  "miri_modify_cargo_toml r = modify_edition_and_crate_type (mr_edition r) (mr_crate_type r)"

definition macro_expansion_modify_cargo_toml ::
    "macro_expansion_request \<Rightarrow> toml_value \<Rightarrow> (toml_error, toml_value) result" where
  "macro_expansion_modify_cargo_toml r = modify_edition_and_crate_type (me_edition r) (me_crate_type r)"

text \<open>The edits as a list, for the results of \<open>Cargo_Toml\<close>.\<close>

definition common_edits :: "edition \<Rightarrow> crate_type \<Rightarrow> cargo_edit list" where
  "common_edits e ct = SetEdition (edition_to_cargo_toml_key e) #
     (case to_library_cargo_toml_key ct of None \<Rightarrow> [] | Some t \<Rightarrow> [SetCrateType t])"

definition compile_edits :: "compile_request \<Rightarrow> cargo_edit list" where
  "compile_edits r = common_edits (cr_edition r) (cr_crate_type r) @
     (if cr_target r = Wasm then [RemoveDependencies, SetReleaseLto True] else [])"

lemma res_bind_Ok_right [simp]: "res_bind r Ok = r"
  by (cases r) auto

lemma apply_edits_fun:
  "apply_edits [] = Ok" "apply_edits (ed # eds) = (\<lambda>v. res_bind (apply_edit ed v) (apply_edits eds))"
  by auto

lemma apply_edits_append: "apply_edits (xs @ ys) v = res_bind (apply_edits xs v) (apply_edits ys)"
proof (induction xs arbitrary: v)
  case (Cons x xs)
  then have "apply_edits (xs @ ys) = (\<lambda>v. res_bind (apply_edits xs v) (apply_edits ys))" by auto
  then show ?case by (simp add: res_bind_assoc)
qed (simp add: apply_edits_fun)

lemma modify_common_edits: "modify_edition_and_crate_type e ct v = apply_edits (common_edits e ct) v"
  by (cases "to_library_cargo_toml_key ct")
     (simp_all add: modify_edition_and_crate_type_def common_edits_def apply_edits_fun)

lemma compile_modify_edits: "compile_modify_cargo_toml r v = apply_edits (compile_edits r) v"
  by (simp add: compile_modify_cargo_toml_def compile_edits_def apply_edits_append modify_common_edits
      apply_edits_fun)


subsection \<open>The trait \<open>LowerRequest\<close> as an interface\<close>

text \<open>
  A file operation of a request, its path and its effect on the worker's file system: the delete
  and write handlers when the system refuses nothing.
\<close>

datatype file_op = FileDelete delete_file_request | FileWrite write_file_request

fun file_op_path :: "file_op \<Rightarrow> path" where
  "file_op_path (FileDelete r) = df_path r"
| "file_op_path (FileWrite r) = wf_path r"

fun run_file_op :: "path \<Rightarrow> file_system \<Rightarrow> file_op \<Rightarrow> file_system" where
  "run_file_op dir fs (FileDelete r) = snd (handle_delete_file (Ok ()) r dir fs)"
| "run_file_op dir fs (FileWrite r) = snd (handle_write_file (Ok ()) Written r dir fs)"

fun file_op_result :: "file_op \<Rightarrow> bytes option" where
  "file_op_result (FileDelete r) = None"
| "file_op_result (FileWrite r) = Some (wf_content r)"

lemma run_file_op_upd:
  "run_file_op dir fs op = fs(path_push dir (file_op_path op) := file_op_result op)"
  by (cases op) (simp_all add: write_file_succeeds delete_file_succeeds parse_working_dir_def)

lemma run_file_ops_other:
  "\<forall>op \<in> set ops. q \<noteq> path_push dir (file_op_path op) \<Longrightarrow> foldl (run_file_op dir) fs ops q = fs q"
  by (induction ops arbitrary: fs) (simp_all add: run_file_op_upd)

lemma run_file_ops_at:
  assumes "op \<in> set ops" and "distinct (map file_op_path ops)"
    and "\<forall>op \<in> set ops. \<not> is_absolute (file_op_path op)"
  shows "foldl (run_file_op dir) fs ops (path_push dir (file_op_path op)) = file_op_result op"
  using assms
proof (induction ops arbitrary: fs)
  case (Cons o' ops)
  show ?case
  proof (cases "op = o'")
    case True
    with Cons.prems have "\<forall>x \<in> set ops. path_push dir (file_op_path op) \<noteq> path_push dir (file_op_path x)"
      by (auto simp: path_push_inj)
    then have "foldl (run_file_op dir) (run_file_op dir fs op) ops (path_push dir (file_op_path op)) =
        run_file_op dir fs op (path_push dir (file_op_path op))" by (rule run_file_ops_other)
    also have "\<dots> = file_op_result op" unfolding run_file_op_upd by simp
    finally show ?thesis using True by simp
  next
    case False
    with Cons show ?thesis by simp
  qed
qed simp

text \<open>
  What \<open>do_request\<close> relies on: the deletions are of distinct paths, none of which is written; a
  source file that a build could pick up is replaced or deleted; the edits of the manifest do
  not panic.
\<close>

definition cargo_toml_path :: path where
  "cargo_toml_path = ''Cargo.toml''"

definition file_ops :: "delete_file_request list \<Rightarrow> write_file_request list \<Rightarrow> bytes \<Rightarrow> file_op list" where
  "file_ops deletes writes manifest = map FileDelete deletes @ map FileWrite writes @
     [FileWrite \<lparr>wf_path = cargo_toml_path, wf_content = manifest\<rparr>]"

text \<open>The user's files have distinct relative names and none is the manifest.\<close>

definition files_ok :: "write_file_request list \<Rightarrow> bool" where
  "files_ok writes \<longleftrightarrow> distinct (map wf_path writes) \<and>
     cargo_toml_path \<notin> set (map wf_path writes) \<and>
     list_all (\<lambda>w. \<not> is_absolute (wf_path w)) writes"

locale lower_request =
  fixes delete_files :: "'r \<Rightarrow> delete_file_request list"
    and write_files :: "'r \<Rightarrow> write_file_request list"
    and modify_toml :: "'r \<Rightarrow> toml_value \<Rightarrow> (toml_error, toml_value) result"
  assumes deletes_distinct: "distinct (map df_path (delete_files r))"
    and deletes: "set (map df_path (delete_files r)) =
          set delete_candidates - set (map wf_path (write_files r))"
    and modify_ok: "manifest_ok v \<Longrightarrow> \<exists>v'. modify_toml r v = Ok v' \<and> manifest_ok v'"
begin

lemma candidates_relative: "c \<in> set delete_candidates \<Longrightarrow> \<not> is_absolute c \<and> c \<noteq> cargo_toml_path"
  by (auto simp: delete_candidates_def is_absolute_def lib_rs_def main_rs_def cargo_toml_path_def)

lemma file_ops_ok:
  assumes "files_ok (write_files r)"
  shows "distinct (map file_op_path (file_ops (delete_files r) (write_files r) m))"
    and "\<forall>op \<in> set (file_ops (delete_files r) (write_files r) m). \<not> is_absolute (file_op_path op)"
proof -
  have paths: "map file_op_path (file_ops (delete_files r) (write_files r) m) =
      map df_path (delete_files r) @ map wf_path (write_files r) @ [cargo_toml_path]"
    by (simp add: file_ops_def comp_def)
  show "distinct (map file_op_path (file_ops (delete_files r) (write_files r) m))"
    using assms deletes_distinct [of r] deletes [of r] candidates_relative
    unfolding paths files_ok_def by auto
  have "\<forall>p \<in> set (map file_op_path (file_ops (delete_files r) (write_files r) m)). \<not> is_absolute p"
    using assms deletes [of r] candidates_relative
    unfolding paths files_ok_def by (auto simp: list_all_iff cargo_toml_path_def is_absolute_def)
  then show "\<forall>op \<in> set (file_ops (delete_files r) (write_files r) m). \<not> is_absolute (file_op_path op)" by simp
qed

text \<open>In whatever order the worker handles the operations of a request.\<close>

lemma prepared:
  assumes "files_ok (write_files r)" and "mset ops = mset (file_ops (delete_files r) (write_files r) m)"
    and "fs' = foldl (run_file_op dir) fs ops"
  shows "w \<in> set (write_files r) \<Longrightarrow> fs' (path_push dir (wf_path w)) = Some (wf_content w)"
    and "c \<in> set delete_candidates \<Longrightarrow> c \<notin> set (map wf_path (write_files r)) \<Longrightarrow>
           fs' (path_push dir c) = None"
    and "fs' (path_push dir cargo_toml_path) = Some m"
    and "\<forall>p \<in> set delete_candidates \<union> set (map wf_path (write_files r)) \<union> {cargo_toml_path}.
           q \<noteq> path_push dir p \<Longrightarrow> fs' q = fs q"
proof -
  have set: "set ops = set (file_ops (delete_files r) (write_files r) m)" using assms(2) by (metis set_mset_mset)
  have dist: "distinct (map file_op_path ops)"
    using file_ops_ok(1) [OF assms(1)] assms(2) by (metis distinct_count_atmost_1 mset_map set_mset_mset)
  have at: "fs' (path_push dir (file_op_path op)) = file_op_result op" if "op \<in> set ops" for op
    unfolding assms(3) using that dist file_ops_ok(2) [OF assms(1)] set
    by (intro run_file_ops_at) auto
  show "fs' (path_push dir (wf_path w)) = Some (wf_content w)" if "w \<in> set (write_files r)"
    using at [of "FileWrite w"] that by (simp add: set file_ops_def)
  show "fs' (path_push dir cargo_toml_path) = Some m"
    using at [of "FileWrite \<lparr>wf_path = cargo_toml_path, wf_content = m\<rparr>"] by (simp add: set file_ops_def)
  show "fs' (path_push dir c) = None"
    if c: "c \<in> set delete_candidates" "c \<notin> set (map wf_path (write_files r))"
  proof -
    from c deletes [of r] obtain d where "d \<in> set (delete_files r)" "df_path d = c"
      by (metis DiffI imageE list.set_map)
    with at [of "FileDelete d"] show ?thesis by (simp add: set file_ops_def)
  qed
  show "fs' q = fs q"
    if "\<forall>p \<in> set delete_candidates \<union> set (map wf_path (write_files r)) \<union> {cargo_toml_path}.
           q \<noteq> path_push dir p"
    unfolding assms(3) using that deletes [of r]
    by (intro run_file_ops_other) (auto simp: set file_ops_def)
qed

end

lemma modify_edition_and_crate_type_ok:
  "manifest_ok v \<Longrightarrow> \<exists>v'. modify_edition_and_crate_type e ct v = Ok v' \<and> manifest_ok v'"
  by (simp add: modify_common_edits apply_edits_ok)

lemma delete_write_disjoint:
  "set (map df_path (delete_requests c ct)) = set delete_candidates - set (map wf_path (write_requests c ct))"
  by (simp add: delete_requests_paths write_requests_paths del: set_map)

lemmas lower_request_laws = delete_requests_paths(1) delete_write_disjoint modify_edition_and_crate_type_ok

interpretation execute_lower: lower_request execute_delete_files execute_write_files execute_modify_cargo_toml
  by unfold_locales (simp_all only: execute_delete_files_def execute_write_files_def
      execute_modify_cargo_toml_def lower_request_laws)

interpretation compile_lower: lower_request compile_delete_files compile_write_files compile_modify_cargo_toml
  by unfold_locales (simp_all only: compile_delete_files_def compile_write_files_def
      compile_modify_edits lower_request_laws apply_edits_ok)

interpretation format_lower: lower_request format_delete_files format_write_files format_modify_cargo_toml
  by unfold_locales (simp_all only: format_delete_files_def format_write_files_def
      format_modify_cargo_toml_def lower_request_laws)

interpretation clippy_lower: lower_request clippy_delete_files clippy_write_files clippy_modify_cargo_toml
  by unfold_locales (simp_all only: clippy_delete_files_def clippy_write_files_def
      clippy_modify_cargo_toml_def lower_request_laws)

interpretation miri_lower: lower_request miri_delete_files miri_write_files miri_modify_cargo_toml
  by unfold_locales (simp_all only: miri_delete_files_def miri_write_files_def
      miri_modify_cargo_toml_def lower_request_laws)

interpretation macro_expansion_lower:
  lower_request macro_expansion_delete_files macro_expansion_write_files macro_expansion_modify_cargo_toml
  by unfold_locales (simp_all only: macro_expansion_delete_files_def macro_expansion_write_files_def
      macro_expansion_modify_cargo_toml_def lower_request_laws)


subsection \<open>Properties\<close>

text \<open>The state of the project directory a cargo command of a request is to run in.\<close>

definition project_prepared ::
    "path \<Rightarrow> (string \<times> string) list \<Rightarrow> bytes \<Rightarrow> file_system \<Rightarrow> file_system \<Rightarrow> bool" where
  "project_prepared dir code_files manifest fs fs' \<longleftrightarrow>
     (\<forall>(name, content) \<in> set code_files. fs' (path_push dir name) = Some content) \<and>
     (\<forall>c \<in> set delete_candidates - set (map fst code_files). fs' (path_push dir c) = None) \<and>
     fs' (path_push dir cargo_toml_path) = Some manifest \<and>
     (\<forall>q. (\<forall>p \<in> set delete_candidates \<union> set (map fst code_files) \<union> {cargo_toml_path}.
             q \<noteq> path_push dir p) \<longrightarrow> fs' q = fs q)"

lemma files_prepared:
  assumes "files_ok (write_requests c ct)"
    and "mset ops = mset (file_ops (delete_requests c ct) (write_requests c ct) m)"
  shows "project_prepared dir (files c ct) m fs (foldl (run_file_op dir) fs ops)"
proof -
  let ?r = "\<lparr>fr_channel = Stable, fr_crate_type = ct, fr_edition = Rust2021, fr_code = c\<rparr>"
  have lowered: "format_delete_files ?r = delete_requests c ct" "format_write_files ?r = write_requests c ct"
    by (simp_all add: format_delete_files_def format_write_files_def)
  note p = format_lower.prepared [of ?r, unfolded lowered, OF assms refl, where dir = dir and fs = fs]
  have names: "set (map wf_path (write_requests c ct)) = set (map fst (files c ct))"
    by (simp only: write_requests_paths)
  show ?thesis
    unfolding project_prepared_def
  proof (intro conjI ballI allI impI)
    fix x assume x: "x \<in> set (files c ct)"
    obtain n t where nt: "x = (n, t)" by (cases x)
    have "\<lparr>wf_path = n, wf_content = t\<rparr> \<in> set (write_requests c ct)"
      using imageI [OF x, of "\<lambda>(path, content). \<lparr>wf_path = path, wf_content = content\<rparr>"]
      by (simp add: write_requests_def nt)
    from p(1) [OF this] show "case x of (name, content) \<Rightarrow>
        foldl (run_file_op dir) fs ops (path_push dir name) = Some content"
      by (simp add: nt)
  qed (use p(2-4) names in auto)
qed



definition compile_footprint :: "compile_request \<Rightarrow> string list list" where
  "compile_footprint r = concat (map footprint (compile_edits r))"

lemma apply_edits_frame:
  "manifest_ok v \<Longrightarrow> apply_edits eds v = Ok v' \<Longrightarrow>
   list_all (\<lambda>ks. js \<parallel> ks) (concat (map footprint eds)) \<Longrightarrow> toml_path v' js = toml_path v js"
proof (induction eds arbitrary: v)
  case (Cons ed eds)
  from Cons.prems(1) obtain w where w: "apply_edit ed v = Ok w" "manifest_ok w" by (rule apply_edit_ok)
  then have "toml_path v' js = toml_path w js" using Cons by (auto simp: list_all_iff)
  also have "\<dots> = toml_path v js"
    using apply_edit_frame [OF _ w(1), of js] Cons.prems by (auto simp: manifest_ok_def list_all_iff)
  finally show ?case .
qed simp

text \<open>What an edit of a list writes survives the later edits, which write elsewhere.\<close>

definition edits_apart :: "cargo_edit list \<Rightarrow> bool" where
  "edits_apart eds = sorted_wrt (\<lambda>a b. \<forall>p \<in> set (footprint a). \<forall>q \<in> set (footprint b). p \<parallel> q) eds"

lemma apply_edits_put:
  assumes "manifest_ok v" and "apply_edits eds v = Ok v'" and "edits_apart eds"
    and "ed \<in> set eds" and "edit_value ed = Some w"
  shows "toml_path v' (hd (footprint ed)) = Some w"
  using assms
proof (induction eds arbitrary: v)
  case (Cons e eds)
  from Cons.prems(1) obtain v1 where v1: "apply_edit e v = Ok v1" "manifest_ok v1" by (rule apply_edit_ok)
  show ?case
  proof (cases "ed \<in> set eds")
    case True
    with Cons v1 show ?thesis by (auto simp: edits_apart_def)
  next
    case False
    with Cons.prems(4) have e: "e = ed" by simp
    have "toml_ok v" using Cons.prems(1) by (simp add: manifest_ok_def)
    from this v1(1) [unfolded e] Cons.prems(5) obtain m where
      m: "v1 = TTable (toml_put (hd (footprint ed)) w m)" "footprint ed = [hd (footprint ed)]"
      by (rule apply_edit_put)
    have "hd (footprint ed) \<noteq> []" by (cases ed) simp_all
    then have "toml_path v1 (hd (footprint ed)) = Some w" unfolding m(1) by (rule toml_path_put_same)
    moreover have "hd (footprint ed) \<in> set (footprint ed)" using m(2) by (metis list.set_intros(1))
    then have "list_all (\<lambda>ks. hd (footprint ed) \<parallel> ks) (concat (map footprint eds))"
      using Cons.prems(3) e by (auto simp: edits_apart_def list_all_iff)
    ultimately show ?thesis
      using apply_edits_frame [OF v1(2)] Cons.prems(2) v1(1) by auto
  qed
qed simp


lemma compile_edits_apart: "edits_apart (compile_edits r)"
  by (cases "cr_crate_type r"; cases "cr_target r = Wasm")
     (simp_all add: edits_apart_def compile_edits_def common_edits_def to_library_cargo_toml_key_def
       parallel_def)

text \<open>The library section a request asks for.\<close>

definition library_written :: "library_type \<Rightarrow> toml_value \<Rightarrow> bool" where
  "library_written t v =
     (if t = ProcMacro then toml_path v [''lib'', ''proc-macro''] = Some (TBoolean True)
      else (case toml_path v [''lib'', ''crate-type''] of
              Some (TArray ts) \<Rightarrow> TString (crate_type_to_cargo_toml_key (Library t)) \<in> set ts
            | _ \<Rightarrow> False))"

lemma set_crate_type_library:
  assumes "manifest_ok v" and "set_crate_type v (crate_type_to_cargo_toml_key (Library t)) = Ok v'"
  shows "library_written t v'"
proof -
  have "toml_ok v" using assms(1) by (simp add: manifest_ok_def)
  from set_crate_type_effect [OF this assms(2)] show ?thesis
    by (cases t) (auto simp: library_written_def ensure_string_in_vec_eq Let_def)
qed

lemma compile_library_written:
  assumes "manifest_ok v" and "compile_modify_cargo_toml r v = Ok v'" and "cr_crate_type r = Library t"
  shows "library_written t v'"
proof -
  let ?wasm = "if cr_target r = Wasm then [RemoveDependencies, SetReleaseLto True] else []"
  obtain v1 where v1: "set_edition v (edition_to_cargo_toml_key (cr_edition r)) = Ok v1" "manifest_ok v1"
    using apply_edit_ok [OF assms(1), of "SetEdition (edition_to_cargo_toml_key (cr_edition r))"] by auto
  obtain v2 where v2: "set_crate_type v1 (crate_type_to_cargo_toml_key (Library t)) = Ok v2" "manifest_ok v2"
    using apply_edit_ok [OF v1(2), of "SetCrateType (crate_type_to_cargo_toml_key (Library t))"] by auto
  have rest: "apply_edits ?wasm v2 = Ok v'"
    using assms(2,3) v1 v2
    by (simp add: compile_modify_edits compile_edits_def common_edits_def to_library_cargo_toml_key_def)
  have "toml_path v' [''lib'', k] = toml_path v2 [''lib'', k]" for k
    by (rule apply_edits_frame [OF v2(2) rest]) (simp add: parallel_def)
  then show ?thesis
    using set_crate_type_library [OF v1(2) v2(1)] by (simp add: library_written_def)
qed



end
