(* ===== verification/Commander.thy ===== *)
theory Commander
  imports Messages "HOL-Library.Multiset"
begin

text \<open>
  \<open>Commander\<close> of \<open>orchestrator/src/coordinator.rs\<close>: the demultiplexer that hands the worker's
  messages to the listeners of their job, the job ids, and the single request \<open>one\<close>. The loop of
  the demultiplexer is a step function on events; an event carries what the channels answer. A
  channel is a name; what is sent on it is the log \<open>dx_sent\<close>.
\<close>

datatype multiplexed_sender_error = MultiplexedSenderError send_error

datatype commander_error =
    DuplicateDemultiplexerClient job_id
  | UnableToSendToDemultiplexer send_error
  | DemultiplexerDidNotRespond recv_error
  | UnableToReceiveFromDemultiplexer recv_error
  | UnableToStartOne multiplexed_sender_error
  | UnableToStartMany multiplexed_sender_error
  | UnexpectedResponseType
  | WorkerOperationFailed serialized_error2

subsection \<open>\<open>demultiplex\<close>\<close>

datatype 'c demultiplex_command = Listen job_id 'c | ListenOnce job_id 'c

datatype 'c demux_event =
    DxCommand "'c demultiplex_command option"
  | DxFromWorker "worker_message multiplexed option"
  | DxGc "'c \<Rightarrow> bool"

record 'c demux =
  dx_waiting :: "job_id \<rightharpoonup> 'c"
  dx_waiting_once :: "job_id \<rightharpoonup> 'c"
  dx_sent :: "('c \<times> worker_message) list"
  dx_acked :: "job_id list"
  dx_result :: "(commander_error, unit) result option"

definition demux_start :: "'c demux" where
  "demux_start = \<lparr>dx_waiting = Map.empty, dx_waiting_once = Map.empty, dx_sent = [], dx_acked = [],
     dx_result = None\<rparr>"

definition demux_enabled :: "'c demux \<Rightarrow> 'c demux_event \<Rightarrow> bool" where
  "demux_enabled s e = (dx_result s = None)"

text \<open>\<open>HashMap::retain\<close>.\<close>

definition retain :: "('c \<Rightarrow> bool) \<Rightarrow> ('k \<rightharpoonup> 'c) \<Rightarrow> ('k \<rightharpoonup> 'c)" where
  "retain p m = (\<lambda>j. case m j of None \<Rightarrow> None | Some c \<Rightarrow> if p c then Some c else None)"

fun demux_step :: "'c demux \<Rightarrow> 'c demux_event \<Rightarrow> 'c demux" where
  "demux_step s (DxCommand None) = s\<lparr>dx_result := Some (Ok ())\<rparr>"
| "demux_step s (DxCommand (Some (Listen job_id waiter))) =
     (let old = dx_waiting s job_id;
          s = s\<lparr>dx_waiting := (dx_waiting s)(job_id \<mapsto> waiter)\<rparr>
      in if old \<noteq> None then s\<lparr>dx_result := Some (Err (DuplicateDemultiplexerClient job_id))\<rparr>
         else s\<lparr>dx_acked := dx_acked s @ [job_id]\<rparr>)"
| "demux_step s (DxCommand (Some (ListenOnce job_id waiter))) =
     (let old = dx_waiting_once s job_id;
          s = s\<lparr>dx_waiting_once := (dx_waiting_once s)(job_id \<mapsto> waiter)\<rparr>
      in if old \<noteq> None then s\<lparr>dx_result := Some (Err (DuplicateDemultiplexerClient job_id))\<rparr>
         else s\<lparr>dx_acked := dx_acked s @ [job_id]\<rparr>)"
| "demux_step s (DxFromWorker None) = s\<lparr>dx_result := Some (Ok ())\<rparr>"
| "demux_step s (DxFromWorker (Some (Multiplexed job_id msg))) =
     (case dx_waiting_once s job_id of
        Some waiter \<Rightarrow>
          s\<lparr>dx_waiting_once := (dx_waiting_once s)(job_id := None), dx_sent := dx_sent s @ [(waiter, msg)]\<rparr>
      | None \<Rightarrow>
          (case dx_waiting s job_id of
             Some waiter \<Rightarrow> s\<lparr>dx_sent := dx_sent s @ [(waiter, msg)]\<rparr>
           | None \<Rightarrow> s))"
| "demux_step s (DxGc is_closed) =
     s\<lparr>dx_waiting := retain (\<lambda>c. \<not> is_closed c) (dx_waiting s),
       dx_waiting_once := retain (\<lambda>c. \<not> is_closed c) (dx_waiting_once s)\<rparr>"

subsection \<open>Job ids and requests\<close>

text \<open>\<open>fetch_add(1)\<close> on the shared counter: the old value, and the counter wrapping around.\<close>

definition next_id :: "u64 \<Rightarrow> job_id \<times> u64" where
  "next_id counter = (counter, counter + 1)"

fun next_ids :: "nat \<Rightarrow> u64 \<Rightarrow> job_id list" where
  "next_ids 0 counter = []"
| "next_ids (Suc n) counter = (let (job, counter) = next_id counter in job # next_ids n counter)"

text \<open>\<open>MultiplexedSender::send\<close>: the message with its job, when the worker's channel is open.\<close>

definition multiplexed_send ::
    "bool \<Rightarrow> job_id \<Rightarrow> coordinator_message \<Rightarrow> coordinator_message multiplexed list \<Rightarrow>
     coordinator_message multiplexed list \<times> (multiplexed_sender_error, unit) result" where
  "multiplexed_send worker_open job_id message sent =
     (if worker_open then (sent @ [Multiplexed job_id message], Ok ())
      else (sent, Err (MultiplexedSenderError ())))"

text \<open>What the channels of one request answer: whether the demultiplexer takes the command and
  acknowledges it, whether the worker's channel is open, and the message the listener gets.\<close>

record request_answers =
  ra_demux_open :: bool
  ra_acked :: bool
  ra_worker_open :: bool
  ra_message :: "worker_message option"

definition send_to_demultiplexer :: "request_answers \<Rightarrow> (commander_error, unit) result" where
  "send_to_demultiplexer a =
     (if \<not> ra_demux_open a then Err (UnableToSendToDemultiplexer ())
      else if \<not> ra_acked a then Err (DemultiplexerDidNotRespond ())
      else Ok ())"

definition one ::
    "('q \<Rightarrow> coordinator_message) \<Rightarrow> (worker_message \<Rightarrow> 'r narrowed) \<Rightarrow> job_id \<Rightarrow> 'q \<Rightarrow> request_answers \<Rightarrow>
     coordinator_message multiplexed list \<times> (commander_error, 'r) result" where
  "one widen narrow job message a =
     (case send_to_demultiplexer a of
        Err e \<Rightarrow> ([], Err e)
      | Ok _ \<Rightarrow>
          (case multiplexed_send (ra_worker_open a) job (widen message) [] of
             (sent, Err e) \<Rightarrow> (sent, Err (UnableToStartOne e))
           | (sent, Ok _) \<Rightarrow>
               (sent, case ra_message a of
                  None \<Rightarrow> Err (UnableToReceiveFromDemultiplexer ())
                | Some msg \<Rightarrow>
                    (case narrow msg of
                       Ok v \<Rightarrow> map_err WorkerOperationFailed v
                     | Err _ \<Rightarrow> Err UnexpectedResponseType))))"

definition many ::
    "('q \<Rightarrow> coordinator_message) \<Rightarrow> job_id \<Rightarrow> 'q \<Rightarrow> request_answers \<Rightarrow>
     coordinator_message multiplexed list \<times> (commander_error, job_id) result" where
  "many widen job message a =
     (case send_to_demultiplexer a of
        Err e \<Rightarrow> ([], Err e)
      | Ok _ \<Rightarrow>
          (case multiplexed_send (ra_worker_open a) job (widen message) [] of
             (sent, Err e) \<Rightarrow> (sent, Err (UnableToStartMany e))
           | (sent, Ok _) \<Rightarrow> (sent, Ok job)))"

subsection \<open>Job ids are unique\<close>

lemma next_ids_eq: "next_ids n c = map (\<lambda>i. c + of_nat i) [0..<n]"
proof (induction n arbitrary: c)
  case (Suc n)
  have "map (\<lambda>i. c + of_nat i) [0..<Suc n] = c # map (\<lambda>i. c + 1 + of_nat i) [0..<n]"
    by (simp add: upt_conv_Cons map_Suc_upt [symmetric] comp_def add.assoc del: upt_Suc)
  with Suc show ?case by (simp add: next_id_def)
qed simp

lemma next_ids_distinct:
  assumes "n \<le> 2 ^ 64" shows "distinct (next_ids n c)"
proof -
  have "inj_on (\<lambda>i. c + (of_nat i :: u64)) {0..<n}"
  proof (rule inj_onI)
    fix i j assume ij: "i \<in> {0..<n}" "j \<in> {0..<n}" "c + (of_nat i :: u64) = c + of_nat j"
    have "unat (of_nat k :: u64) = k" if "k < n" for k
      using that assms by (simp add: unsigned_of_nat take_bit_nat_eq_self)
    with ij show "i = j" by (metis add_left_cancel atLeastLessThan_iff)
  qed
  then show ?thesis by (simp add: next_ids_eq distinct_map)
qed

subsection \<open>Requests through a contract of request and response\<close>

text \<open>The worker's answer to a request whose handler returned \<open>r\<close>: \<open>MultiplexingSender::send\<close>.\<close>

definition reply :: "('r \<Rightarrow> worker_message) \<Rightarrow> ('e \<Rightarrow> string list) \<Rightarrow> ('e, 'r) result \<Rightarrow> worker_message" where
  "reply respond texts r =
     (case r of Ok x \<Rightarrow> respond x | Err e \<Rightarrow> WmError2 (serialized_error2_new (texts e)))"

definition all_open :: "worker_message \<Rightarrow> request_answers" where
  "all_open m = \<lparr>ra_demux_open = True, ra_acked = True, ra_worker_open = True, ra_message = Some m\<rparr>"

definition channels_open :: "request_answers \<Rightarrow> bool" where
  "channels_open a \<longleftrightarrow> ra_demux_open a \<and> ra_acked a \<and> ra_worker_open a"

context one_to_one
begin

lemma one_reply:
  "one widen narrow job q (all_open (reply respond texts r)) =
     ([Multiplexed job (widen q)], map_err (\<lambda>e. WorkerOperationFailed (serialized_error2_new (texts e))) r)"
  by (cases r) (simp_all add: one_def send_to_demultiplexer_def multiplexed_send_def all_open_def
      reply_def narrow_respond narrow_error2)

lemma one_Ok_iff:
  "snd (one widen narrow job q a) = Ok x \<longleftrightarrow> channels_open a \<and> ra_message a = Some (respond x)"
proof -
  have "(case narrow msg of Ok v \<Rightarrow> map_err WorkerOperationFailed v | Err _ \<Rightarrow> Err UnexpectedResponseType)
      = Ok x \<longleftrightarrow> msg = respond x" for msg
    by (auto simp: narrow_respond split: sum.split dest: narrow_Ok)
  then show ?thesis
    by (auto simp: one_def send_to_demultiplexer_def multiplexed_send_def channels_open_def
        split: option.splits)
qed

lemma one_sends: "fst (one widen narrow job q a) =
    (if channels_open a then [Multiplexed job (widen q)] else [])"
  by (auto simp: one_def send_to_demultiplexer_def multiplexed_send_def channels_open_def)

end


subsection \<open>Routing\<close>

text \<open>The job a command registers, its channel, and what the worker sends for a job.\<close>

fun command_job :: "'c demux_event \<Rightarrow> job_id list" where
  "command_job (DxCommand (Some (Listen j c))) = [j]"
| "command_job (DxCommand (Some (ListenOnce j c))) = [j]"
| "command_job _ = []"

fun command_channel :: "'c demux_event \<Rightarrow> 'c list" where
  "command_channel (DxCommand (Some (Listen j c))) = [c]"
| "command_channel (DxCommand (Some (ListenOnce j c))) = [c]"
| "command_channel _ = []"

fun job_message :: "job_id \<Rightarrow> 'c demux_event \<Rightarrow> worker_message list" where
  "job_message j (DxFromWorker (Some (Multiplexed k m))) = (if k = j then [m] else [])"
| "job_message j _ = []"

fun collects :: "'c \<Rightarrow> 'c demux_event \<Rightarrow> bool" where
  "collects c (DxGc is_closed) = is_closed c"
| "collects c _ = False"

definition registered_jobs :: "'c demux_event list \<Rightarrow> job_id list" where
  "registered_jobs es = concat (map command_job es)"

definition registered_channels :: "'c demux_event list \<Rightarrow> 'c list" where
  "registered_channels es = concat (map command_channel es)"

definition job_messages :: "job_id \<Rightarrow> 'c demux_event list \<Rightarrow> worker_message list" where
  "job_messages j es = concat (map (job_message j) es)"

definition sent_to :: "'c \<Rightarrow> 'c demux \<Rightarrow> worker_message list" where
  "sent_to c s = map snd (filter (\<lambda>(d, m). d = c) (dx_sent s))"

text \<open>The maps only hold jobs and channels that were registered.\<close>

definition demux_inv :: "'c demux \<Rightarrow> bool" where
  "demux_inv s \<longleftrightarrow> dom (dx_waiting s) \<union> dom (dx_waiting_once s) \<subseteq> set (dx_acked s) \<and>
     (\<forall>j. dx_result s = Some (Err (DuplicateDemultiplexerClient j)) \<longrightarrow> j \<in> set (dx_acked s))"

lemma retain_Some [simp]: "retain p m j = Some c \<longleftrightarrow> m j = Some c \<and> p c"
  by (auto simp: retain_def split: option.splits)

lemma retain_None [simp]: "retain p m j = None \<longleftrightarrow> (\<forall>c. m j = Some c \<longrightarrow> \<not> p c)"
  by (auto simp: retain_def split: option.splits)

lemma demux_step_inv: "demux_inv s \<Longrightarrow> demux_enabled s e \<Longrightarrow> demux_inv (demux_step s e)"
  by (cases "(s, e)" rule: demux_step.cases)
     (auto simp: demux_inv_def demux_enabled_def Let_def dom_def split: option.splits)

lemma demux_step_sent: "length (dx_sent s) \<le> length (dx_sent (demux_step s e))"
  by (cases "(s, e)" rule: demux_step.cases) (auto simp: Let_def split: option.splits)

interpretation dm: monotone_loop demux_enabled demux_step demux_inv "\<lambda>s. length (dx_sent s)"
  by unfold_locales (simp_all add: demux_step_inv demux_step_sent)

lemma demux_start_inv: "demux_inv demux_start"
  by (simp add: demux_inv_def demux_start_def)

text \<open>The listener of a job, and nobody else, hears the job.\<close>

definition hears :: "job_id \<Rightarrow> 'c \<Rightarrow> 'c demux \<Rightarrow> bool" where
  "hears j c s \<longleftrightarrow> dx_waiting s j = Some c \<and> dx_waiting_once s j = None \<and>
     (\<forall>k. k \<noteq> j \<longrightarrow> dx_waiting s k \<noteq> Some c \<and> dx_waiting_once s k \<noteq> Some c)"

definition hears_once :: "job_id \<Rightarrow> 'c \<Rightarrow> 'c demux \<Rightarrow> bool" where
  "hears_once j c s \<longleftrightarrow> dx_waiting_once s j = Some c \<and> dx_waiting s j = None \<and>
     (\<forall>k. k \<noteq> j \<longrightarrow> dx_waiting s k \<noteq> Some c \<and> dx_waiting_once s k \<noteq> Some c)"

definition absent :: "'c \<Rightarrow> 'c demux \<Rightarrow> bool" where
  "absent c s \<longleftrightarrow> (\<forall>k. dx_waiting s k \<noteq> Some c \<and> dx_waiting_once s k \<noteq> Some c)"

definition undisturbed :: "job_id \<Rightarrow> 'c \<Rightarrow> 'c demux_event \<Rightarrow> bool" where
  "undisturbed j c e \<longleftrightarrow> j \<notin> set (command_job e) \<and> c \<notin> set (command_channel e) \<and> \<not> collects c e"

lemma sent_to_step_absent:
  assumes "absent c s" and "c \<notin> set (command_channel e)"
  shows "absent c (demux_step s e) \<and> sent_to c (demux_step s e) = sent_to c s"
  using assms by (cases "(s, e)" rule: demux_step.cases)
    (auto simp: absent_def sent_to_def Let_def split: option.splits)

lemma hears_step:
  assumes "hears j c s" and "undisturbed j c e"
  shows "hears j c (demux_step s e) \<and> sent_to c (demux_step s e) = sent_to c s @ job_message j e"
  using assms by (cases "(s, e)" rule: demux_step.cases)
    (auto simp: hears_def undisturbed_def sent_to_def Let_def split: option.splits)

lemma hears_once_step:
  assumes "hears_once j c s" and "undisturbed j c e"
  shows "(case job_message j e of
      [] \<Rightarrow> hears_once j c (demux_step s e) \<and> sent_to c (demux_step s e) = sent_to c s
    | m # _ \<Rightarrow> absent c (demux_step s e) \<and> sent_to c (demux_step s e) = sent_to c s @ [m])"
  using assms by (cases "(s, e)" rule: demux_step.cases)
    (auto simp: hears_once_def absent_def undisturbed_def sent_to_def Let_def split: option.splits)

lemma absent_run:
  "absent c s \<Longrightarrow> c \<notin> set (registered_channels es) \<Longrightarrow>
   absent c (foldl demux_step s es) \<and> sent_to c (foldl demux_step s es) = sent_to c s"
proof (induction es arbitrary: s)
  case (Cons e es)
  then have "c \<notin> set (command_channel e)" "c \<notin> set (registered_channels es)"
    by (auto simp: registered_channels_def)
  with Cons.IH [of "demux_step s e"] sent_to_step_absent [OF Cons.prems(1), of e] show ?case by simp
qed simp

lemma hears_run:
  "hears j c s \<Longrightarrow> list_all (undisturbed j c) es \<Longrightarrow>
   hears j c (foldl demux_step s es) \<and> sent_to c (foldl demux_step s es) = sent_to c s @ job_messages j es"
proof (induction es arbitrary: s)
  case (Cons e es)
  with Cons.IH [of "demux_step s e"] hears_step [OF Cons.prems(1), of e] show ?case
    by (simp add: job_messages_def)
qed (simp add: job_messages_def)

lemma hears_once_run:
  "hears_once j c s \<Longrightarrow> list_all (undisturbed j c) es \<Longrightarrow>
   sent_to c (foldl demux_step s es) = sent_to c s @ take 1 (job_messages j es)"
proof (induction es arbitrary: s)
  case (Cons e es)
  have e: "undisturbed j c e" "list_all (undisturbed j c) es" using Cons.prems by simp_all
  have "c \<notin> set (registered_channels es)"
    using e(2) by (auto simp: registered_channels_def list_all_iff undisturbed_def)
  then show ?case
    using hears_once_step [OF Cons.prems(1) e(1)] Cons.IH [OF _ e(2), of "demux_step s e"]
      absent_run [of c "demux_step s e" es]
    by (cases "job_message j e") (auto simp: job_messages_def)
qed (simp add: job_messages_def)

lemma acked_run:
  "enabled_run demux_enabled demux_step s es \<Longrightarrow>
   (dx_result (foldl demux_step s es) = None \<longrightarrow> dx_acked (foldl demux_step s es) = dx_acked s @ registered_jobs es) \<and>
   set (dx_acked (foldl demux_step s es)) \<subseteq> set (dx_acked s) \<union> set (registered_jobs es)"
proof (induction es arbitrary: s)
  case (Cons e es)
  then have run: "enabled_run demux_enabled demux_step (demux_step s e) es" and "demux_enabled s e"
    by simp_all
  then have en: "dx_result s = None" by (simp add: demux_enabled_def)
  have "(dx_result (demux_step s e) = None \<longrightarrow> dx_acked (demux_step s e) = dx_acked s @ command_job e) \<and>
      set (dx_acked (demux_step s e)) \<subseteq> set (dx_acked s) \<union> set (command_job e)"
    using en by (cases "(s, e)" rule: demux_step.cases) (auto simp: Let_def split: option.splits)
  moreover have "dx_result (demux_step s e) = None \<or> es = []"
    using run by (cases es) (auto simp: demux_enabled_def)
  ultimately show ?case
    using Cons.IH [OF run] by (auto simp: registered_jobs_def)
qed (simp add: registered_jobs_def)


definition no_duplicate :: "'c demux \<Rightarrow> bool" where
  "no_duplicate s \<longleftrightarrow> (\<forall>j. dx_result s \<noteq> Some (Err (DuplicateDemultiplexerClient j)))"

lemma no_duplicate_run:
  "enabled_run demux_enabled demux_step s es \<Longrightarrow> demux_inv s \<Longrightarrow> no_duplicate s \<Longrightarrow>
   distinct (dx_acked s @ registered_jobs es) \<Longrightarrow> no_duplicate (foldl demux_step s es)"
proof (induction es arbitrary: s)
  case (Cons e es)
  then have run: "enabled_run demux_enabled demux_step (demux_step s e) es" and en: "demux_enabled s e"
    by simp_all
  have fresh: "set (command_job e) \<inter> set (dx_acked s) = {}"
    using Cons.prems(4) by (auto simp: registered_jobs_def)
  have step: "no_duplicate (demux_step s e) \<and> dx_acked (demux_step s e) = dx_acked s @ command_job e"
    using fresh Cons.prems(2,3) en
    by (cases "(s, e)" rule: demux_step.cases)
       (auto simp: no_duplicate_def demux_inv_def demux_enabled_def Let_def dom_def split: option.splits)
  have "distinct (dx_acked (demux_step s e) @ registered_jobs es)"
    using Cons.prems(4) step by (simp add: registered_jobs_def)
  with Cons.IH [OF run demux_step_inv [OF Cons.prems(2) en]] step show ?case by simp
qed simp

lemma distinct_submset:
  assumes "mset xs \<subseteq># mset ys" and "distinct ys"
  shows "distinct xs"
proof -
  obtain zs where "mset ys = mset (xs @ zs)"
    using assms(1) by (metis ex_mset mset_append mset_subset_eq_exists_conv)
  with assms(2) have "distinct (xs @ zs)" by (metis mset_eq_imp_distinct_iff)
  then show ?thesis by simp
qed

lemma fresh_job:
  assumes "enabled_run demux_enabled demux_step demux_start es" and "j \<notin> set (registered_jobs es)"
  shows "dx_waiting (foldl demux_step demux_start es) j = None \<and>
    dx_waiting_once (foldl demux_step demux_start es) j = None"
proof -
  have "demux_inv (foldl demux_step demux_start es)"
    by (rule dm.run_inv [OF demux_start_inv assms(1)])
  moreover have "j \<notin> set (dx_acked (foldl demux_step demux_start es))"
    using acked_run [OF assms(1)] assms(2) by (auto simp: demux_start_def)
  ultimately show ?thesis by (auto simp: demux_inv_def)
qed

lemma fresh_channel:
  "c \<notin> set (registered_channels es) \<Longrightarrow>
   absent c (foldl demux_step demux_start es) \<and> sent_to c (foldl demux_step demux_start es) = []"
  using absent_run [of c demux_start es] by (auto simp: absent_def demux_start_def sent_to_def)

subsection \<open>Properties\<close>

text \<open>A run in which every command has a job id drawn from the counter and a channel of its own.\<close>

definition demux_run_ok :: "u64 \<Rightarrow> nat \<Rightarrow> 'c demux_event list \<Rightarrow> bool" where
  "demux_run_ok counter n es \<longleftrightarrow> enabled_run demux_enabled demux_step demux_start es \<and>
     n \<le> 2 ^ 64 \<and> mset (registered_jobs es) \<subseteq># mset (next_ids n counter) \<and>
     distinct (registered_channels es)"

lemma demux_run_ok_distinct: "demux_run_ok counter n es \<Longrightarrow> distinct (registered_jobs es)"
  using distinct_submset next_ids_distinct by (auto simp: demux_run_ok_def)

lemma demux_routing:
  assumes ok: "demux_run_ok counter n (pre @ e # post)"
    and e: "e = DxCommand (Some (Listen j c)) \<or> e = DxCommand (Some (ListenOnce j c))"
    and open_until_end: "list_all (\<lambda>e. \<not> collects c e) post"
  shows "sent_to c (foldl demux_step demux_start (pre @ e # post)) =
    (if e = DxCommand (Some (Listen j c)) then job_messages j post else take 1 (job_messages j post))"
proof -
  let ?s = "foldl demux_step demux_start pre"
  have dist: "distinct (registered_jobs (pre @ e # post))" using ok by (rule demux_run_ok_distinct)
  have chans: "distinct (registered_channels (pre @ e # post))" using ok by (simp add: demux_run_ok_def)
  have "j \<notin> set (registered_jobs pre)" and "c \<notin> set (registered_channels pre)"
    using dist chans e by (auto simp: registered_jobs_def registered_channels_def)
  moreover have run: "enabled_run demux_enabled demux_step demux_start pre"
    using ok by (simp add: demux_run_ok_def enabled_run_append)
  ultimately have s: "dx_waiting ?s j = None" "dx_waiting_once ?s j = None" "absent c ?s" "sent_to c ?s = []"
    using fresh_job [OF run] fresh_channel [of c pre] by auto
  have "undisturbed j c x" if "x \<in> set post" for x
    using that dist chans e open_until_end
    by (auto simp: undisturbed_def registered_jobs_def registered_channels_def list_all_iff)
  then have post: "list_all (undisturbed j c) post" by (simp add: list_all_iff)
  show ?thesis
  proof (cases "e = DxCommand (Some (Listen j c))")
    case True
    with s have "hears j c (demux_step ?s e)" "sent_to c (demux_step ?s e) = []"
      by (auto simp: hears_def absent_def sent_to_def Let_def)
    with hears_run [OF _ post] True show ?thesis by auto
  next
    case False
    with e s have "hears_once j c (demux_step ?s e)" "sent_to c (demux_step ?s e) = []"
      by (auto simp: hears_once_def absent_def sent_to_def Let_def)
    with hears_once_run [OF _ post] False show ?thesis by auto
  qed
qed

text \<open>C6: in every run of the demultiplexer whose job ids come from the counter (fewer than 2^64
  of them), no two listeners clash, and a listener is sent exactly the worker's messages of its
  own job, in order, from its registration on; a one-shot listener is sent only the first.\<close>

theorem demultiplexer_routes:
  assumes "demux_run_ok counter n (pre @ e # post)"
    and "e = DxCommand (Some (Listen j c)) \<or> e = DxCommand (Some (ListenOnce j c))"
    and "list_all (\<lambda>e. \<not> collects c e) post"
  shows "sent_to c (foldl demux_step demux_start (pre @ e # post)) =
      (if e = DxCommand (Some (Listen j c)) then job_messages j post else take 1 (job_messages j post))
    \<and> (\<forall>k. dx_result (foldl demux_step demux_start (pre @ e # post)) \<noteq>
         Some (Err (DuplicateDemultiplexerClient k)))"
proof
  have "demux_inv demux_start" "no_duplicate demux_start"
    "distinct (dx_acked demux_start @ registered_jobs (pre @ e # post))"
    using demux_run_ok_distinct [OF assms(1)] demux_start_inv
    by (simp_all only: no_duplicate_def) (simp_all add: demux_start_def)
  with no_duplicate_run [of demux_start "pre @ e # post"] assms(1)
  show "\<forall>k. dx_result (foldl demux_step demux_start (pre @ e # post)) \<noteq>
         Some (Err (DuplicateDemultiplexerClient k))"
    by (simp add: demux_run_ok_def no_duplicate_def)
qed (rule demux_routing [OF assms])

text \<open>Two jobs, one listener of each kind, and the worker's messages interleaved.\<close>

definition sample_events :: "nat demux_event list" where
  "sample_events =
     [DxFromWorker (Some (Multiplexed 1 (WmStdoutPacket ''b''))),
      DxCommand (Some (Listen 1 20)),
      DxFromWorker (Some (Multiplexed 0 (WmWriteFile WriteFileResponse))),
      DxGc (\<lambda>_. False),
      DxFromWorker (Some (Multiplexed 1 (WmStdoutPacket ''a'')))]"

theorem demultiplexer_routes_witness:
  "sent_to 10 (foldl demux_step demux_start ([] @ DxCommand (Some (ListenOnce 0 10)) # sample_events)) =
     [WmWriteFile WriteFileResponse]"
proof -
  have ids: "next_ids 2 0 = [0, 1]" by code_simp
  have "demux_run_ok 0 2 ([] @ DxCommand (Some (ListenOnce 0 10)) # sample_events)"
    by (simp add: demux_run_ok_def demux_enabled_def sample_events_def demux_start_def registered_jobs_def
        registered_channels_def ids)
  from demultiplexer_routes [OF this, of 0 10] show ?thesis
    by (simp add: sample_events_def job_messages_def)
qed

text \<open>A request to the worker behaves like a call: when the channels are open, \<open>one\<close> sends
  the request once under its job id and returns what the handler returned, an error as the chain
  of its messages; and it returns a value only if the worker sent exactly that response.\<close>

theorem one_is_a_call:
  "one CmReadFile narrow_read_file job q (all_open (reply WmReadFile texts r)) =
     ([Multiplexed job (CmReadFile q)], map_err (\<lambda>e. WorkerOperationFailed (serialized_error2_new (texts e))) r) \<and>
   one CmWriteFile narrow_write_file job qw (all_open (reply WmWriteFile texts rw)) =
     ([Multiplexed job (CmWriteFile qw)], map_err (\<lambda>e. WorkerOperationFailed (serialized_error2_new (texts e))) rw) \<and>
   one CmDeleteFile narrow_delete_file job qd (all_open (reply WmDeleteFile texts rd)) =
     ([Multiplexed job (CmDeleteFile qd)], map_err (\<lambda>e. WorkerOperationFailed (serialized_error2_new (texts e))) rd) \<and>
   (snd (one CmReadFile narrow_read_file job q a) = Ok x \<longleftrightarrow>
     channels_open a \<and> ra_message a = Some (WmReadFile x))"
  by (intro conjI read_file_1to1.one_reply write_file_1to1.one_reply delete_file_1to1.one_reply
      read_file_1to1.one_Ok_iff)

end
