(* ===== verification/Cargo_Task.thy ===== *)
theory Cargo_Task
  imports Commander
begin

text \<open>
  The task \<open>spawn_cargo_task\<close> of \<open>orchestrator/src/coordinator.rs\<close> that relays between a caller
  and one running cargo process: a \<open>select!\<close> loop on the cancellation token, the caller's stdin
  and the worker's messages of the job. An event says whether the worker's channel took the
  message it causes.
\<close>

datatype spawn_cargo_error =
    CouldNotStartCargo commander_error
  | SpawnWorker serialized_error2
  | UnexpectedMessage string
  | UnexpectedEndOfMessages
  | SpawnStdin multiplexed_sender_error
  | SpawnKill multiplexed_sender_error
  | AcquirePermit string

datatype cargo_event =
    CtCancelled bool
  | CtStdin "string option" bool
  | CtFromWorker worker_message
  | CtElse

record cargo_task =
  ct_cancelled :: bool
  ct_stdin_open :: bool
  ct_to_worker :: "coordinator_message list"
  ct_stdout :: "string list"
  ct_stderr :: "string list"
  ct_status :: "command_statistics list"
  ct_result :: "(spawn_cargo_error, execute_command_response) result option"

definition cargo_start :: cargo_task where
  "cargo_start = \<lparr>ct_cancelled = False, ct_stdin_open = True, ct_to_worker = [], ct_stdout = [],
     ct_stderr = [], ct_status = [], ct_result = None\<rparr>"

text \<open>
  The branches of the \<open>select!\<close>. One is disabled when its \<open>if\<close> is false or its pattern does not
  match what its future returned; a future that is pending disables nothing. The token's future
  is fused and has the pattern \<open>()\<close>, so it is pending or matches. \<open>else\<close> needs all disabled.
\<close>

datatype cargo_branch = BrCancelled | BrStdin | BrFromWorker

fun branch_disabled :: "cargo_task \<Rightarrow> bool \<Rightarrow> cargo_branch \<Rightarrow> bool" where
  "branch_disabled s worker_gone BrCancelled = False"
| "branch_disabled s worker_gone BrStdin = (\<not> ct_stdin_open s)"
| "branch_disabled s worker_gone BrFromWorker = worker_gone"

definition else_enabled :: "cargo_task \<Rightarrow> bool \<Rightarrow> bool" where
  "else_enabled s worker_gone = list_all (branch_disabled s worker_gone) [BrCancelled, BrStdin, BrFromWorker]"

fun cargo_enabled :: "bool \<Rightarrow> cargo_task \<Rightarrow> cargo_event \<Rightarrow> bool" where
  "cargo_enabled worker_gone s (CtCancelled _) = (ct_result s = None \<and> \<not> ct_cancelled s)"
| "cargo_enabled worker_gone s (CtStdin _ _) = (ct_result s = None \<and> ct_stdin_open s)"
| "cargo_enabled worker_gone s (CtFromWorker _) = (ct_result s = None)"
| "cargo_enabled worker_gone s CtElse = (ct_result s = None \<and> else_enabled s worker_gone)"

definition relay ::
    "bool \<Rightarrow> (multiplexed_sender_error \<Rightarrow> spawn_cargo_error) \<Rightarrow> coordinator_message \<Rightarrow> cargo_task \<Rightarrow> cargo_task" where
  "relay sent err msg s =
     (if sent then s\<lparr>ct_to_worker := ct_to_worker s @ [msg]\<rparr>
      else s\<lparr>ct_result := Some (Err (err (MultiplexedSenderError ())))\<rparr>)"

fun cargo_step :: "cargo_task \<Rightarrow> cargo_event \<Rightarrow> cargo_task" where
  "cargo_step s (CtCancelled sent) = relay sent SpawnKill CmKill (s\<lparr>ct_cancelled := True\<rparr>)"
| "cargo_step s (CtStdin (Some stdin) sent) = relay sent SpawnStdin (CmStdinPacket stdin) s"
| "cargo_step s (CtStdin None sent) = relay sent SpawnStdin CmStdinClose (s\<lparr>ct_stdin_open := False\<rparr>)"
| "cargo_step s (CtFromWorker (WmExecuteCommand resp)) = s\<lparr>ct_result := Some (Ok resp)\<rparr>"
| "cargo_step s (CtFromWorker (WmStdoutPacket packet)) = s\<lparr>ct_stdout := ct_stdout s @ [packet]\<rparr>"
| "cargo_step s (CtFromWorker (WmStderrPacket packet)) = s\<lparr>ct_stderr := ct_stderr s @ [packet]\<rparr>"
| "cargo_step s (CtFromWorker (WmCommandStatistics stats)) = s\<lparr>ct_status := ct_status s @ [stats]\<rparr>"
| "cargo_step s (CtFromWorker (WmError e)) = s\<lparr>ct_result := Some (Err (SpawnWorker (serialized_error2_adapt e)))\<rparr>"
| "cargo_step s (CtFromWorker (WmError2 e)) = s\<lparr>ct_result := Some (Err (SpawnWorker e))\<rparr>"
| "cargo_step s (CtFromWorker m) = s\<lparr>ct_result := Some (Err (UnexpectedMessage (worker_message_as_ref m)))\<rparr>"
| "cargo_step s CtElse = s\<lparr>ct_result := Some (Err UnexpectedEndOfMessages)\<rparr>"

subsection \<open>What is sent to the worker\<close>

text \<open>The inputs of the caller in a run, up to its closing.\<close>

fun stdin_of :: "cargo_event \<Rightarrow> string list" where
  "stdin_of (CtStdin (Some s) True) = [s]"
| "stdin_of _ = []"

fun packet_text :: "coordinator_message \<Rightarrow> string list" where
  "packet_text (CmStdinPacket s) = [s]"
| "packet_text _ = []"

definition stdin_inputs :: "cargo_event list \<Rightarrow> string list" where
  "stdin_inputs es = concat (map stdin_of es)"

definition stdin_sent :: "coordinator_message list \<Rightarrow> string list" where
  "stdin_sent ms = concat (map packet_text ms)"

text \<open>
  The protocol with the worker: only stdin packets, one close and one kill are sent, nothing is
  sent to stdin after its close, and the flags say which of them were sent.
\<close>

definition cargo_inv :: "cargo_task \<Rightarrow> bool" where
  "cargo_inv s \<longleftrightarrow>
     count_list (ct_to_worker s) CmKill \<le> (if ct_cancelled s then 1 else 0) \<and>
     (ct_result s = None \<and> ct_cancelled s \<longrightarrow> CmKill \<in> set (ct_to_worker s)) \<and>
     (CmStdinClose \<in> set (ct_to_worker s) \<longrightarrow> \<not> ct_stdin_open s) \<and>
     sorted_wrt (\<lambda>a b. a = CmStdinClose \<longrightarrow> b = CmKill) (ct_to_worker s) \<and>
     list_all (\<lambda>m. m = CmKill \<or> m = CmStdinClose \<or> packet_text m \<noteq> []) (ct_to_worker s) \<and>
     ct_result s \<noteq> Some (Err UnexpectedEndOfMessages)"

lemma sorted_wrt_snoc: "sorted_wrt R (xs @ [x]) \<longleftrightarrow> sorted_wrt R xs \<and> (\<forall>y \<in> set xs. R y x)"
  by (auto simp: sorted_wrt_append)

lemma cargo_step_inv: "cargo_inv s \<Longrightarrow> cargo_enabled worker_gone s e \<Longrightarrow> cargo_inv (cargo_step s e)"
  by (cases "(s, e)" rule: cargo_step.cases)
     (auto simp: cargo_inv_def relay_def sorted_wrt_snoc else_enabled_def split: if_splits)

text \<open>Each event sends at most one message and publishes at most one packet.\<close>

definition relayed :: "cargo_task \<Rightarrow> nat" where
  "relayed s = length (ct_to_worker s) + length (ct_stdout s) + length (ct_stderr s) + length (ct_status s)"

lemma cargo_step_relayed: "relayed s \<le> relayed (cargo_step s e)"
  by (cases "(s, e)" rule: cargo_step.cases) (auto simp: relayed_def relay_def)

interpretation ct: monotone_loop "cargo_enabled worker_gone" cargo_step cargo_inv relayed
  for worker_gone
  by unfold_locales (simp_all add: cargo_step_inv cargo_step_relayed)

lemma cargo_start_inv: "cargo_inv cargo_start"
  by (simp add: cargo_inv_def cargo_start_def)

subsection \<open>What the caller receives\<close>

fun stdout_of :: "worker_message \<Rightarrow> string list" where
  "stdout_of (WmStdoutPacket p) = [p]"
| "stdout_of _ = []"

fun stderr_of :: "worker_message \<Rightarrow> string list" where
  "stderr_of (WmStderrPacket p) = [p]"
| "stderr_of _ = []"

fun status_of :: "worker_message \<Rightarrow> command_statistics list" where
  "status_of (WmCommandStatistics p) = [p]"
| "status_of _ = []"

fun worker_event :: "cargo_event \<Rightarrow> worker_message list" where
  "worker_event (CtFromWorker m) = [m]"
| "worker_event _ = []"

definition worker_events :: "cargo_event list \<Rightarrow> worker_message list" where
  "worker_events es = concat (map worker_event es)"

text \<open>How a message of the worker ends the task.\<close>

fun final_result :: "worker_message \<Rightarrow> (spawn_cargo_error, execute_command_response) result option" where
  "final_result (WmExecuteCommand r) = Some (Ok r)"
| "final_result (WmError e) = Some (Err (SpawnWorker (serialized_error2_adapt e)))"
| "final_result (WmError2 e) = Some (Err (SpawnWorker e))"
| "final_result (WmStdoutPacket _) = None"
| "final_result (WmStderrPacket _) = None"
| "final_result (WmCommandStatistics _) = None"
| "final_result m = Some (Err (UnexpectedMessage (worker_message_as_ref m)))"

lemma cargo_step_worker:
  "cargo_step s (CtFromWorker m) =
     s\<lparr>ct_stdout := ct_stdout s @ stdout_of m, ct_stderr := ct_stderr s @ stderr_of m,
       ct_status := ct_status s @ status_of m,
       ct_result := (case final_result m of None \<Rightarrow> ct_result s | Some r \<Rightarrow> Some r)\<rparr>"
  by (cases m) simp_all

lemma cargo_step_streams:
  "ct_stdout (cargo_step s e) = ct_stdout s @ concat (map stdout_of (worker_event e))"
  "ct_stderr (cargo_step s e) = ct_stderr s @ concat (map stderr_of (worker_event e))"
  "ct_status (cargo_step s e) = ct_status s @ concat (map status_of (worker_event e))"
  "stdin_sent (ct_to_worker (cargo_step s e)) = stdin_sent (ct_to_worker s) @ stdin_of e"
  by (cases "(s, e)" rule: cargo_step.cases; simp add: relay_def stdin_sent_def)+

lemma cargo_run_streams:
  "ct_stdout (foldl cargo_step s es) = ct_stdout s @ concat (map stdout_of (worker_events es))"
  "ct_stderr (foldl cargo_step s es) = ct_stderr s @ concat (map stderr_of (worker_events es))"
  "ct_status (foldl cargo_step s es) = ct_status s @ concat (map status_of (worker_events es))"
  "stdin_sent (ct_to_worker (foldl cargo_step s es)) = stdin_sent (ct_to_worker s) @ stdin_inputs es"
  by (induction es arbitrary: s; simp add: worker_events_def stdin_inputs_def cargo_step_streams)+

lemma cargo_run_result:
  assumes "enabled_run (cargo_enabled worker_gone) cargo_step cargo_start es"
    and "ct_result (foldl cargo_step cargo_start es) = Some (Ok r)"
  shows "\<exists>es'. es = es' @ [CtFromWorker (WmExecuteCommand r)]"
proof (cases es rule: rev_cases)
  case Nil
  with assms(2) show ?thesis by (simp add: cargo_start_def)
next
  case (snoc es' e)
  let ?s = "foldl cargo_step cargo_start es'"
  have "cargo_enabled worker_gone ?s e" using assms(1) snoc by (simp add: enabled_run_append)
  then have "ct_result ?s = None" by (cases e) auto
  moreover have "ct_result (cargo_step ?s e) = Some (Ok r)" using assms(2) snoc by simp
  ultimately have "e = CtFromWorker (WmExecuteCommand r)"
    by (cases "(?s, e)" rule: cargo_step.cases) (auto simp: relay_def split: if_splits)
  with snoc show ?thesis by blast
qed

subsection \<open>Properties\<close>

text \<open>C8: whatever the interleaving of cancellation, stdin and worker messages, the task sends the
  worker at most one kill, at most one stdin close and no input after it; the inputs it sent are
  the caller's in order; a token that fired was passed on as a kill; and the error for a worker
  that went away is never returned, because the branch of the token is never disabled.\<close>

theorem cargo_task_protocol:
  assumes "enabled_run (cargo_enabled worker_gone) cargo_step cargo_start es"
  defines "s \<equiv> foldl cargo_step cargo_start es"
  shows "count_list (ct_to_worker s) CmKill \<le> 1 \<and> count_list (ct_to_worker s) CmStdinClose \<le> 1 \<and>
    (\<forall>before after. ct_to_worker s = before @ CmStdinClose # after \<longrightarrow> set after \<subseteq> {CmKill}) \<and>
    stdin_sent (ct_to_worker s) = stdin_inputs es \<and>
    (ct_result s = None \<and> ct_cancelled s \<longrightarrow> CmKill \<in> set (ct_to_worker s)) \<and>
    ct_result s \<noteq> Some (Err UnexpectedEndOfMessages)"
proof -
  have inv: "cargo_inv s" unfolding s_def by (rule ct.run_inv [OF cargo_start_inv assms(1)])
  have sorted: "sorted_wrt (\<lambda>a b. a = CmStdinClose \<longrightarrow> b = CmKill) (ct_to_worker s)"
    using inv by (simp add: cargo_inv_def)
  have after: "set after \<subseteq> {CmKill}" if "ct_to_worker s = before @ CmStdinClose # after" for before after
    using sorted unfolding that by (auto simp: sorted_wrt_append)
  have "count_list (ct_to_worker s) CmStdinClose \<le> 1"
  proof (cases "CmStdinClose \<in> set (ct_to_worker s)")
    case True
    then obtain before rest where split: "ct_to_worker s = before @ CmStdinClose # rest"
      "CmStdinClose \<notin> set before" by (auto dest: split_list_first)
    from after [OF split(1)] have "CmStdinClose \<notin> set rest" by auto
    with split show ?thesis by simp
  qed simp
  moreover have "stdin_sent (ct_to_worker s) = stdin_inputs es"
    unfolding s_def by (simp add: cargo_run_streams(4)) (simp add: cargo_start_def stdin_sent_def)
  ultimately show ?thesis using inv after by (auto simp: cargo_inv_def split: if_splits)
qed

definition sample_run :: "cargo_event list" where
  "sample_run = [CtStdin (Some ''1'') True, CtFromWorker (WmStdoutPacket ''a''), CtStdin None True,
     CtCancelled True, CtFromWorker (WmStderrPacket ''b''),
     CtFromWorker (WmExecuteCommand \<lparr>ecr_success = False, ecr_exit_detail = ''SIGKILL''\<rparr>)]"

lemma sample_run_enabled: "enabled_run (cargo_enabled False) cargo_step cargo_start sample_run"
  by (simp add: sample_run_def cargo_start_def relay_def)

theorem cargo_task_protocol_witness:
  "stdin_sent (ct_to_worker (foldl cargo_step cargo_start sample_run)) = [''1''] \<and>
   count_list (ct_to_worker (foldl cargo_step cargo_start sample_run)) CmKill \<le> 1"
  using cargo_task_protocol [OF sample_run_enabled] by (simp add: sample_run_def stdin_inputs_def)

text \<open>The caller receives, stream by stream and in order, exactly the packets the worker sent
  before the task ended; and the task succeeds only with the response of the worker that the
  command ended, as its last event.\<close>

theorem cargo_task_delivers:
  assumes "enabled_run (cargo_enabled worker_gone) cargo_step cargo_start es"
  defines "s \<equiv> foldl cargo_step cargo_start es"
  shows "ct_stdout s = concat (map stdout_of (worker_events es)) \<and>
    ct_stderr s = concat (map stderr_of (worker_events es)) \<and>
    ct_status s = concat (map status_of (worker_events es)) \<and>
    (\<forall>r. ct_result s = Some (Ok r) \<longrightarrow> last (worker_events es) = WmExecuteCommand r)"
proof -
  have "last (worker_events es) = WmExecuteCommand r" if r: "ct_result s = Some (Ok r)" for r
  proof -
    obtain es' where "es = es' @ [CtFromWorker (WmExecuteCommand r)]"
      using cargo_run_result [OF assms(1)] r unfolding s_def by blast
    then show ?thesis by (simp add: worker_events_def)
  qed
  then show ?thesis
    unfolding s_def by (auto simp: cargo_run_streams) (simp_all add: cargo_start_def)
qed

theorem cargo_task_delivers_witness:
  "ct_stdout (foldl cargo_step cargo_start sample_run) = [''a''] \<and>
   ct_stderr (foldl cargo_step cargo_start sample_run) = [''b'']"
  using cargo_task_delivers [OF sample_run_enabled] by (simp add: sample_run_def worker_events_def)

end
