(* ===== verification/Do_Request.thy ===== *)
theory Do_Request
  imports Cargo_Task Requests Utf8_Std
begin

text \<open>
  \<open>do_request\<close> of \<open>orchestrator/src/coordinator.rs\<close> and what the six kinds of request make of the
  cargo process it starts: the concurrent file operations with the worker's answers, the edit of
  \<open>Cargo.toml\<close>, and the results of the tasks. Operations complete in the order of a list; each
  has an environment that says what the operating system and the channels answer. The errors'
  texts (\<open>write_texts\<close>, \<open>delete_texts\<close>), the TOML and JSON parsers and printers are parameters.
\<close>

subsection \<open>\<open>ModifyCargoToml\<close>\<close>

datatype modify_cargo_toml_error =
    CouldNotRead commander_error
  | TomlInvalidUtf8 nat
  | CouldNotDeserialize string
  | CouldNotSerialize string
  | CouldNotWrite commander_error

definition manifest_read ::
    "(string \<Rightarrow> (string, toml_value) result) \<Rightarrow> job_id \<Rightarrow> request_answers \<Rightarrow>
     (modify_cargo_toml_error, toml_value) result" where
  "manifest_read from_str job a =
     res_bind (map_err CouldNotRead (snd (one CmReadFile narrow_read_file job \<lparr>rf_path = cargo_toml_path\<rparr> a)))
       (\<lambda>file. res_bind (map_err TomlInvalidUtf8 (from_utf8 (rfr_content file)))
       (\<lambda>text. map_err CouldNotDeserialize (from_str text)))"

definition manifest_write ::
    "(toml_value \<Rightarrow> (string, string) result) \<Rightarrow> job_id \<Rightarrow> toml_value \<Rightarrow> request_answers \<Rightarrow>
     (modify_cargo_toml_error, unit) result" where
  "manifest_write to_string job cargo_toml a =
     res_bind (map_err CouldNotSerialize (to_string cargo_toml))
       (\<lambda>content. map_ok (\<lambda>_. ()) (map_err CouldNotWrite
          (snd (one CmWriteFile narrow_write_file job
             \<lparr>wf_path = cargo_toml_path, wf_content = content\<rparr> a))))"

text \<open>\<open>modify_for\<close>; \<open>None\<close> is the panic of an edit.\<close>

definition modify_for ::
    "(toml_value \<Rightarrow> (string, string) result) \<Rightarrow> (toml_value \<Rightarrow> (toml_error, toml_value) result) \<Rightarrow>
     toml_value \<Rightarrow> job_id \<Rightarrow> request_answers \<Rightarrow> (modify_cargo_toml_error, unit) result option" where
  "modify_for to_string modify_toml cargo_toml job a =
     (case modify_toml cargo_toml of
        Err _ \<Rightarrow> None
      | Ok cargo_toml \<Rightarrow> Some (manifest_write to_string job cargo_toml a))"

lemma modify_for_no_panic:
  assumes "lower_request deletes writes modify_toml" and "manifest_ok v"
  shows "modify_for to_string (modify_toml r) v job a \<noteq> None"
proof -
  obtain v' where "modify_toml r v = Ok v'"
    using lower_request.modify_ok [OF assms] by blast
  then show ?thesis by (simp add: modify_for_def)
qed

subsection \<open>\<open>do_request\<close>\<close>

datatype do_request_error =
    CouldNotModifyCargoToml modify_cargo_toml_error
  | CouldNotDeletePreviousCode commander_error
  | CouldNotWriteCode commander_error
  | DrCouldNotStartCargo spawn_cargo_error

text \<open>
  What the worker and the channels answer to one operation: the job, what the operating system
  answers to the handler, and whether the channels of the request are open.
\<close>

record op_env =
  oe_job :: job_id
  oe_mkdir :: io_answer
  oe_write :: write_answer
  oe_remove :: io_answer
  oe_demux_open :: bool
  oe_acked :: bool
  oe_worker_open :: bool
  oe_reply_arrives :: bool

definition answers_of :: "op_env \<Rightarrow> worker_message \<Rightarrow> request_answers" where
  "answers_of env m = \<lparr>ra_demux_open = oe_demux_open env, ra_acked = oe_acked env,
     ra_worker_open = oe_worker_open env, ra_message = (if oe_reply_arrives env then Some m else None)\<rparr>"

definition reaches_worker :: "op_env \<Rightarrow> bool" where
  "reaches_worker env = (oe_demux_open env \<and> oe_acked env \<and> oe_worker_open env)"

datatype request_op =
    RoDelete delete_file_request
  | RoWrite write_file_request
  | RoManifest bytes

fun request_file_op :: "request_op \<Rightarrow> file_op" where
  "request_file_op (RoDelete r) = FileDelete r"
| "request_file_op (RoWrite r) = FileWrite r"
| "request_file_op (RoManifest m) = FileWrite \<lparr>wf_path = cargo_toml_path, wf_content = m\<rparr>"

text \<open>One operation: the worker handles the request when it arrives; \<open>one\<close> returns the result.\<close>

fun complete_op ::
    "(write_file_error \<Rightarrow> string list) \<Rightarrow> (delete_file_error \<Rightarrow> string list) \<Rightarrow> path \<Rightarrow>
     file_system \<Rightarrow> request_op \<times> op_env \<Rightarrow> (do_request_error, unit) result \<times> file_system" where
  "complete_op write_texts delete_texts dir fs (RoDelete r, env) =
     (let (answer, fs') = handle_delete_file (oe_remove env) r dir fs;
          result = snd (one CmDeleteFile narrow_delete_file (oe_job env) r
                     (answers_of env (reply WmDeleteFile delete_texts answer)))
      in (map_ok (\<lambda>_. ()) (map_err CouldNotDeletePreviousCode result),
          if reaches_worker env then fs' else fs))"
| "complete_op write_texts delete_texts dir fs (RoWrite r, env) =
     (let (answer, fs') = handle_write_file (oe_mkdir env) (oe_write env) r dir fs;
          result = snd (one CmWriteFile narrow_write_file (oe_job env) r
                     (answers_of env (reply WmWriteFile write_texts answer)))
      in (map_ok (\<lambda>_. ()) (map_err CouldNotWriteCode result),
          if reaches_worker env then fs' else fs))"
| "complete_op write_texts delete_texts dir fs (RoManifest m, env) =
     (let r = \<lparr>wf_path = cargo_toml_path, wf_content = m\<rparr>;
          (answer, fs') = handle_write_file (oe_mkdir env) (oe_write env) r dir fs;
          result = snd (one CmWriteFile narrow_write_file (oe_job env) r
                     (answers_of env (reply WmWriteFile write_texts answer)))
      in (map_ok (\<lambda>_. ()) (map_err CouldNotModifyCargoToml (map_err CouldNotWrite result)),
          if reaches_worker env then fs' else fs))"

text \<open>
  \<open>try_join!\<close> of the three collections: the operations complete one after the other, and the
  first error is the result at once; operations that were sent before go on at the worker.
\<close>

fun complete_ops ::
    "(write_file_error \<Rightarrow> string list) \<Rightarrow> (delete_file_error \<Rightarrow> string list) \<Rightarrow> path \<Rightarrow>
     file_system \<Rightarrow> (request_op \<times> op_env) list \<Rightarrow> (do_request_error, unit) result \<times> file_system" where
  "complete_ops write_texts delete_texts dir fs [] = (Ok (), fs)"
| "complete_ops write_texts delete_texts dir fs (op # ops) =
     (case complete_op write_texts delete_texts dir fs op of
        (Err e, fs') \<Rightarrow> (Err e, fs')
      | (Ok _, fs') \<Rightarrow> complete_ops write_texts delete_texts dir fs' ops)"

text \<open>Then cargo is started; \<open>spawn\<close> is what \<open>spawn_cargo_task\<close> returns on the file system.\<close>

definition do_request ::
    "(write_file_error \<Rightarrow> string list) \<Rightarrow> (delete_file_error \<Rightarrow> string list) \<Rightarrow> path \<Rightarrow>
     file_system \<Rightarrow> (request_op \<times> op_env) list \<Rightarrow> (file_system \<Rightarrow> (spawn_cargo_error, 'c) result) \<Rightarrow>
     (do_request_error, 'c) result" where
  "do_request write_texts delete_texts dir fs ops spawn =
     (case complete_ops write_texts delete_texts dir fs ops of
        (Err e, _) \<Rightarrow> Err e
      | (Ok _, fs') \<Rightarrow> map_err DrCouldNotStartCargo (spawn fs'))"

text \<open>The operating system says \<open>NotFound\<close> of missing files only.\<close>

definition env_ok :: "op_env \<Rightarrow> bool" where
  "env_ok env \<longleftrightarrow> oe_remove env \<noteq> Err IoNotFound"

text \<open>The operations of a request: its lowered files and the manifest, in some order.\<close>

definition request_ops :: "code \<Rightarrow> crate_type \<Rightarrow> bytes \<Rightarrow> request_op list" where
  "request_ops c ct m = map RoDelete (delete_requests c ct) @ map RoWrite (write_requests c ct) @ [RoManifest m]"

lemma request_file_ops:
  "map request_file_op (request_ops c ct m) = file_ops (delete_requests c ct) (write_requests c ct) m"
  by (simp add: request_ops_def file_ops_def comp_def)

lemma answers_of_open: "channels_open (answers_of env m) = reaches_worker env"
  by (simp add: channels_open_def answers_of_def reaches_worker_def)

lemma reply_response: "(\<And>e. respond x \<noteq> WmError2 e) \<Longrightarrow> (\<And>x y. respond x = respond y \<Longrightarrow> x = y) \<Longrightarrow>
    reply respond texts r = respond x \<longleftrightarrow> r = Ok x"
  by (cases r) (auto simp: reply_def dest: sym)

lemma complete_op_Ok:
  assumes "complete_op wt dt dir fs (op, env) = (Ok u, fs')" and "env_ok env"
  shows "fs' = run_file_op dir fs (request_file_op op)"
proof (cases op)
  case (RoDelete r)
  obtain answer fs1 where h: "handle_delete_file (oe_remove env) r dir fs = (answer, fs1)"
    by (cases "handle_delete_file (oe_remove env) r dir fs")
  from assms(1) obtain x where "snd (one CmDeleteFile narrow_delete_file (oe_job env) r
      (answers_of env (reply WmDeleteFile dt answer))) = Ok x" and fs': "fs' = (if reaches_worker env then fs1 else fs)"
    by (auto simp: RoDelete h map_ok_Ok_iff)
  then have "reaches_worker env" "answer = Ok x"
    by (auto simp: delete_file_1to1.one_Ok_iff answers_of_open)
       (auto simp: answers_of_def reply_def split: if_splits sum.splits)
  then show ?thesis
    using delete_file_Ok [of "oe_remove env" r dir fs x fs1] h fs' assms(2)
    by (simp add: RoDelete delete_file_succeeds env_ok_def)
next
  case (RoWrite r)
  obtain answer fs1 where h: "handle_write_file (oe_mkdir env) (oe_write env) r dir fs = (answer, fs1)"
    by (cases "handle_write_file (oe_mkdir env) (oe_write env) r dir fs")
  from assms(1) obtain x where "snd (one CmWriteFile narrow_write_file (oe_job env) r
      (answers_of env (reply WmWriteFile wt answer))) = Ok x" and fs': "fs' = (if reaches_worker env then fs1 else fs)"
    by (auto simp: RoWrite h map_ok_Ok_iff)
  then have "reaches_worker env" "answer = Ok x"
    by (auto simp: write_file_1to1.one_Ok_iff answers_of_open)
       (auto simp: answers_of_def reply_def split: if_splits sum.splits)
  then show ?thesis
    using write_file_Ok [of "oe_mkdir env" "oe_write env" r dir fs x fs1] h fs'
    by (simp add: RoWrite write_file_succeeds)
next
  case (RoManifest m)
  let ?r = "\<lparr>wf_path = cargo_toml_path, wf_content = m\<rparr>"
  obtain answer fs1 where h: "handle_write_file (oe_mkdir env) (oe_write env) ?r dir fs = (answer, fs1)"
    by (cases "handle_write_file (oe_mkdir env) (oe_write env) ?r dir fs")
  from assms(1) obtain x where "snd (one CmWriteFile narrow_write_file (oe_job env) ?r
      (answers_of env (reply WmWriteFile wt answer))) = Ok x" and fs': "fs' = (if reaches_worker env then fs1 else fs)"
    by (auto simp: RoManifest h map_ok_Ok_iff)
  then have "reaches_worker env" "answer = Ok x"
    by (auto simp: write_file_1to1.one_Ok_iff answers_of_open)
       (auto simp: answers_of_def reply_def split: if_splits sum.splits)
  then show ?thesis
    using write_file_Ok [of "oe_mkdir env" "oe_write env" ?r dir fs x fs1] h fs'
    by (simp add: RoManifest write_file_succeeds)
qed

lemma complete_ops_Ok:
  "complete_ops wt dt dir fs ops = (Ok u, fs') \<Longrightarrow> list_all (\<lambda>(_, env). env_ok env) ops \<Longrightarrow>
   fs' = foldl (run_file_op dir) fs (map (request_file_op \<circ> fst) ops)"
proof (induction ops arbitrary: fs)
  case (Cons x ops)
  obtain op env where x: "x = (op, env)" by (cases x)
  from Cons.prems(1) obtain fs1 v where
    "complete_op wt dt dir fs (op, env) = (Ok v, fs1)" "complete_ops wt dt dir fs1 ops = (Ok u, fs')"
    by (auto simp: x split: prod.splits sum.splits)
  with Cons.IH [of fs1] complete_op_Ok [of wt dt dir fs op env v fs1] Cons.prems(2) show ?case
    by (simp add: x)
qed simp


lemma do_request_prepared:
  assumes "mset (map fst ops) = mset (request_ops c ct m)" and "files_ok (write_requests c ct)"
    and "list_all (\<lambda>(_, env). env_ok env) ops"
    and "do_request wt dt dir fs ops spawn = Ok r"
  shows "\<exists>fs'. project_prepared dir (files c ct) m fs fs' \<and> spawn fs' = Ok r"
proof -
  from assms(4) obtain u fs' where ops_done: "complete_ops wt dt dir fs ops = (Ok u, fs')" and sp: "spawn fs' = Ok r"
    by (auto simp: do_request_def split: prod.splits sum.splits)
  have "fs' = foldl (run_file_op dir) fs (map (request_file_op \<circ> fst) ops)"
    by (rule complete_ops_Ok [OF ops_done assms(3)])
  moreover have "mset (map (request_file_op \<circ> fst) ops) =
      mset (file_ops (delete_requests c ct) (write_requests c ct) m)"
    using assms(1) by (metis request_file_ops mset_map map_map)
  ultimately have "project_prepared dir (files c ct) m fs fs'"
    using files_prepared [OF assms(2)] by simp
  with sp show ?thesis by blast
qed


definition good_env :: op_env where
  "good_env = \<lparr>oe_job = 0, oe_mkdir = Ok (), oe_write = Written, oe_remove = Ok (), oe_demux_open = True,
     oe_acked = True, oe_worker_open = True, oe_reply_arrives = True\<rparr>"


end
