(* ===== verification/Request_Tasks.thy ===== *)
theory Request_Tasks
  imports Do_Request
begin

text \<open>
  What the coordinator makes of a finished cargo process, in \<open>orchestrator/src/coordinator.rs\<close>:
  the tasks of the six requests, the absorption of their output streams (\<open>WithOutput\<close>), the
  versions of the tools and the list of crates. The result of a task is an argument: a panic or
  cancellation of the task, the error of \<open>spawn_cargo_task\<close>, or the worker's response.
\<close>

datatype terminate_container_error = TerminateContainerError string io_error

datatype coordinator_error =
    CeSpawnWorker io_error
  | CeJoinWorker io_error
  | CeDemultiplexerTaskPanicked join_error
  | CeDemultiplexerTaskFailed commander_error
  | CeIoQueuePanicked join_error
  | CeKillWorker terminate_container_error
  | CeContainerTaskPanicked join_error
  | CeWorkerStdinCapture
  | CeWorkerStdoutCapture
  | CeWorkerStdinFlush io_error
  | CeWorkerMessageDeserialization string
  | CeCoordinatorMessageSerialization string
  | CeUnableToSendWorkerMessage send_error
  | CeCouldNotLoadCargoToml modify_cargo_toml_error
  | CeAcquirePermit string

subsection \<open>Errors and responses\<close>

datatype execute_error =
    ExCouldNotStartContainer coordinator_error
  | ExDoRequest do_request_error
  | ExCargoTaskPanicked join_error
  | ExCargoFailed spawn_cargo_error

datatype compile_error =
    CpCouldNotStartContainer coordinator_error
  | CpDoRequest do_request_error
  | CpCargoTaskPanicked join_error
  | CpCargoFailed spawn_cargo_error
  | CpCouldNotReadCode commander_error
  | CpCodeNotUtf8 nat

datatype format_error =
    FmCouldNotStartContainer coordinator_error
  | FmDoRequest do_request_error
  | FmCargoTaskPanicked join_error
  | FmCargoFailed spawn_cargo_error
  | FmCouldNotReadCode commander_error
  | FmCodeNotUtf8 nat

datatype clippy_error =
    ClCouldNotStartContainer coordinator_error
  | ClDoRequest do_request_error
  | ClCargoTaskPanicked join_error
  | ClCargoFailed spawn_cargo_error

datatype miri_error =
    MiCouldNotStartContainer coordinator_error
  | MiDoRequest do_request_error
  | MiCargoTaskPanicked join_error
  | MiCargoFailed spawn_cargo_error

datatype macro_expansion_error =
    MaCouldNotStartContainer coordinator_error
  | MaDoRequest do_request_error
  | MaCargoTaskPanicked join_error
  | MaCargoFailed spawn_cargo_error

record execute_response =
  exr_success :: bool
  exr_exit_detail :: string

record execute_status =
  exs_resident_set_size_bytes :: u64
  exs_total_time_secs :: f64

record compile_response =
  cpr_success :: bool
  cpr_exit_detail :: string
  cpr_code :: string

record format_response =
  fmr_success :: bool
  fmr_exit_detail :: string
  fmr_code :: code

record clippy_response =
  clr_success :: bool
  clr_exit_detail :: string

record miri_response =
  mir_success :: bool
  mir_exit_detail :: string

record macro_expansion_response =
  mar_success :: bool
  mar_exit_detail :: string

definition execute_status_of :: "command_statistics \<Rightarrow> execute_status" where
  "execute_status_of s =
     \<lparr>exs_resident_set_size_bytes = cs_resident_set_size_bytes s,
      exs_total_time_secs = cs_total_time_secs s\<rparr>"

subsection \<open>The tasks\<close>

type_synonym cargo_result = "(join_error, (spawn_cargo_error, execute_command_response) result) result"

text \<open>\<open>task.await.context(CargoTaskPanicked)?.context(CargoFailed)?\<close>\<close>

definition cargo_outcome ::
    "(join_error \<Rightarrow> 'e) \<Rightarrow> (spawn_cargo_error \<Rightarrow> 'e) \<Rightarrow> cargo_result \<Rightarrow> ('e, execute_command_response) result" where
  "cargo_outcome panicked failed task = res_bind (map_err panicked task) (map_err failed)"

definition execute_task :: "cargo_result \<Rightarrow> (execute_error, execute_response) result" where
  "execute_task task = res_bind (cargo_outcome ExCargoTaskPanicked ExCargoFailed task) (\<lambda>r.
     Ok \<lparr>exr_success = ecr_success r, exr_exit_detail = ecr_exit_detail r\<rparr>)"

definition compile_task ::
    "(string \<Rightarrow> string) \<Rightarrow> asm_patterns \<Rightarrow> ((string \<times> string) list \<Rightarrow> string \<Rightarrow> string list) \<Rightarrow>
     compile_request \<Rightarrow> job_id \<Rightarrow> request_answers \<Rightarrow> cargo_result \<Rightarrow> (compile_error, compile_response) result" where
  "compile_task rustc_demangle re dfs request job a task =
     res_bind (cargo_outcome CpCargoTaskPanicked CpCargoFailed task) (\<lambda>r.
     res_bind
       (if ecr_success r
        then res_bind (map_err CpCouldNotReadCode
                 (snd (one CmReadFile narrow_read_file job (read_output_request request) a)))
               (\<lambda>file. map_err CpCodeNotUtf8 (from_utf8 (rfr_content file)))
        else Ok []) (\<lambda>code.
     Ok \<lparr>cpr_success = ecr_success r, cpr_exit_detail = ecr_exit_detail r,
         cpr_code = postprocess_result rustc_demangle re dfs request code\<rparr>))"

text \<open>One file of a format request; the reads complete in the order of the list.\<close>

definition read_formatted ::
    "read_file_request \<times> job_id \<times> request_answers \<Rightarrow> (format_error, code_file) result" where
  "read_formatted x = (case x of (request, job, a) \<Rightarrow>
     res_bind (map_err FmCouldNotReadCode (snd (one CmReadFile narrow_read_file job request a)))
       (\<lambda>file. res_bind (map_err FmCodeNotUtf8 (from_utf8 (rfr_content file)))
       (\<lambda>content. Ok \<lparr>cf_name = rf_path request, cf_content = content\<rparr>)))"

definition format_task ::
    "format_request \<Rightarrow> (read_file_request \<times> job_id \<times> request_answers) list \<Rightarrow> cargo_result \<Rightarrow>
     (format_error, format_response) result" where
  "format_task request reads task =
     res_bind (cargo_outcome FmCargoTaskPanicked FmCargoFailed task) (\<lambda>r.
     res_bind (res_map read_formatted reads) (\<lambda>files.
     Ok \<lparr>fmr_success = ecr_success r, fmr_exit_detail = ecr_exit_detail r,
         fmr_code = (case fr_code request of
            Single _ \<Rightarrow> Single (if files = [] then [] else cf_content (last files))
          | Multiple _ \<Rightarrow> Multiple files)\<rparr>))"

definition clippy_task :: "cargo_result \<Rightarrow> (clippy_error, clippy_response) result" where
  "clippy_task task = res_bind (cargo_outcome ClCargoTaskPanicked ClCargoFailed task) (\<lambda>r.
     Ok \<lparr>clr_success = ecr_success r, clr_exit_detail = ecr_exit_detail r\<rparr>)"

definition miri_task :: "cargo_result \<Rightarrow> (miri_error, miri_response) result" where
  "miri_task task = res_bind (cargo_outcome MiCargoTaskPanicked MiCargoFailed task) (\<lambda>r.
     Ok \<lparr>mir_success = ecr_success r, mir_exit_detail = ecr_exit_detail r\<rparr>)"

definition macro_expansion_task ::
    "cargo_result \<Rightarrow> (macro_expansion_error, macro_expansion_response) result" where
  "macro_expansion_task task = res_bind (cargo_outcome MaCargoTaskPanicked MaCargoFailed task) (\<lambda>r.
     Ok \<lparr>mar_success = ecr_success r, mar_exit_detail = ecr_exit_detail r\<rparr>)"

subsection \<open>\<open>WithOutput\<close>\<close>

record 't with_output =
  wo_response :: 't
  wo_stdout :: string
  wo_stderr :: string

definition try_absorb_stream ::
    "('e, 't) result \<Rightarrow> string list \<Rightarrow> string list \<Rightarrow> ('e, 't with_output) result" where
  "try_absorb_stream task stdout_rx stderr_rx =
     map_ok (\<lambda>response. \<lparr>wo_response = response, wo_stdout = concat stdout_rx, wo_stderr = concat stderr_rx\<rparr>) task"

definition try_absorb ::
    "('e, 't) result \<Rightarrow> string list \<Rightarrow> string list \<Rightarrow> ('e, 't with_output) result" where
  "try_absorb task stdout_rx stderr_rx = try_absorb_stream task stdout_rx stderr_rx"

text \<open>
  A whole request on a container: \<open>do_request\<close>, then the task and its streams. The argument is what
  \<open>do_request\<close> returned: its error, or the cargo task's result with what was streamed.
\<close>

record cargo_run =
  cn_task :: cargo_result
  cn_stdout :: "string list"
  cn_stderr :: "string list"

definition container_execute ::
    "(do_request_error, cargo_run) result \<Rightarrow> (execute_error, execute_response with_output) result" where
  "container_execute started =
     res_bind (map_err ExDoRequest started) (\<lambda>c. try_absorb (execute_task (cn_task c)) (cn_stdout c) (cn_stderr c))"

definition container_compile ::
    "(string \<Rightarrow> string) \<Rightarrow> asm_patterns \<Rightarrow> ((string \<times> string) list \<Rightarrow> string \<Rightarrow> string list) \<Rightarrow>
     compile_request \<Rightarrow> job_id \<Rightarrow> request_answers \<Rightarrow>
     (do_request_error, cargo_run) result \<Rightarrow> (compile_error, compile_response with_output) result" where
  "container_compile rustc_demangle re dfs request job a started =
     res_bind (map_err CpDoRequest started) (\<lambda>c.
       try_absorb (compile_task rustc_demangle re dfs request job a (cn_task c)) (cn_stdout c) (cn_stderr c))"

definition container_format ::
    "format_request \<Rightarrow> (read_file_request \<times> job_id \<times> request_answers) list \<Rightarrow>
     (do_request_error, cargo_run) result \<Rightarrow> (format_error, format_response with_output) result" where
  "container_format request reads started =
     res_bind (map_err FmDoRequest started) (\<lambda>c.
       try_absorb (format_task request reads (cn_task c)) (cn_stdout c) (cn_stderr c))"

definition container_clippy ::
    "(do_request_error, cargo_run) result \<Rightarrow> (clippy_error, clippy_response with_output) result" where
  "container_clippy started =
     res_bind (map_err ClDoRequest started) (\<lambda>c. try_absorb (clippy_task (cn_task c)) (cn_stdout c) (cn_stderr c))"

definition container_miri ::
    "(do_request_error, cargo_run) result \<Rightarrow> (miri_error, miri_response with_output) result" where
  "container_miri started =
     res_bind (map_err MiDoRequest started) (\<lambda>c. try_absorb (miri_task (cn_task c)) (cn_stdout c) (cn_stderr c))"

definition container_macro_expansion ::
    "(do_request_error, cargo_run) result \<Rightarrow>
     (macro_expansion_error, macro_expansion_response with_output) result" where
  "container_macro_expansion started =
     res_bind (map_err MaDoRequest started) (\<lambda>c.
       try_absorb (macro_expansion_task (cn_task c)) (cn_stdout c) (cn_stderr c))"

subsection \<open>Versions and crates\<close>

datatype version_error = VeSpawnProcess spawn_cargo_error | VeTaskPanic join_error

datatype container_versions_error =
    CvRustc version_error
  | CvRustcMissing
  | CvRustfmt version_error
  | CvRustfmtMissing
  | CvClippy version_error
  | CvClippyMissing
  | CvMiri version_error

datatype versions_channel_error =
    VcChannel coordinator_error
  | VcVersions container_versions_error

datatype versions_error =
    VsStable versions_channel_error
  | VsBeta versions_channel_error
  | VsNightly versions_channel_error

text \<open>The output of the command, if it could be run and succeeded.\<close>

definition version_output ::
    "(spawn_cargo_error, cargo_run) result \<Rightarrow> (version_error, string option) result" where
  "version_output started =
     res_bind (map_err VeSpawnProcess started) (\<lambda>c.
     res_bind (try_absorb (res_bind (map_err VeTaskPanic (cn_task c)) (map_err VeSpawnProcess))
                 (cn_stdout c) (cn_stderr c)) (\<lambda>o'.
     Ok (if ecr_success (wo_response o') then Some (wo_stdout o') else None)))"

definition rustc_version_command :: execute_command_request where
  "rustc_version_command = execute_command_simple ''rustc'' [''--version'', ''--verbose'']"

definition rustc_version ::
    "(execute_command_request \<Rightarrow> (spawn_cargo_error, cargo_run) result) \<Rightarrow> (version_error, version option) result" where
  "rustc_version run = map_ok (map_option parse_rustc_version_verbose) (version_output (run rustc_version_command))"

definition tool_version_command :: "string \<Rightarrow> execute_command_request" where
  "tool_version_command subcommand_name = execute_command_simple ''cargo'' [subcommand_name, ''--version'']"

definition tool_version ::
    "(execute_command_request \<Rightarrow> (spawn_cargo_error, cargo_run) result) \<Rightarrow> string \<Rightarrow>
     (version_error, version option) result" where
  "tool_version run subcommand_name =
     map_ok (map_option parse_tool_version) (version_output (run (tool_version_command subcommand_name)))"

text \<open>\<open>try_join!\<close>: all values, or the error of the future that failed first; \<open>order\<close> lists the
  futures in the order they finish.\<close>

fun first_error :: "('e, 'a) result list \<Rightarrow> nat list \<Rightarrow> 'e option" where
  "first_error rs [] = None"
| "first_error rs (i # order) =
     (if i < length rs then (case rs ! i of Err e \<Rightarrow> Some e | Ok _ \<Rightarrow> first_error rs order)
      else first_error rs order)"

definition required :: "(version_error \<Rightarrow> container_versions_error) \<Rightarrow> container_versions_error \<Rightarrow>
    (version_error, version option) result \<Rightarrow> (container_versions_error, version) result" where
  "required failed missing r = res_bind (map_err failed r) (ok_or missing)"

definition container_versions ::
    "(execute_command_request \<Rightarrow> (spawn_cargo_error, cargo_run) result) \<Rightarrow> nat list \<Rightarrow>
     (container_versions_error, channel_versions) result" where
  "container_versions run order =
     (let rustc = required CvRustc CvRustcMissing (rustc_version run);
          rustfmt = required CvRustfmt CvRustfmtMissing (tool_version run ''fmt'');
          clippy = required CvClippy CvClippyMissing (tool_version run ''clippy'');
          miri = map_err CvMiri (tool_version run ''miri'')
      in case first_error [map_ok Some rustc, map_ok Some rustfmt, map_ok Some clippy, miri] order of
           Some e \<Rightarrow> Err e
         | None \<Rightarrow>
             res_bind rustc (\<lambda>rustc. res_bind rustfmt (\<lambda>rustfmt. res_bind clippy (\<lambda>clippy.
             res_bind miri (\<lambda>miri.
               Ok \<lparr>cv_rustc = rustc, cv_rustfmt = rustfmt, cv_clippy = clippy, cv_miri = miri\<rparr>)))))"

definition coordinator_versions ::
    "(channel \<Rightarrow> (coordinator_error, (container_versions_error, channel_versions) result) result) \<Rightarrow> nat list \<Rightarrow>
     (versions_error, versions) result" where
  "coordinator_versions container order =
     (let channel_result = (\<lambda>c. res_bind (map_err VcChannel (container c)) (map_err VcVersions));
          stable = map_err VsStable (channel_result Stable);
          beta = map_err VsBeta (channel_result Beta);
          nightly = map_err VsNightly (channel_result Nightly)
      in case first_error [stable, beta, nightly] order of
           Some e \<Rightarrow> Err e
         | None \<Rightarrow>
             res_bind stable (\<lambda>stable. res_bind beta (\<lambda>beta. res_bind nightly (\<lambda>nightly.
               Ok \<lparr>vs_stable = stable, vs_beta = beta, vs_nightly = nightly\<rparr>))))"

record crate_info =
  ci_name :: string
  ci_version :: string
  ci_id :: string

datatype container_crates_error =
    CrRead commander_error
  | CrDeserialization string

definition container_crates ::
    "(bytes \<Rightarrow> (string, crate_info list) result) \<Rightarrow> job_id \<Rightarrow> request_answers \<Rightarrow>
     (container_crates_error, crate_info list) result" where
  "container_crates from_slice job a =
     res_bind (map_err CrRead
         (snd (one CmReadFile narrow_read_file job \<lparr>rf_path = ''crate-information.json''\<rparr> a)))
       (\<lambda>file. map_err CrDeserialization (from_slice (rfr_content file)))"


subsection \<open>Lemmas\<close>

lemma cargo_outcome_Ok: "cargo_outcome p f task = Ok r \<longleftrightarrow> task = Ok (Ok r)"
  by (auto simp: cargo_outcome_def result_iffs)

lemma map_ok_res_bind: "map_ok f r = res_bind r (\<lambda>a. Ok (f a))"
  by (cases r) auto

lemma first_error_None:
  "first_error rs order = None \<longleftrightarrow> (\<forall>i \<in> set order. i < length rs \<longrightarrow> is_ok (rs ! i))"
  by (induction order) (auto split: sum.splits)

lemma first_error_Some: "first_error rs order = Some e \<Longrightarrow> \<exists>i < length rs. rs ! i = Err e"
  by (induction order) (auto split: sum.splits if_splits)

lemma all_below: "(\<forall>i < n. i \<in> set order) \<Longrightarrow> n = length rs \<Longrightarrow>
    first_error rs order = None \<longleftrightarrow> list_all is_ok rs"
  by (auto simp: first_error_None list_all_length)

lemma required_Ok: "required f m r = Ok x \<longleftrightarrow> r = Ok (Some x)"
  by (cases r) (auto simp: required_def result_iffs ok_or_def split: option.splits)

lemma version_output_Ok: "version_output started = Ok x \<longleftrightarrow>
    (\<exists>c r. started = Ok c \<and> cn_task c = Ok (Ok r) \<and>
       x = (if ecr_success r then Some (concat (cn_stdout c)) else None))"
proof -
  have "res_bind (map_err VeTaskPanic t) (map_err VeSpawnProcess) = Ok r \<longleftrightarrow> t = Ok (Ok r)" for t :: cargo_result and r
    by (auto simp: result_iffs)
  then show ?thesis
    by (cases started) (fastforce simp: version_output_def try_absorb_def try_absorb_stream_def result_iffs)+
qed

text \<open>A command that ran to its end, and what it printed.\<close>

definition ran :: "(spawn_cargo_error, cargo_run) result \<Rightarrow> bool \<Rightarrow> string \<Rightarrow> bool" where
  "ran started success out \<longleftrightarrow> (\<exists>c r. started = Ok c \<and> cn_task c = Ok (Ok r) \<and>
     ecr_success r = success \<and> concat (cn_stdout c) = out)"

lemma version_output_ran:
  "version_output started = Ok (Some out) \<longleftrightarrow> ran started True out"
  "version_output started = Ok None \<longleftrightarrow> (\<exists>out. ran started False out)"
  by (auto simp: version_output_Ok ran_def)

lemma tool_version_Ok: "tool_version run n = Ok x \<longleftrightarrow>
    (\<exists>out. x = Some (parse_tool_version out) \<and> ran (run (tool_version_command n)) True out) \<or>
    (\<exists>out. x = None \<and> ran (run (tool_version_command n)) False out)"
  by (cases "version_output (run (tool_version_command n))"; cases x)
     (auto simp: tool_version_def map_ok_Ok_iff version_output_ran [symmetric])

lemma rustc_version_Ok: "rustc_version run = Ok x \<longleftrightarrow>
    (\<exists>out. x = Some (parse_rustc_version_verbose out) \<and> ran (run rustc_version_command) True out) \<or>
    (\<exists>out. x = None \<and> ran (run rustc_version_command) False out)"
  by (cases "version_output (run rustc_version_command)"; cases x)
     (auto simp: rustc_version_def map_ok_Ok_iff version_output_ran [symmetric])

lemma container_versions_Ok:
  assumes "\<forall>i < 4. i \<in> set order"
  shows "container_versions run order = Ok cv \<longleftrightarrow>
    rustc_version run = Ok (Some (cv_rustc cv)) \<and> tool_version run ''fmt'' = Ok (Some (cv_rustfmt cv)) \<and>
    tool_version run ''clippy'' = Ok (Some (cv_clippy cv)) \<and> tool_version run ''miri'' = Ok (cv_miri cv)"
proof -
  let ?rustc = "required CvRustc CvRustcMissing (rustc_version run)"
  let ?fmt = "required CvRustfmt CvRustfmtMissing (tool_version run ''fmt'')"
  let ?clippy = "required CvClippy CvClippyMissing (tool_version run ''clippy'')"
  let ?miri = "map_err CvMiri (tool_version run ''miri'')"
  let ?rs = "[map_ok Some ?rustc, map_ok Some ?fmt, map_ok Some ?clippy, ?miri]"
  have none: "first_error ?rs order = None \<longleftrightarrow> is_ok ?rustc \<and> is_ok ?fmt \<and> is_ok ?clippy \<and> is_ok ?miri"
    using all_below [of 4 order ?rs] assms by simp
  have "container_versions run order = Ok cv \<longleftrightarrow>
      ?rustc = Ok (cv_rustc cv) \<and> ?fmt = Ok (cv_rustfmt cv) \<and> ?clippy = Ok (cv_clippy cv) \<and> ?miri = Ok (cv_miri cv)"
  proof (cases "first_error ?rs order")
    case None
    then show ?thesis by (cases cv) (auto simp: container_versions_def Let_def res_bind_Ok_iff)
  next
    case (Some e)
    with none have "\<not> (is_ok ?rustc \<and> is_ok ?fmt \<and> is_ok ?clippy \<and> is_ok ?miri)" by simp
    then have "\<not> (?rustc = Ok (cv_rustc cv) \<and> ?fmt = Ok (cv_rustfmt cv) \<and> ?clippy = Ok (cv_clippy cv) \<and> ?miri = Ok (cv_miri cv))"
      by (metis is_ok_simps(1))
    with Some show ?thesis by (simp add: container_versions_def Let_def)
  qed
  then show ?thesis by (simp only: required_Ok map_err_Ok_iff)
qed

lemma read_formatted_Ok: "read_formatted (q, job, a) = Ok f \<longleftrightarrow>
    cf_name f = rf_path q \<and> utf8_valid (cf_content f) \<and> channels_open a \<and>
    ra_message a = Some (WmReadFile (ReadFileResponse (cf_content f)))"
proof -
  have "read_formatted (q, job, a) = Ok f \<longleftrightarrow>
      (\<exists>file. snd (one CmReadFile narrow_read_file job q a) = Ok file \<and> utf8_valid (rfr_content file) \<and>
         f = \<lparr>cf_name = rf_path q, cf_content = rfr_content file\<rparr>)"
    by (auto simp: read_formatted_def result_iffs from_utf8_Ok)
  also have "\<dots> \<longleftrightarrow> cf_name f = rf_path q \<and> utf8_valid (cf_content f) \<and> channels_open a \<and>
      ra_message a = Some (WmReadFile (ReadFileResponse (cf_content f)))"
  proof (cases f)
    case (fields n c)
    show ?thesis
      unfolding read_file_1to1.one_Ok_iff
      by (auto simp: fields)
  qed
  finally show ?thesis .
qed


lemma res_map_read_formatted:
  assumes "res_map read_formatted reads = Ok out"
  shows "map (\<lambda>(q, _). rf_path q) reads = map cf_name out"
    and "\<forall>f \<in> set out. utf8_valid (cf_content f) \<and>
      (\<exists>q job a. (q, job, a) \<in> set reads \<and> rf_path q = cf_name f \<and>
         ra_message a = Some (WmReadFile (ReadFileResponse (cf_content f))))"
proof -
  have all: "list_all2 (\<lambda>x f. read_formatted x = Ok f) reads out"
    using assms by (simp add: res_map_Ok_iff)
  from all show "map (\<lambda>(q, _). rf_path q) reads = map cf_name out"
    by (induction rule: list_all2_induct) (auto simp: read_formatted_Ok)
  from all show "\<forall>f \<in> set out. utf8_valid (cf_content f) \<and>
      (\<exists>q job a. (q, job, a) \<in> set reads \<and> rf_path q = cf_name f \<and>
         ra_message a = Some (WmReadFile (ReadFileResponse (cf_content f))))"
    by (induction rule: list_all2_induct) (fastforce simp: read_formatted_Ok)+
qed

text \<open>The answer of a worker whose file system is \<open>fs\<close> to a read.\<close>

definition reads_from ::
    "(read_file_error \<Rightarrow> string list) \<Rightarrow> path \<Rightarrow> file_system \<Rightarrow> read_file_request \<times> job_id \<times> request_answers \<Rightarrow> bool" where
  "reads_from texts dir fs x = (case x of (q, job, a) \<Rightarrow>
     a = all_open (reply WmReadFile texts (handle_read_file (Ok ()) q dir fs)))"

lemma reads_from_content:
  assumes "reads_from texts dir fs (q, job, a)" and "ra_message a = Some (WmReadFile (ReadFileResponse c))"
  shows "fs (path_push dir (rf_path q)) = Some c"
  using assms
  by (auto simp: reads_from_def all_open_def reply_def handle_read_file_def parse_working_dir_def Let_def
      split: option.splits)

subsection \<open>Properties\<close>


lemma formatted_names:
  assumes "res_map read_formatted reads = Ok fs'"
    and "mset (map fst reads) = mset (read_output_requests request)"
  shows "mset (map cf_name fs') = mset (map fst (files (fr_code request) (fr_crate_type request)))"
proof -
  have "mset (map rf_path (map fst reads)) = mset (map rf_path (read_output_requests request))"
    using assms(2) by (metis mset_map)
  moreover have "map rf_path (map fst reads) = map cf_name fs'"
    using res_map_read_formatted(1) [OF assms(1)] by (simp add: comp_def case_prod_unfold)
  moreover have "map rf_path (read_output_requests request) =
      map fst (files (fr_code request) (fr_crate_type request))"
    by (simp add: read_output_requests_def comp_def case_prod_unfold)
  ultimately show ?thesis by (simp only:)
qed

lemma formatted_content:
  assumes "res_map read_formatted reads = Ok fs'" and "list_all (reads_from texts dir fs) reads" and "f \<in> set fs'"
  shows "fs (path_push dir (cf_name f)) = Some (cf_content f) \<and> utf8_valid (cf_content f)"
proof -
  from assms(3) res_map_read_formatted(2) [OF assms(1)] obtain q job a where
    q: "(q, job, a) \<in> set reads" "rf_path q = cf_name f" "utf8_valid (cf_content f)"
    "ra_message a = Some (WmReadFile (ReadFileResponse (cf_content f)))" by blast
  moreover from this assms(2) have "reads_from texts dir fs (q, job, a)" by (auto simp: list_all_iff)
  ultimately show ?thesis using reads_from_content by fastforce
qed

text \<open>C22: a formatting request returns what is in the worker's files afterwards, read as UTF-8: for
  several files each of them once under its name, for a single file the content of the primary
  file.\<close>

theorem format_task_returns_files:
  assumes "format_task request reads (Ok (Ok r)) = Ok resp"
    and "mset (map fst reads) = mset (read_output_requests request)"
    and "list_all (reads_from texts dir fs) reads"
  shows "fmr_success resp = ecr_success r \<and> fmr_exit_detail resp = ecr_exit_detail r \<and>
    (case fmr_code resp of
       Single content \<Rightarrow> fs (path_push dir (primary_path (fr_crate_type request))) = Some content \<and>
         (\<exists>c. fr_code request = Single c)
     | Multiple out \<Rightarrow>
         mset (map cf_name out) = mset (map fst (files (fr_code request) (fr_crate_type request))) \<and>
         list_all (\<lambda>f. fs (path_push dir (cf_name f)) = Some (cf_content f) \<and> utf8_valid (cf_content f)) out)"
proof -
  from assms(1) obtain fs' where out: "res_map read_formatted reads = Ok fs'"
    and resp: "resp = \<lparr>fmr_success = ecr_success r, fmr_exit_detail = ecr_exit_detail r,
         fmr_code = (case fr_code request of
            Single _ \<Rightarrow> Single (if fs' = [] then [] else cf_content (last fs'))
          | Multiple _ \<Rightarrow> Multiple fs')\<rparr>"
    by (auto simp: format_task_def cargo_outcome_def result_iffs)
  note names = formatted_names [OF out assms(2)]
  note content = formatted_content [OF out assms(3)]
  show ?thesis
  proof (cases "fr_code request")
    case (Single c)
    then have "mset (map cf_name fs') = {#primary_path (fr_crate_type request)#}" using names by simp
    then obtain f where "fs' = [f]" "cf_name f = primary_path (fr_crate_type request)"
      by (cases fs') auto
    with content [of f] Single show ?thesis by (simp add: resp)
  next
    case (Multiple cs)
    with names content show ?thesis by (simp add: resp list_all_iff)
  qed
qed

theorem format_task_returns_files_witness:
  "\<exists>resp. format_task \<lparr>fr_channel = Stable, fr_crate_type = Binary, fr_edition = Rust2021, fr_code = Single ''a''\<rparr>
     [(\<lparr>rf_path = ''src/main.rs''\<rparr>, 5, all_open (WmReadFile (ReadFileResponse ''b'')))]
     (Ok (Ok \<lparr>ecr_success = True, ecr_exit_detail = []\<rparr>)) = Ok resp \<and>
     (\<exists>content. fmr_code resp = Single content \<and> [''/p/src/main.rs'' \<mapsto> ''b''] ''/p/src/main.rs'' = Some content)"
proof -
  let ?q = "\<lparr>fr_channel = Stable, fr_crate_type = Binary, fr_edition = Rust2021, fr_code = Single ''a''\<rparr>"
  let ?reads = "[(\<lparr>rf_path = ''src/main.rs''\<rparr>, 5, all_open (WmReadFile (ReadFileResponse ''b'')))]"
  let ?r = "\<lparr>ecr_success = True, ecr_exit_detail = []\<rparr>"
  have run: "format_task ?q ?reads (Ok (Ok ?r)) =
      Ok \<lparr>fmr_success = True, fmr_exit_detail = [], fmr_code = Single ''b''\<rparr>" by code_simp
  moreover have "mset (map fst ?reads) = mset (read_output_requests ?q)"
    by (simp add: read_output_requests_def main_rs_def)
  moreover have "list_all (reads_from (\<lambda>_. []) ''/p'' [''/p/src/main.rs'' \<mapsto> ''b'']) ?reads"
    by (simp add: reads_from_def handle_read_file_def parse_working_dir_def path_push_def is_absolute_def reply_def)
  ultimately show ?thesis
    using format_task_returns_files [of ?q ?reads ?r _ "\<lambda>_. []" "''/p''" "[''/p/src/main.rs'' \<mapsto> ''b'']"]
    by (fastforce simp: main_rs_def path_push_def is_absolute_def)
qed

text \<open>The versions of a channel are reported exactly when \<open>rustc\<close>, \<open>rustfmt\<close> and \<open>clippy\<close> ran
  and succeeded and \<open>miri\<close> at least ran, each parsed from what its command printed; a missing
  \<open>miri\<close> is no error. The order in which the four commands finish does not matter.\<close>

theorem container_versions_exact:
  assumes "\<forall>i < 4. i \<in> set order"
  shows "container_versions run order = Ok cv \<longleftrightarrow>
    (\<exists>rustc. ran (run rustc_version_command) True rustc \<and> cv_rustc cv = parse_rustc_version_verbose rustc) \<and>
    (\<exists>fmt. ran (run (tool_version_command ''fmt'')) True fmt \<and> cv_rustfmt cv = parse_tool_version fmt) \<and>
    (\<exists>clippy. ran (run (tool_version_command ''clippy'')) True clippy \<and> cv_clippy cv = parse_tool_version clippy) \<and>
    (\<exists>ok miri. ran (run (tool_version_command ''miri'')) ok miri \<and>
       cv_miri cv = (if ok then Some (parse_tool_version miri) else None))"
  unfolding container_versions_Ok [OF assms] tool_version_Ok rustc_version_Ok by auto

theorem container_versions_exact_witness:
  "\<exists>cv. container_versions (\<lambda>c. Ok \<lparr>cn_task = Ok (Ok \<lparr>ecr_success = ec_args c \<noteq> [''miri'', ''--version''],
     ecr_exit_detail = []\<rparr>), cn_stdout = [''x 1.0 '', ''(a b)''], cn_stderr = []\<rparr>) [3, 1, 0, 2] = Ok cv \<and> cv_miri cv = None"
proof -
  let ?run = "\<lambda>c. Ok \<lparr>cn_task = Ok (Ok \<lparr>ecr_success = ec_args c \<noteq> [''miri'', ''--version''],
     ecr_exit_detail = []\<rparr>), cn_stdout = [''x 1.0 '', ''(a b)''], cn_stderr = []\<rparr> :: (spawn_cargo_error, cargo_run) result"
  let ?tool = "parse_tool_version ''x 1.0 (a b)''"
  let ?cv = "\<lparr>cv_rustc = parse_rustc_version_verbose ''x 1.0 (a b)'', cv_rustfmt = ?tool,
     cv_clippy = ?tool, cv_miri = None\<rparr>"
  have "\<forall>i < 4. i \<in> set [3, 1, 0, 2 :: nat]" by (simp add: less_Suc_eq numeral_eq_Suc)
  from container_versions_exact [OF this, of ?run ?cv] show ?thesis
    by (auto simp: ran_def tool_version_command_def rustc_version_command_def execute_command_simple_def)
qed

end
