(* ===== verification/Coordinator_Core.thy ===== *)
theory Coordinator_Core
  imports Request_Tasks
begin

text \<open>
  The life of the containers of a coordinator in \<open>orchestrator/src/coordinator.rs\<close>: the docker
  commands, the tracking and killing of containers (\<open>TerminateContainer\<close>), the start of a
  container, the three cells of a \<open>Coordinator\<close> with \<open>select_channel\<close>, \<open>idle\<close> and \<open>shutdown\<close>. The
  host is the state outside the process: the set of tracked names, the names of the containers
  whose start was attempted, and those whose kill command was run. The central property is that every
  started container is alive in a cell or was killed, once.
\<close>

subsection \<open>Docker commands\<close>

record command =
  cmd_program :: string
  cmd_args :: "string list"

fun to_container_name :: "channel \<Rightarrow> string" where
  "to_container_name Stable = ''rust-stable''"
| "to_container_name Beta = ''rust-beta''"
| "to_container_name Nightly = ''rust-nightly''"

definition basic_secure_docker_command :: "string \<Rightarrow> command" where
  "basic_secure_docker_command arch = \<lparr>cmd_program = ''docker'', cmd_args =
     [''run'', ''--platform'', arch, ''--cap-drop=ALL'', ''--net'', ''none'', ''--memory'', ''512m'',
      ''--memory-swap'', ''640m'', ''--pids-limit'', ''512'', ''--oom-score-adj'', ''1000'']\<rparr>"

definition container_name :: "string \<Rightarrow> string" where
  "container_name permit = ''playground-'' @ permit"

definition run_command :: "string \<Rightarrow> channel \<Rightarrow> string \<Rightarrow> command" where
  "run_command arch channel permit =
     (let base = basic_secure_docker_command arch
      in base\<lparr>cmd_args := cmd_args base @ [''--name'', container_name permit, ''-i'', ''-a'', ''stdin'',
          ''-a'', ''stdout'', ''-a'', ''stderr'', ''--rm'', to_container_name channel, ''worker'',
          ''/playground'']\<rparr>)"

definition kill_command :: "string \<Rightarrow> command" where
  "kill_command name = \<lparr>cmd_program = ''docker'', cmd_args = [''kill'', ''--signal'', ''KILL'', name]\<rparr>"

subsection \<open>\<open>TerminateContainer\<close>\<close>

record host =
  h_tracked :: "string set"
  h_started :: "string list"
  h_killed :: "string list"

type_synonym terminate_container = "(string \<times> command) option"

definition start_tracking :: "string \<Rightarrow> host \<Rightarrow> host" where
  "start_tracking name h = h\<lparr>h_tracked := insert name (h_tracked h)\<rparr>"

definition stop_tracking :: "string \<Rightarrow> host \<Rightarrow> host" where
  "stop_tracking name h = h\<lparr>h_tracked := h_tracked h - {name}\<rparr>"

text \<open>Running a kill command; the command names its container last.\<close>

definition run_kill :: "command \<Rightarrow> host \<Rightarrow> host" where
  "run_kill c h = h\<lparr>h_killed := h_killed h @ [last (cmd_args c)]\<rparr>"

definition terminate_container_new :: "string \<Rightarrow> command \<Rightarrow> host \<Rightarrow> terminate_container \<times> host" where
  "terminate_container_new name c h = (Some (name, c), start_tracking name h)"

definition terminate_now ::
    "io_answer \<Rightarrow> terminate_container \<Rightarrow> host \<Rightarrow>
     (terminate_container_error, unit) result \<times> terminate_container \<times> host" where
  "terminate_now output t h =
     (case t of
        Some (name, c) \<Rightarrow>
          (map_err (TerminateContainerError name) output, None, run_kill c (stop_tracking name h))
      | None \<Rightarrow> (Ok (), None, h))"

definition terminate_drop :: "terminate_container \<Rightarrow> host \<Rightarrow> host" where
  "terminate_drop t h =
     (case t of Some (name, c) \<Rightarrow> run_kill c (stop_tracking name h) | None \<Rightarrow> h)"

subsection \<open>Starting a container\<close>

record container =
  con_channel :: channel
  con_kill :: terminate_container
  con_token :: nat
  con_cargo_toml :: toml_value

text \<open>The answers to the start: the permit, the spawn of docker, whether the pipes could be taken,
  and the first read of \<open>Cargo.toml\<close>.\<close>

record start_answers =
  sa_permit :: "(string, string) result"
  sa_spawn :: io_answer
  sa_stdin :: bool
  sa_stdout :: bool
  sa_cargo_toml :: "(modify_cargo_toml_error, toml_value) result"

definition prepare_worker_command ::
    "string \<Rightarrow> channel \<Rightarrow> string \<Rightarrow> host \<Rightarrow> command \<times> terminate_container \<times> host" where
  "prepare_worker_command arch channel permit h =
     (let name = container_name permit;
          (kill, h) = terminate_container_new name (kill_command name) h
      in (run_command arch channel permit, kill, h))"

text \<open>An early return drops the \<open>TerminateContainer\<close>, which kills.\<close>

definition run_worker_in_background ::
    "string \<Rightarrow> channel \<Rightarrow> string \<Rightarrow> start_answers \<Rightarrow> host \<Rightarrow>
     (coordinator_error, terminate_container) result \<times> host" where
  "run_worker_in_background arch channel permit a h =
     (let (start, kill, h) = prepare_worker_command arch channel permit h;
          h = h\<lparr>h_started := h_started h @ [container_name permit]\<rparr>
      in case sa_spawn a of
           Err e \<Rightarrow> (Err (CeSpawnWorker e), terminate_drop kill h)
         | Ok _ \<Rightarrow>
             if \<not> sa_stdin a then (Err CeWorkerStdinCapture, terminate_drop kill h)
             else if \<not> sa_stdout a then (Err CeWorkerStdoutCapture, terminate_drop kill h)
             else (Ok kill, h))"

definition container_new ::
    "string \<Rightarrow> channel \<Rightarrow> start_answers \<Rightarrow> nat \<Rightarrow> host \<Rightarrow> (coordinator_error, container) result \<times> host" where
  "container_new arch channel a token h =
     (case sa_permit a of
        Err e \<Rightarrow> (Err (CeAcquirePermit e), h)
      | Ok permit \<Rightarrow>
          (case run_worker_in_background arch channel permit a h of
             (Err e, h) \<Rightarrow> (Err e, h)
           | (Ok kill, h) \<Rightarrow>
               (case sa_cargo_toml a of
                  Err e \<Rightarrow> (Err (CeCouldNotLoadCargoToml e), terminate_drop kill h)
                | Ok t \<Rightarrow> (Ok \<lparr>con_channel = channel, con_kill = kill, con_token = token, con_cargo_toml = t\<rparr>, h))))"

subsection \<open>\<open>Coordinator\<close>\<close>

record coordinator =
  co_stable :: "container option"
  co_beta :: "container option"
  co_nightly :: "container option"
  co_token :: nat
  co_cancelled :: "nat list"

definition coordinator_build :: coordinator where
  "coordinator_build = \<lparr>co_stable = None, co_beta = None, co_nightly = None, co_token = 0, co_cancelled = []\<rparr>"

fun cell :: "coordinator \<Rightarrow> channel \<Rightarrow> container option" where
  "cell c Stable = co_stable c"
| "cell c Beta = co_beta c"
| "cell c Nightly = co_nightly c"

fun set_cell :: "channel \<Rightarrow> container option \<Rightarrow> coordinator \<Rightarrow> coordinator" where
  "set_cell Stable k c = c\<lparr>co_stable := k\<rparr>"
| "set_cell Beta k c = c\<lparr>co_beta := k\<rparr>"
| "set_cell Nightly k c = c\<lparr>co_nightly := k\<rparr>"

text \<open>\<open>get_or_try_init\<close>: a filled cell is returned; a failed start leaves it empty.\<close>

definition select_channel ::
    "string \<Rightarrow> channel \<Rightarrow> start_answers \<Rightarrow> coordinator \<times> host \<Rightarrow>
     (coordinator_error, container) result \<times> coordinator \<times> host" where
  "select_channel arch channel a ch = (case ch of (c, h) \<Rightarrow>
     (case cell c channel of
        Some k \<Rightarrow> (Ok k, c, h)
      | None \<Rightarrow>
          (case container_new arch channel a (co_token c) h of
             (Err e, h) \<Rightarrow> (Err e, c, h)
           | (Ok k, h) \<Rightarrow> (Ok k, set_cell channel (Some k) c, h))))"

text \<open>The answers to a shutdown: the output of the kill command, which may fail to start at once,
  and the result of the container's task.\<close>

datatype kill_answer = KillFails io_error | KillEnds io_answer

record shutdown_answers =
  sh_kill :: kill_answer
  sh_task :: "(join_error, (coordinator_error, unit) result) result"

definition kill_output :: "kill_answer \<Rightarrow> io_answer" where
  "kill_output k = (case k of KillFails e \<Rightarrow> Err e | KillEnds r \<Rightarrow> r)"

definition container_shutdown ::
    "shutdown_answers \<Rightarrow> container \<Rightarrow> host \<Rightarrow> (coordinator_error, unit) result \<times> host" where
  "container_shutdown a k h =
     (case terminate_now (kill_output (sh_kill a)) (con_kill k) h of
        (Err e, _, h) \<Rightarrow> (Err (CeKillWorker e), h)
      | (Ok _, _, h) \<Rightarrow> (res_bind (map_err CeContainerTaskPanicked (sh_task a)) (\<lambda>r. r), h))"

text \<open>
  \<open>idle\<close>: the token is cancelled and replaced. The three futures are polled in some order; the
  first poll takes the container and starts its kill command. If that command cannot even be
  started, \<open>try_join!\<close> returns before the futures it has not polled yet; otherwise all three run
  and \<open>finish\<close> says in which order they end.
\<close>

fun idle_polls ::
    "(channel \<times> shutdown_answers) list \<Rightarrow> (coordinator_error, unit) result list \<Rightarrow> coordinator \<times> host \<Rightarrow>
     (coordinator_error, (coordinator_error, unit) result list) result \<times> coordinator \<times> host" where
  "idle_polls [] rs (c, h) = (Ok rs, c, h)"
| "idle_polls ((channel, a) # polls) rs (c, h) =
     (case cell c channel of
        None \<Rightarrow> idle_polls polls (rs @ [Ok ()]) (c, h)
      | Some k \<Rightarrow>
          (case container_shutdown a k h of
             (r, h) \<Rightarrow>
               (case (sh_kill a, r) of
                  (KillFails _, Err e) \<Rightarrow> (Err e, set_cell channel None c, h)
                | _ \<Rightarrow> idle_polls polls (rs @ [r]) (set_cell channel None c, h))))"

definition idle ::
    "(channel \<times> shutdown_answers) list \<Rightarrow> nat list \<Rightarrow> coordinator \<times> host \<Rightarrow>
     (coordinator_error, unit) result \<times> coordinator \<times> host" where
  "idle polls finish ch = (case ch of (c, h) \<Rightarrow>
     (let c = c\<lparr>co_cancelled := co_cancelled c @ [co_token c], co_token := co_token c + 1\<rparr>
      in case idle_polls polls [] (c, h) of
           (Err e, c, h) \<Rightarrow> (Err e, c, h)
         | (Ok rs, c, h) \<Rightarrow>
             (case first_error rs finish of
                Some e \<Rightarrow> (Err e, c, h)
              | None \<Rightarrow> (Ok (), c, h))))"

text \<open>Dropping the coordinator drops its cells and with them the containers' guards, and the token.\<close>

definition coordinator_drop :: "coordinator \<times> host \<Rightarrow> coordinator \<times> host" where
  "coordinator_drop ch = (case ch of (c, h) \<Rightarrow>
     (let drop_cell = (\<lambda>channel (c, h).
            (case cell c channel of
               None \<Rightarrow> (c, h)
             | Some k \<Rightarrow> (set_cell channel None c, terminate_drop (con_kill k) h)))
      in drop_cell Nightly (drop_cell Beta (drop_cell Stable
           (c\<lparr>co_cancelled := co_cancelled c @ [co_token c]\<rparr>, h)))))"

text \<open>\<open>shutdown\<close> consumes the coordinator: an error of \<open>idle\<close> returns after the drop.\<close>

definition shutdown ::
    "(channel \<times> shutdown_answers) list \<Rightarrow> nat list \<Rightarrow> coordinator \<times> host \<Rightarrow>
     (coordinator_error, unit) result \<times> coordinator \<times> host" where
  "shutdown polls finish ch =
     (case idle polls finish ch of (r, ch) \<Rightarrow> (r, coordinator_drop ch))"

subsection \<open>No container leaks\<close>

definition live :: "coordinator \<Rightarrow> container list" where
  "live c = concat (map (\<lambda>k. case k of None \<Rightarrow> [] | Some k \<Rightarrow> [k]) [co_stable c, co_beta c, co_nightly c])"

definition live_names :: "coordinator \<Rightarrow> string list" where
  "live_names c = map (\<lambda>k. fst (the (con_kill k))) (live c)"

text \<open>A container in a cell holds a guard that kills it by its name.\<close>

definition guarded :: "container \<Rightarrow> bool" where
  "guarded k = (case con_kill k of None \<Rightarrow> False | Some (name, c) \<Rightarrow> c = kill_command name)"

text \<open>The names of started containers are those of the live ones and of the killed ones; the tracked
  ones are the live ones.\<close>

definition accounted :: "coordinator \<times> host \<Rightarrow> bool" where
  "accounted ch = (case ch of (c, h) \<Rightarrow>
     list_all guarded (live c) \<and>
     mset (h_started h) = mset (live_names c) + mset (h_killed h) \<and>
     h_tracked h = set (live_names c) \<and> distinct (h_started h))"

lemma run_kill_command [simp]: "run_kill (kill_command name) h = h\<lparr>h_killed := h_killed h @ [name]\<rparr>"
  by (simp add: run_kill_def kill_command_def)

lemma container_new_outcome:
  "container_new arch channel a token h = (r, h') \<Longrightarrow>
   (case r of
      Ok k \<Rightarrow> \<exists>permit. sa_permit a = Ok permit \<and> con_kill k = Some (container_name permit, kill_command (container_name permit)) \<and>
        con_channel k = channel \<and>
        h' = h\<lparr>h_tracked := insert (container_name permit) (h_tracked h),
               h_started := h_started h @ [container_name permit]\<rparr>
    | Err e \<Rightarrow> h' = h \<or>
        (\<exists>permit. sa_permit a = Ok permit \<and>
           h' = h\<lparr>h_tracked := h_tracked h - {container_name permit},
                  h_started := h_started h @ [container_name permit],
                  h_killed := h_killed h @ [container_name permit]\<rparr>))"
  by (auto simp: container_new_def run_worker_in_background_def prepare_worker_command_def
      terminate_container_new_def terminate_drop_def start_tracking_def stop_tracking_def Let_def
      split: sum.splits if_splits prod.splits)

lemma live_set_cell_new: "cell c channel = None \<Longrightarrow>
    mset (live (set_cell channel (Some k) c)) = mset (live c) + {#k#}"
  by (cases channel) (auto simp: live_def split: option.split)

lemma live_set_cell_take: "cell c channel = Some k \<Longrightarrow>
    mset (live c) = mset (live (set_cell channel None c)) + {#k#}"
  by (cases channel) (auto simp: live_def split: option.split)


definition con_name :: "container \<Rightarrow> string" where
  "con_name k = fst (the (con_kill k))"

definition kill_name :: "string \<Rightarrow> host \<Rightarrow> host" where
  "kill_name n h = h\<lparr>h_tracked := h_tracked h - {n}, h_killed := h_killed h @ [n]\<rparr>"

lemma guarded_kill: "guarded k \<Longrightarrow> con_kill k = Some (con_name k, kill_command (con_name k))"
  by (auto simp: guarded_def con_name_def split: option.splits)

lemma live_names_eq: "live_names c = map con_name (live c)"
  by (simp add: live_names_def con_name_def)

lemma accounted_start: "accounted (coordinator_build, \<lparr>h_tracked = {}, h_started = [], h_killed = []\<rparr>)"
  by (simp add: accounted_def coordinator_build_def live_def live_names_def)

lemma cell_live: "cell c channel = Some k \<Longrightarrow> k \<in> set (live c)"
  by (cases channel) (auto simp: live_def)

lemma accounted_distinct: "accounted (c, h) \<Longrightarrow> distinct (live_names c @ h_killed h)"
  unfolding accounted_def using mset_eq_imp_distinct_iff [of "h_started h" "live_names c @ h_killed h"]
  by simp

lemma accounted_take:
  assumes "accounted (c, h)" and "cell c channel = Some k"
  shows "accounted (set_cell channel None c, kill_name (con_name k) h)"
proof -
  let ?c = "set_cell channel None c"
  have live: "mset (live c) = mset (live ?c) + {#k#}" by (rule live_set_cell_take [OF assms(2)])
  then have names: "mset (live_names c) = mset (live_names ?c) + {#con_name k#}"
    by (simp add: live_names_eq)
  have "set (live ?c) \<subseteq> set (live c)" using live by (metis mset_subset_eq_add_left set_mset_mono set_mset_mset)
  moreover have "distinct (live_names c)" using accounted_distinct [OF assms(1)] by simp
  then have "distinct (con_name k # live_names ?c)"
    using names by (metis add_mset_add_single mset.simps(2) mset_eq_imp_distinct_iff)
  moreover have "set (live_names c) = insert (con_name k) (set (live_names ?c))"
    using names by (metis add_mset_add_single set_mset_add_mset_insert set_mset_mset)
  ultimately show ?thesis
    using assms(1) names by (auto simp: accounted_def kill_name_def list_all_iff)
qed

lemma terminate_drop_guarded: "guarded k \<Longrightarrow> terminate_drop (con_kill k) h = kill_name (con_name k) h"
  by (simp add: guarded_kill terminate_drop_def stop_tracking_def kill_name_def)

lemma container_shutdown_host: "guarded k \<Longrightarrow> snd (container_shutdown a k h) = kill_name (con_name k) h"
  by (auto simp: container_shutdown_def guarded_kill terminate_now_def stop_tracking_def kill_name_def
      split: sum.splits prod.splits)

lemma accounted_guarded: "accounted (c, h) \<Longrightarrow> cell c channel = Some k \<Longrightarrow> guarded k"
  using cell_live by (auto simp: accounted_def list_all_iff)

definition fresh_permit :: "start_answers \<Rightarrow> host \<Rightarrow> bool" where
  "fresh_permit a h = (case sa_permit a of Err _ \<Rightarrow> True | Ok p \<Rightarrow> container_name p \<notin> set (h_started h))"

lemma accounted_new_container:
  assumes "accounted (c, h)" and "cell c channel = None" and "con_kill k = Some (name, kill_command name)"
    and "name \<notin> set (h_started h)"
  shows "accounted (set_cell channel (Some k) c,
    h\<lparr>h_tracked := insert name (h_tracked h), h_started := h_started h @ [name]\<rparr>)"
proof -
  let ?c = "set_cell channel (Some k) c"
  have live: "mset (live ?c) = mset (live c) + {#k#}" by (rule live_set_cell_new [OF assms(2)])
  then have names: "mset (live_names ?c) = mset (live_names c) + {#name#}"
    by (simp add: live_names_eq con_name_def assms(3))
  then have "set (live_names ?c) = insert name (set (live_names c))"
    by (metis add_mset_add_single set_mset_add_mset_insert set_mset_mset)
  moreover have "set (live ?c) = insert k (set (live c))"
    using live by (metis add_mset_add_single set_mset_add_mset_insert set_mset_mset)
  moreover have "guarded k" by (simp add: guarded_def assms(3))
  ultimately show ?thesis
    using assms(1,4) names by (auto simp: accounted_def list_all_iff)
qed

lemma select_channel_accounted:
  assumes "accounted (c, h)" and "fresh_permit a h"
  shows "accounted (snd (select_channel arch channel a (c, h)))"
proof (cases "cell c channel")
  case (Some k)
  with assms show ?thesis by (simp add: select_channel_def)
next
  case None
  obtain r h' where new: "container_new arch channel a (co_token c) h = (r, h')"
    by (cases "container_new arch channel a (co_token c) h")
  note out = container_new_outcome [OF new]
  show ?thesis
  proof (cases r)
    case (Inl e)
    from out consider "h' = h" | permit where "sa_permit a = Ok permit"
        "h' = h\<lparr>h_tracked := h_tracked h - {container_name permit},
              h_started := h_started h @ [container_name permit],
              h_killed := h_killed h @ [container_name permit]\<rparr>"
      by (auto simp: Inl)
    then show ?thesis
    proof cases
      case 1
      with assms None new Inl show ?thesis by (simp add: select_channel_def)
    next
      case 2
      have "container_name permit \<notin> set (h_started h)" using assms(2) 2(1) by (simp add: fresh_permit_def)
      moreover have "set (h_started h) = set (live_names c) \<union> set (h_killed h)"
        using assms(1) by (auto simp: accounted_def dest!: arg_cong [where f = set_mset])
      ultimately show ?thesis
        using assms(1) None new Inl 2 by (auto simp: select_channel_def accounted_def)
    qed
  next
    case (Inr k)
    with out obtain permit where p: "sa_permit a = Ok permit"
      "con_kill k = Some (container_name permit, kill_command (container_name permit))"
      "h' = h\<lparr>h_tracked := insert (container_name permit) (h_tracked h),
             h_started := h_started h @ [container_name permit]\<rparr>" by auto
    with accounted_new_container [OF assms(1) None p(2)] assms(2) show ?thesis
      using None new Inr by (simp add: select_channel_def fresh_permit_def)
  qed
qed

lemma idle_polls_accounted:
  "accounted (c, h) \<Longrightarrow> accounted (snd (idle_polls polls rs (c, h)))"
proof (induction polls arbitrary: rs c h)
  case (Cons p polls)
  obtain channel a where p: "p = (channel, a)" by (cases p)
  show ?case
  proof (cases "cell c channel")
    case None
    with Cons show ?thesis by (simp add: p)
  next
    case (Some k)
    obtain r h' where sh: "container_shutdown a k h = (r, h')" by (cases "container_shutdown a k h")
    have "h' = kill_name (con_name k) h"
      using container_shutdown_host [OF accounted_guarded [OF Cons.prems Some], of a h] sh by simp
    then have acc: "accounted (set_cell channel None c, h')" using accounted_take [OF Cons.prems Some] by simp
    with Cons.IH [OF acc] Some sh show ?thesis
      by (cases "sh_kill a"; cases r) (auto simp: p)
  qed
qed simp

lemma accounted_token: "accounted (c\<lparr>co_cancelled := x, co_token := y\<rparr>, h) = accounted (c, h)"
  "accounted (c\<lparr>co_cancelled := x\<rparr>, h) = accounted (c, h)"
  by (simp_all add: accounted_def live_def live_names_def)

lemma idle_accounted: "accounted (c, h) \<Longrightarrow> accounted (snd (idle polls finish (c, h)))"
  using idle_polls_accounted [of "c\<lparr>co_cancelled := co_cancelled c @ [co_token c], co_token := co_token c + 1\<rparr>"
      h polls "[]"]
  by (auto simp: idle_def accounted_token Let_def split: prod.splits sum.splits option.splits)

lemma idle_polls_empties:
  "idle_polls polls rs (c, h) = (Ok rs', c', h') \<Longrightarrow>
   cell c' channel = None \<or> channel \<notin> set (map fst polls) \<and> cell c' channel = cell c channel"
proof (induction polls arbitrary: rs c h)
  case (Cons p polls)
  obtain ch a where p: "p = (ch, a)" by (cases p)
  show ?case
  proof (cases "cell c ch")
    case None
    with Cons.prems Cons.IH [of "rs @ [Ok ()]" c h] show ?thesis by (auto simp: p)
  next
    case (Some k)
    obtain r h1 where sh: "container_shutdown a k h = (r, h1)" by (cases "container_shutdown a k h")
    have "idle_polls polls (rs @ [r]) (set_cell ch None c, h1) = (Ok rs', c', h')"
      using Cons.prems Some sh by (auto simp: p split: kill_answer.splits sum.splits)
    from Cons.IH [OF this] show ?thesis by (cases ch; cases channel) (auto simp: p)
  qed
qed simp

lemma coordinator_drop_spec:
  assumes "accounted (c, h)"
  shows "accounted (coordinator_drop (c, h)) \<and> live (fst (coordinator_drop (c, h))) = []"
proof -
  define drop_cell where "drop_cell = (\<lambda>channel (c, h).
            (case cell c channel of
               None \<Rightarrow> (c, h)
             | Some k \<Rightarrow> (set_cell channel None c, terminate_drop (con_kill k) h)))"
  have step: "accounted (drop_cell channel (c, h))" if "accounted (c, h)" for channel c h
    using that accounted_take [OF that] accounted_guarded [OF that]
    by (auto simp: drop_cell_def terminate_drop_guarded split: option.splits)
  have empties: "cell (fst (drop_cell channel x)) channel = None \<and>
      (\<forall>ch. cell (fst x) ch = None \<longrightarrow> cell (fst (drop_cell channel x)) ch = None)" for channel x
  proof -
    have "cell (set_cell channel None d) ch = (if ch = channel then None else cell d ch)" for d ch
      by (cases channel; cases ch) simp_all
    then show ?thesis by (cases x) (auto simp: drop_cell_def split: option.splits)
  qed
  let ?x = "(c\<lparr>co_cancelled := co_cancelled c @ [co_token c]\<rparr>, h)"
  have unfold: "coordinator_drop (c, h) = drop_cell Nightly (drop_cell Beta (drop_cell Stable ?x))"
    by (simp add: coordinator_drop_def drop_cell_def Let_def)
  have "accounted ?x" using assms by (simp add: accounted_token)
  then have "accounted (drop_cell Stable ?x)" by (rule step)
  then have "accounted (drop_cell Beta (drop_cell Stable ?x))" by (metis step surj_pair)
  then have acc: "accounted (coordinator_drop (c, h))" unfolding unfold by (metis step surj_pair)
  have none: "cell (fst (coordinator_drop (c, h))) ch = None" for ch
    using empties unfold by (cases ch) metis+
  then have "live (fst (coordinator_drop (c, h))) = []"
    using none [of Stable] none [of Beta] none [of Nightly] by (simp add: live_def)
  with acc show ?thesis by simp
qed

subsection \<open>The life of a coordinator\<close>

datatype coordinator_op =
    SelectChannel channel start_answers
  | Idle "(channel \<times> shutdown_answers) list" "nat list"

fun coordinator_step :: "string \<Rightarrow> coordinator \<times> host \<Rightarrow> coordinator_op \<Rightarrow> coordinator \<times> host" where
  "coordinator_step arch ch (SelectChannel channel a) = snd (select_channel arch channel a ch)"
| "coordinator_step arch ch (Idle polls finish) = snd (idle polls finish ch)"

text \<open>The limits hand out unused ids; \<open>idle\<close> polls the three channels, each once.\<close>

fun coordinator_enabled :: "coordinator \<times> host \<Rightarrow> coordinator_op \<Rightarrow> bool" where
  "coordinator_enabled ch (SelectChannel channel a) = fresh_permit a (snd ch)"
| "coordinator_enabled ch (Idle polls finish) =
     (mset (map fst polls) = {#Stable, Beta, Nightly#} \<and> set finish = {0, 1, 2})"

lemma coordinator_step_accounted:
  "accounted ch \<Longrightarrow> coordinator_enabled ch op \<Longrightarrow> accounted (coordinator_step arch ch op)"
  by (cases ch; cases op) (simp_all add: select_channel_accounted idle_accounted)

interpretation co: event_loop coordinator_enabled "coordinator_step arch" accounted for arch
  by unfold_locales (rule coordinator_step_accounted)

definition no_containers :: host where
  "no_containers = \<lparr>h_tracked = {}, h_started = [], h_killed = []\<rparr>"

lemma accounted_empty: "accounted (c, h) \<Longrightarrow> live c = [] \<Longrightarrow>
    h_tracked h = {} \<and> mset (h_killed h) = mset (h_started h) \<and> distinct (h_killed h)"
  using accounted_distinct [of c h] by (simp add: accounted_def live_names_def)

subsection \<open>Properties\<close>


definition sample_start :: "string \<Rightarrow> start_answers" where
  "sample_start n = \<lparr>sa_permit = Ok n, sa_spawn = Ok (), sa_stdin = True, sa_stdout = True,
     sa_cargo_toml = Ok (TTable [])\<rparr>"



lemma idle_polls_all_ok:
  "idle_polls polls rs (c, h) = (Ok rs', c', h') \<Longrightarrow> \<exists>qs. rs' = rs @ qs \<and> length qs = length polls"
proof (induction polls arbitrary: rs c h)
  case (Cons p polls)
  obtain ch a where p: "p = (ch, a)" by (cases p)
  from Cons.prems obtain r c1 h1 where "idle_polls polls (rs @ [r]) (c1, h1) = (Ok rs', c', h')"
    by (auto simp: p split: option.splits prod.splits kill_answer.splits sum.splits)
  from Cons.IH [OF this] show ?case by auto
qed simp

lemma idle_polls_token: "co_token (fst (snd (idle_polls polls rs (c, h)))) = co_token c \<and>
    co_cancelled (fst (snd (idle_polls polls rs (c, h)))) = co_cancelled c"
proof (induction polls arbitrary: rs c h)
  case (Cons p polls)
  obtain ch a where p: "p = (ch, a)" by (cases p)
  have "co_token (set_cell ch None c) = co_token c \<and> co_cancelled (set_cell ch None c) = co_cancelled c"
    by (cases ch) simp_all
  with Cons.IH show ?case
    by (auto simp: p split: option.splits prod.splits kill_answer.splits sum.splits)
qed simp

lemma container_shutdown_Ok: "fst (container_shutdown a k h) = Ok u \<Longrightarrow>
    sh_task a = Ok (Ok ()) \<and> (con_kill k \<noteq> None \<longrightarrow> is_ok (kill_output (sh_kill a)))"
  by (auto simp: container_shutdown_def terminate_now_def res_bind_def map_err_def is_ok_def
      split: sum.splits option.splits)

lemma cell_set_cell: "cell (set_cell ch k c) ch' = (if ch' = ch then k else cell c ch')"
  by (cases ch; cases ch') simp_all

lemma idle_polls_shut_down:
  "idle_polls polls rs (c, h) = (Ok rs', c', h') \<Longrightarrow> distinct (map fst polls) \<Longrightarrow>
   (ch, a) \<in> set polls \<Longrightarrow> cell c ch = Some k \<Longrightarrow> \<exists>h1. fst (container_shutdown a k h1) \<in> set rs'"
proof (induction polls arbitrary: rs c h)
  case (Cons p polls)
  obtain ch1 a1 where p: "p = (ch1, a1)" by (cases p)
  show ?case
  proof (cases "cell c ch1")
    case None
    with Cons.prems have "(ch, a) \<in> set polls" by (auto simp: p)
    with Cons.prems None Cons.IH [of "rs @ [Ok ()]" c h] show ?thesis by (simp add: p)
  next
    case (Some k1)
    obtain r h1 where sh: "container_shutdown a1 k1 h = (r, h1)" by (cases "container_shutdown a1 k1 h")
    have rest: "idle_polls polls (rs @ [r]) (set_cell ch1 None c, h1) = (Ok rs', c', h')"
      using Cons.prems(1) Some sh by (auto simp: p split: kill_answer.splits sum.splits)
    show ?thesis
    proof (cases "ch = ch1")
      case True
      with Cons.prems have a: "a = a1" by (auto simp: p rev_image_eqI)
      have "r \<in> set rs'" using idle_polls_all_ok [OF rest] by auto
      moreover have "fst (container_shutdown a k h) = r" using Some sh Cons.prems(4) True a by simp
      ultimately show ?thesis by blast
    next
      case False
      with Cons.prems have "(ch, a) \<in> set polls" "cell (set_cell ch1 None c) ch = Some k"
        by (auto simp: p cell_set_cell)
      with Cons.IH [OF rest] Cons.prems(2) show ?thesis by (simp add: p)
    qed
  qed
qed simp

lemma polls_three:
  assumes "mset (map fst polls) = {#Stable, Beta, Nightly#}"
  shows "set (map fst polls) = {Stable, Beta, Nightly}" and "distinct (map fst polls)" and "length polls = 3"
proof -
  show "set (map fst polls) = {Stable, Beta, Nightly}"
    using assms by (metis set_mset_add_mset_insert set_mset_empty set_mset_mset)
  show "distinct (map fst polls)" using mset_eq_imp_distinct_iff [of _ "[Stable, Beta, Nightly]"] assms by simp
  show "length polls = 3" using arg_cong [OF assms, of size] by simp
qed

lemma idle_polls_live:
  assumes "mset (map fst polls) = {#Stable, Beta, Nightly#}" and "idle_polls polls [] (c, h) = (Ok rs, c', h')"
  shows "live c' = []"
proof -
  have "cell c' ch = None" for ch
  proof -
    have "cell c' ch = None \<or> ch \<notin> set (map fst polls)" using idle_polls_empties [OF assms(2)] by blast
    then show ?thesis unfolding polls_three(1) [OF assms(1)] by (cases ch) simp_all
  qed
  from this [of Stable] this [of Beta] this [of Nightly] show ?thesis by (simp add: live_def)
qed

lemma idle_polls_shut:
  assumes polls: "mset (map fst polls) = {#Stable, Beta, Nightly#}" "idle_polls polls [] (c, h) = (Ok rs, c', h')"
    and finish: "set finish = {0, 1, 2}" "first_error rs finish = None"
    and container: "(ch, a) \<in> set polls" "cell c ch = Some k"
  shows "sh_task a = Ok (Ok ()) \<and> (con_kill k \<noteq> None \<longrightarrow> is_ok (kill_output (sh_kill a)))"
proof -
  have len: "length rs = 3" using idle_polls_all_ok [OF polls(2)] polls_three(3) [OF polls(1)] by auto
  have oks: "is_ok x" if "x \<in> set rs" for x
  proof -
    from that obtain i where i: "i < 3" "x = rs ! i" unfolding in_set_conv_nth len by blast
    then have "i \<in> set finish" unfolding finish(1) by auto
    then show ?thesis using finish(2) i len unfolding first_error_None by simp
  qed
  obtain h2 where "fst (container_shutdown a k h2) \<in> set rs"
    using idle_polls_shut_down [OF polls(2) polls_three(2) [OF polls(1)] container] by blast
  from oks [OF this] have "fst (container_shutdown a k h2) = Ok ()"
    by (cases "fst (container_shutdown a k h2)") (simp_all add: is_ok_def)
  then show ?thesis by (rule container_shutdown_Ok)
qed

text \<open>C16: an \<open>idle\<close> that succeeds leaves no container: every cell is empty, and every container
  that was in a cell was killed by a command that could be run and ended its task without an
  error. Whether it succeeds or not, the token the containers run under is cancelled and the next
  containers run under a new one.\<close>

theorem idle_ok_empties:
  assumes "coordinator_enabled (c, h) (Idle polls finish)"
    and "idle polls finish (c, h) = (r, c', h')"
  shows "co_token c \<in> set (co_cancelled c') \<and> co_token c' = co_token c + 1 \<and>
    (r = Ok () \<longrightarrow> live c' = [] \<and>
      (\<forall>ch a k. (ch, a) \<in> set polls \<and> cell c ch = Some k \<longrightarrow>
         sh_task a = Ok (Ok ()) \<and> (con_kill k \<noteq> None \<longrightarrow> is_ok (kill_output (sh_kill a)))))"
proof -
  let ?c = "c\<lparr>co_cancelled := co_cancelled c @ [co_token c], co_token := co_token c + 1\<rparr>"
  obtain rs c1 h1 where polls: "idle_polls polls [] (?c, h) = (rs, c1, h1)" by (metis surj_pair)
  have c': "c' = c1" using assms(2) polls
    by (auto simp: idle_def Let_def split: sum.splits option.splits)
  have set3: "mset (map fst polls) = {#Stable, Beta, Nightly#}" and fin: "set finish = {0, 1, 2}"
    using assms(1) by simp_all
  have "live c1 = [] \<and> (\<forall>ch a k. (ch, a) \<in> set polls \<and> cell c ch = Some k \<longrightarrow>
      sh_task a = Ok (Ok ()) \<and> (con_kill k \<noteq> None \<longrightarrow> is_ok (kill_output (sh_kill a))))" if "r = Ok ()"
  proof -
    from that assms(2) polls obtain rs' where rs: "rs = Ok rs'" and ok: "first_error rs' finish = None"
      by (auto simp: idle_def Let_def split: sum.splits option.splits)
    have cell: "cell ?c ch = cell c ch" for ch by (cases ch) simp_all
    have "sh_task a = Ok (Ok ()) \<and> (con_kill k \<noteq> None \<longrightarrow> is_ok (kill_output (sh_kill a)))"
      if "(ch, a) \<in> set polls" "cell c ch = Some k" for ch a k
    proof -
      have "cell ?c ch = Some k" using that(2) unfolding cell .
      then show ?thesis by (rule idle_polls_shut [OF set3 polls [unfolded rs] fin ok that(1)])
    qed
    then show ?thesis using idle_polls_live [OF set3 polls [unfolded rs]] by blast
  qed
  moreover have "co_token c \<in> set (co_cancelled c1) \<and> co_token c1 = co_token c + 1"
    using idle_polls_token [of polls "[]" ?c h] polls by simp
  ultimately show ?thesis using c' by blast
qed

theorem idle_ok_empties_witness:
  "live (fst (snd (idle [(Stable, \<lparr>sh_kill = KillEnds (Ok ()), sh_task = Ok (Ok ())\<rparr>),
      (Nightly, \<lparr>sh_kill = KillEnds (Ok ()), sh_task = Ok (Ok ())\<rparr>),
      (Beta, \<lparr>sh_kill = KillFails IoNotFound, sh_task = Ok (Ok ())\<rparr>)] [0, 1, 2]
     (snd (select_channel ''linux/amd64'' Stable (sample_start ''0'') (coordinator_build, no_containers)))))) = []"
proof -
  let ?polls = "[(Stable, \<lparr>sh_kill = KillEnds (Ok ()), sh_task = Ok (Ok ())\<rparr>),
      (Nightly, \<lparr>sh_kill = KillEnds (Ok ()), sh_task = Ok (Ok ())\<rparr>),
      (Beta, \<lparr>sh_kill = KillFails IoNotFound, sh_task = Ok (Ok ())\<rparr>)]"
  let ?s = "snd (select_channel ''linux/amd64'' Stable (sample_start ''0'') (coordinator_build, no_containers))"
  obtain c h where s: "?s = (c, h)" by (cases ?s)
  obtain r c' h' where i: "idle ?polls [0, 1, 2] (c, h) = (r, c', h')" by (metis surj_pair)
  have "fst (idle ?polls [0, 1, 2] ?s) = Ok ()" by code_simp
  then have "r = Ok ()" by (simp only: s i fst_conv)
  moreover have "coordinator_enabled (c, h) (Idle ?polls [0, 1, 2])" by auto
  ultimately show ?thesis using idle_ok_empties [OF _ i] by (simp only: s i fst_conv snd_conv)
qed

end
