(* ===== verification/Worker_Process.thy ===== *)
theory Worker_Process
  imports Worker_Files Utf8_Reader Str_Std
begin

text \<open>
  The processes of a worker, \<open>orchestrator/src/worker.rs\<close>: how a process is waited for
  (\<open>process_end\<close>) and its exit described, the state of \<open>manage_processes\<close> with the senders of
  stdin and the kill tokens of the jobs, the stream of statistics, and the dispatch of the
  coordinator's messages. What the operating system and the channels answer is in the events.
\<close>

subsection \<open>Exit status\<close>

text \<open>\<open>std::process::ExitStatus\<close> on unix: exited with a code, or ended by a signal.\<close>

datatype exit_status = Exited int | Signaled int | StatusOther

definition status_success :: "exit_status \<Rightarrow> bool" where
  "status_success s = (s = Exited 0)"

definition signal_table :: "(string \<times> string) list" where
  "signal_table =
     [(''SIGHUP'', ''terminal line hangup''),
      (''SIGINT'', ''interrupt program''),
      (''SIGQUIT'', ''quit program''),
      (''SIGILL'', ''illegal instruction''),
      (''SIGTRAP'', ''trace trap''),
      (''SIGABRT'', ''abort program''),
      (''SIGBUS'', ''bus error''),
      (''SIGFPE'', ''floating-point exception''),
      (''SIGKILL'', ''kill program''),
      (''SIGUSR1'', ''user-defined signal 1''),
      (''SIGSEGV'', ''segmentation violation''),
      (''SIGUSR2'', ''user-defined signal 2''),
      (''SIGPIPE'', ''write on a pipe with no reader''),
      (''SIGALRM'', ''real-time timer expired''),
      (''SIGTERM'', ''software termination signal'')]"

definition sig_unknown :: "string \<times> string" where
  "sig_unknown = (''???'', ''Unknown signal'')"

text \<open>\<open>usize::try_from\<close>, \<open>checked_sub\<close> and \<open>get\<close>, each of which may answer \<open>None\<close>.\<close>

definition signals_get :: "int \<Rightarrow> string \<times> string" where
  "signals_get signal =
     (case (if signal < 0 then None else Some (nat signal)) of
        None \<Rightarrow> sig_unknown
      | Some s \<Rightarrow>
          (case (if s < 1 then None else Some (s - 1)) of
             None \<Rightarrow> sig_unknown
           | Some i \<Rightarrow> if i < length signal_table then signal_table ! i else sig_unknown))"

fun extract_exit_detail :: "exit_status \<Rightarrow> string" where
  "extract_exit_detail (Exited code) = ''Exited with status '' @ int_to_string code"
| "extract_exit_detail (Signaled signal) =
     (let (name, description) = signals_get signal
      in ''Exited with signal '' @ int_to_string signal @ '' ('' @ name @ ''): '' @ description)"
| "extract_exit_detail StatusOther = []"

subsection \<open>Errors\<close>

datatype stdio_error =
    UnableToWriteStdin io_error
  | UnableToFlushStdin io_error
  | CopyStdout copy_child_output_error
  | CopyStderr copy_child_output_error

datatype command_statistics_error =
    ChildIdMissing
  | ProcessIdOutOfRange "32 word"
  | InvalidProcess string int

datatype process_error =
    UnableToSpawnProcess io_error string
  | UnableToCaptureStdin
  | UnableToCaptureStdout
  | UnableToCaptureStderr
  | UnableToSendStdinData send_error
  | KillChild io_error
  | WaitChild io_error
  | UnableToSendStdinShutdown send_error
  | StdioTaskPanicked join_error
  | StdioTaskFailed stdio_error
  | StatisticsTaskPanicked join_error
  | StatisticsTaskFailed command_statistics_error
  | UnableToSendExecuteCommandStartedResponse multiplexing_sender_error
  | UnableToSendExecuteCommandResponse multiplexing_sender_error
  | StdinShutdownReceiverEnded
  | ProcessTaskPanicked join_error

subsection \<open>\<open>process_end\<close>\<close>

type_synonym stdio_outcome = "(join_error, (stdio_error, unit) result) result"

datatype wait_event =
    PeCancelled io_answer
  | PeExited "(io_error, exit_status) result"
  | PeStdioTask stdio_outcome

definition stdio_check :: "stdio_outcome \<Rightarrow> (process_error, unit) result" where
  "stdio_check t = res_bind (map_err StdioTaskPanicked t) (map_err StdioTaskFailed)"

text \<open>The loop that waits: a kill and the end of a stream task go round again. No result means that
  it still waits after these events.\<close>

fun wait_loop :: "wait_event list \<Rightarrow> (process_error, (io_error, exit_status) result) result option" where
  "wait_loop [] = None"
| "wait_loop (PeCancelled killed # es) =
     (case killed of Err e \<Rightarrow> Some (Err (KillChild e)) | Ok _ \<Rightarrow> wait_loop es)"
| "wait_loop (PeExited status # es) = Some (Ok status)"
| "wait_loop (PeStdioTask t # es) =
     (case stdio_check t of Err e \<Rightarrow> Some (Err e) | Ok _ \<Rightarrow> wait_loop es)"

text \<open>\<open>shutdown_sent\<close> says whether the request to forget the job's stdin could be sent, \<open>rest\<close> is what
  the remaining stream tasks return, \<open>statistics\<close> the statistics task.\<close>

definition process_end ::
    "wait_event list \<Rightarrow> bool \<Rightarrow> stdio_outcome list \<Rightarrow>
     (join_error, (command_statistics_error, unit) result) result \<Rightarrow>
     (process_error, execute_command_response) result option" where
  "process_end events shutdown_sent rest statistics =
     map_option (\<lambda>waited.
       res_bind waited (\<lambda>status.
       res_bind (map_err WaitChild status) (\<lambda>status.
       res_bind (if shutdown_sent then Ok () else Err (UnableToSendStdinShutdown ())) (\<lambda>_.
       res_bind (res_map stdio_check rest) (\<lambda>_.
       res_bind (res_bind (map_err StatisticsTaskPanicked statistics) (map_err StatisticsTaskFailed)) (\<lambda>_.
       Ok \<lparr>ecr_success = status_success status, ecr_exit_detail = extract_exit_detail status\<rparr>))))))
     (wait_loop events)"

subsection \<open>Statistics (linux)\<close>

definition ticks_to_seconds :: "u64 \<Rightarrow> u64 \<Rightarrow> f64" where
  "ticks_to_seconds ticks_per_second v = real (unat v) / real (unat ticks_per_second)"

definition pages_to_bytes :: "u64 \<Rightarrow> u64 \<Rightarrow> u64" where
  "pages_to_bytes page_size v = v * page_size"

record proc_stat =
  stat_utime :: u64
  stat_stime :: u64
  stat_rss :: u64

definition process_stats :: "u64 \<Rightarrow> u64 \<Rightarrow> proc_stat option \<Rightarrow> command_statistics option" where
  "process_stats ticks_per_second page_size stat =
     map_option (\<lambda>s.
       \<lparr>cs_total_time_secs = ticks_to_seconds ticks_per_second (stat_utime s + stat_stime s),
        cs_resident_set_size_bytes = pages_to_bytes page_size (stat_rss s)\<rparr>) stat"

text \<open>\<open>Process::new\<close> keeps what procfs says of the machine when the process is there.\<close>

record stats_process =
  sp_ticks_per_second :: u64
  sp_page_size :: u64

definition linux_process_new :: "u64 \<Rightarrow> u64 \<Rightarrow> (string, unit) result \<Rightarrow> (string, stats_process) result" where
  "linux_process_new ticks_per_second page_size found =
     map_ok (\<lambda>_. \<lparr>sp_ticks_per_second = ticks_per_second, sp_page_size = page_size\<rparr>) found"

text \<open>The same on macOS: the timebase of the clock, and the usage when the call succeeds.\<close>

record mach_timebase =
  tb_numer :: "32 word"
  tb_denom :: "32 word"

record rusage_info =
  ri_user_time :: u64
  ri_system_time :: u64
  ri_resident_size :: u64

definition mach_timebase_new :: "int \<Rightarrow> mach_timebase \<Rightarrow> (unit, mach_timebase) result" where
  "mach_timebase_new retval timebase = (if retval \<noteq> 0 then Err () else Ok timebase)"

definition proc_pid_rusage :: "int \<Rightarrow> rusage_info \<Rightarrow> io_error \<Rightarrow> (io_error, rusage_info) result" where
  "proc_pid_rusage retval usage last_os_error = (if retval = 0 then Ok usage else Err last_os_error)"

definition mach_ticks_to_seconds :: "mach_timebase \<Rightarrow> u64 \<Rightarrow> f64" where
  "mach_ticks_to_seconds tb v =
     real (unat v) / real (unat (tb_denom tb)) * real (unat (tb_numer tb)) / 1000000000"

definition mach_process_stats :: "mach_timebase \<Rightarrow> (io_error, rusage_info) result \<Rightarrow> command_statistics option" where
  "mach_process_stats tb usage =
     map_option (\<lambda>u.
       \<lparr>cs_total_time_secs = mach_ticks_to_seconds tb (ri_user_time u + ri_system_time u),
        cs_resident_set_size_bytes = ri_resident_size u\<rparr>) (res_ok usage)"

text \<open>The two readers agree on a clock that ticks in nanoseconds.\<close>

lemma readers_agree:
  "mach_ticks_to_seconds \<lparr>tb_numer = 1, tb_denom = 1\<rparr> v = ticks_to_seconds 1000000000 v"
  by (simp add: ticks_to_seconds_def mach_ticks_to_seconds_def)

text \<open>One reading per second until the process is gone or nobody listens.\<close>

fun statistics_loop ::
    "(nat \<Rightarrow> bool) \<Rightarrow> job_id \<Rightarrow> command_statistics option list \<Rightarrow> worker_log \<Rightarrow> worker_log" where
  "statistics_loop acc job [] sent = sent"
| "statistics_loop acc job (None # readings) sent = sent"
| "statistics_loop acc job (Some stats # readings) sent =
     (case send_ok acc WmCommandStatistics job stats sent of
        Err _ \<Rightarrow> sent
      | Ok sent \<Rightarrow> statistics_loop acc job readings sent)"

definition i32_max :: nat where "i32_max = 2 ^ 31 - 1"

definition stream_command_statistics ::
    "(nat \<Rightarrow> bool) \<Rightarrow> job_id \<Rightarrow> (int \<Rightarrow> (string, unit) result) \<Rightarrow> 32 word option \<Rightarrow>
     command_statistics option list \<Rightarrow> worker_log \<Rightarrow> (command_statistics_error, unit) result \<times> worker_log" where
  "stream_command_statistics acc job process_new child_id readings sent =
     (case child_id of
        None \<Rightarrow> (Err ChildIdMissing, sent)
      | Some process_id \<Rightarrow>
          if i32_max < unat process_id then (Err (ProcessIdOutOfRange process_id), sent)
          else case process_new (uint process_id) of
            Err e \<Rightarrow> (Err (InvalidProcess e (uint process_id)), sent)
          | Ok _ \<Rightarrow> (Ok (), statistics_loop acc job readings sent))"


subsection \<open>\<open>manage_processes\<close>\<close>

datatype process_command =
    PcStart execute_command_request
  | PcStdin string
  | PcStdinClose
  | PcKill

text \<open>
  The events of the loop. A start carries what \<open>process_begin\<close> returns, a packet whether the
  process's stdin task still receives, an end what the process's task returned.
\<close>

datatype process_event =
    MpCommand "process_command multiplexed option" "(process_error, unit) result" bool
  | MpStdinShutdown "job_id option"
  | MpProcessEnded "(join_error, (process_error, unit) result) result"

text \<open>
  Stdin channels and kill tokens are numbers, fresh for each start. \<open>ps_stdin\<close> is what was sent on
  the channels, \<open>ps_cancelled\<close> the tokens whose guard was dropped.
\<close>

record process_state =
  ps_project_path :: path
  ps_stdin_senders :: "job_id \<rightharpoonup> nat"
  ps_kill_tokens :: "job_id \<rightharpoonup> nat"
  ps_next :: nat
  ps_started :: "(job_id \<times> nat) list"
  ps_stdin :: "(nat \<times> string) list"
  ps_cancelled :: "nat list"
  ps_log :: worker_log
  ps_result :: "(process_error, unit) result option"

definition process_state_new :: "path \<Rightarrow> process_state" where
  "process_state_new project_path = \<lparr>ps_project_path = project_path, ps_stdin_senders = Map.empty,
     ps_kill_tokens = Map.empty, ps_next = 0, ps_started = [], ps_stdin = [], ps_cancelled = [],
     ps_log = [], ps_result = None\<rparr>"

text \<open>Dropping a guard cancels its token.\<close>

definition drop_guard :: "nat option \<Rightarrow> process_state \<Rightarrow> process_state" where
  "drop_guard t s = (case t of None \<Rightarrow> s | Some k \<Rightarrow> s\<lparr>ps_cancelled := ps_cancelled s @ [k]\<rparr>)"

definition process_begin :: "job_id \<Rightarrow> (process_error, unit) result \<Rightarrow> process_state \<Rightarrow>
    (process_error, nat) result \<times> process_state" where
  "process_begin job spawned s =
     (case spawned of
        Err e \<Rightarrow> (Err e, s)
      | Ok _ \<Rightarrow> (Ok (ps_next s), s\<lparr>ps_stdin_senders := (ps_stdin_senders s)(job \<mapsto> ps_next s),
                    ps_next := ps_next s + 1\<rparr>))"

definition process_start ::
    "(process_error \<Rightarrow> string list) \<Rightarrow> (nat \<Rightarrow> bool) \<Rightarrow> job_id \<Rightarrow> (process_error, unit) result \<Rightarrow>
     process_state \<Rightarrow> process_state" where
  "process_start texts acc job spawned s =
     (case process_begin job spawned s of
        (Err e, s) \<Rightarrow>
          (case send_err acc job (texts e) (ps_log s) of
             Err e \<Rightarrow> s\<lparr>ps_result := Some (Err (UnableToSendExecuteCommandStartedResponse e))\<rparr>
           | Ok sent \<Rightarrow> s\<lparr>ps_log := sent\<rparr>)
      | (Ok k, s) \<Rightarrow>
          (let old = ps_kill_tokens s job;
               s = s\<lparr>ps_kill_tokens := (ps_kill_tokens s)(job \<mapsto> k), ps_started := ps_started s @ [(job, k)]\<rparr>
           in drop_guard old s))"

definition process_stdin :: "job_id \<Rightarrow> string \<Rightarrow> bool \<Rightarrow> process_state \<Rightarrow> process_state" where
  "process_stdin job packet received s =
     (case ps_stdin_senders s job of
        None \<Rightarrow> s
      | Some k \<Rightarrow>
          if received then s\<lparr>ps_stdin := ps_stdin s @ [(k, packet)]\<rparr>
          else s\<lparr>ps_result := Some (Err (UnableToSendStdinData ()))\<rparr>)"

definition process_stdin_close :: "job_id \<Rightarrow> process_state \<Rightarrow> process_state" where
  "process_stdin_close job s = s\<lparr>ps_stdin_senders := (ps_stdin_senders s)(job := None)\<rparr>"

definition process_kill :: "job_id \<Rightarrow> process_state \<Rightarrow> process_state" where
  "process_kill job s =
     drop_guard (ps_kill_tokens s job) (s\<lparr>ps_kill_tokens := (ps_kill_tokens s)(job := None)\<rparr>)"

definition join_process :: "(join_error, (process_error, unit) result) result \<Rightarrow> (process_error, unit) result" where
  "join_process p = res_bind (map_err ProcessTaskPanicked p) (\<lambda>r. r)"

fun manage_step ::
    "(process_error \<Rightarrow> string list) \<Rightarrow> (nat \<Rightarrow> bool) \<Rightarrow> process_state \<Rightarrow> process_event \<Rightarrow> process_state" where
  "manage_step texts acc s (MpCommand None _ _) = s\<lparr>ps_result := Some (Ok ())\<rparr>"
| "manage_step texts acc s (MpCommand (Some (Multiplexed job cmd)) spawned received) =
     (case cmd of
        PcStart _ \<Rightarrow> process_start texts acc job spawned s
      | PcStdin packet \<Rightarrow> process_stdin job packet received s
      | PcStdinClose \<Rightarrow> process_stdin_close job s
      | PcKill \<Rightarrow> process_kill job s)"
| "manage_step texts acc s (MpStdinShutdown None) = s\<lparr>ps_result := Some (Err StdinShutdownReceiverEnded)\<rparr>"
| "manage_step texts acc s (MpStdinShutdown (Some job)) = process_stdin_close job s"
| "manage_step texts acc s (MpProcessEnded p) =
     (case join_process p of Err e \<Rightarrow> s\<lparr>ps_result := Some (Err e)\<rparr> | Ok _ \<Rightarrow> s)"

definition manage_enabled :: "process_state \<Rightarrow> process_event \<Rightarrow> bool" where
  "manage_enabled s e = (ps_result s = None)"

subsection \<open>\<open>handle_coordinator_message\<close>\<close>

text \<open>What the handler does with a message: a file task that will answer, or a command for the
  process manager.\<close>

datatype handler_action =
    SpawnWrite write_file_request
  | SpawnDelete delete_file_request
  | SpawnRead read_file_request
  | ToProcesses process_command

fun dispatch :: "coordinator_message \<Rightarrow> handler_action" where
  "dispatch (CmWriteFile req) = SpawnWrite req"
| "dispatch (CmDeleteFile req) = SpawnDelete req"
| "dispatch (CmReadFile req) = SpawnRead req"
| "dispatch (CmExecuteCommand req) = ToProcesses (PcStart req)"
| "dispatch (CmStdinPacket data) = ToProcesses (PcStdin data)"
| "dispatch CmStdinClose = ToProcesses PcStdinClose"
| "dispatch CmKill = ToProcesses PcKill"

datatype handle_coordinator_message_error =
    UnableToSendWriteFileResponse multiplexing_sender_error
  | UnableToSendDeleteFileResponse multiplexing_sender_error
  | UnableToSendReadFileResponse multiplexing_sender_error
  | UnableToSendCommandExecutionRequest send_error
  | UnableToSendStdinPacket send_error
  | UnableToSendStdinClose send_error
  | UnableToSendKill send_error
  | TaskPanicked join_error

fun command_error :: "process_command \<Rightarrow> handle_coordinator_message_error" where
  "command_error (PcStart _) = UnableToSendCommandExecutionRequest ()"
| "command_error (PcStdin _) = UnableToSendStdinPacket ()"
| "command_error PcStdinClose = UnableToSendStdinClose ()"
| "command_error PcKill = UnableToSendKill ()"

record handler_state =
  hs_tasks :: "(job_id \<times> handler_action) list"
  hs_to_processes :: "process_command multiplexed list"
  hs_result :: "(handle_coordinator_message_error, unit) result option"

datatype handler_event =
    HcMessage "coordinator_message multiplexed option" bool
  | HcTask "(join_error, (handle_coordinator_message_error, unit) result) result"

fun handler_step :: "handler_state \<Rightarrow> handler_event \<Rightarrow> handler_state" where
  "handler_step s (HcMessage None _) = s\<lparr>hs_result := Some (Ok ())\<rparr>"
| "handler_step s (HcMessage (Some (Multiplexed job msg)) sent) =
     (case dispatch msg of
        ToProcesses cmd \<Rightarrow>
          if sent then s\<lparr>hs_to_processes := hs_to_processes s @ [Multiplexed job cmd]\<rparr>
          else s\<lparr>hs_result := Some (Err (command_error cmd))\<rparr>
      | task \<Rightarrow> s\<lparr>hs_tasks := hs_tasks s @ [(job, task)]\<rparr>)"
| "handler_step s (HcTask t) =
     (case res_bind (map_err TaskPanicked t) (\<lambda>r. r) of
        Err e \<Rightarrow> s\<lparr>hs_result := Some (Err e)\<rparr>
      | Ok _ \<Rightarrow> s)"


subsection \<open>How a process ends\<close>

fun harmless :: "wait_event \<Rightarrow> bool" where
  "harmless (PeCancelled killed) = is_ok killed"
| "harmless (PeStdioTask t) = (t = Ok (Ok ()))"
| "harmless (PeExited _) = False"

lemma stdio_check_Ok: "stdio_check t = Ok u \<longleftrightarrow> t = Ok (Ok ())"
  by (auto simp: stdio_check_def result_iffs)

lemma stdio_check_is_Ok: "(\<exists>e. stdio_check t = Err e) \<longleftrightarrow> t \<noteq> Ok (Ok ())"
  using stdio_check_Ok [of t "()"] by (cases "stdio_check t") auto

lemma exit_after_harmless: "(\<exists>pre post. e # es = pre @ PeExited status # post \<and> list_all harmless pre) \<longleftrightarrow>
    e = PeExited status \<or> harmless e \<and> (\<exists>pre post. es = pre @ PeExited status # post \<and> list_all harmless pre)"
proof
  assume "\<exists>pre post. e # es = pre @ PeExited status # post \<and> list_all harmless pre"
  then obtain pre post where "e # es = pre @ PeExited status # post" "list_all harmless pre" by blast
  then show "e = PeExited status \<or> harmless e \<and> (\<exists>pre post. es = pre @ PeExited status # post \<and> list_all harmless pre)"
    by (cases pre) auto
next
  assume "e = PeExited status \<or> harmless e \<and> (\<exists>pre post. es = pre @ PeExited status # post \<and> list_all harmless pre)"
  then show "\<exists>pre post. e # es = pre @ PeExited status # post \<and> list_all harmless pre"
  proof (elim disjE conjE exE)
    assume "e = PeExited status"
    then have "e # es = [] @ PeExited status # es \<and> list_all harmless []" by simp
    then show ?thesis by blast
  next
    fix pre post assume "harmless e" "es = pre @ PeExited status # post" "list_all harmless pre"
    then have "e # es = (e # pre) @ PeExited status # post \<and> list_all harmless (e # pre)" by simp
    then show ?thesis by blast
  qed
qed

lemma wait_loop_Ok: "wait_loop es = Some (Ok status) \<longleftrightarrow>
    (\<exists>pre post. es = pre @ PeExited status # post \<and> list_all harmless pre)"
proof (induction es)
  case Nil
  then show ?case by simp
next
  case (Cons e es)
  show ?case
    unfolding exit_after_harmless Cons.IH [symmetric]
  proof (cases e)
    case (PeCancelled k)
    then show "wait_loop (e # es) = Some (Ok status) \<longleftrightarrow>
        e = PeExited status \<or> harmless e \<and> wait_loop es = Some (Ok status)"
      by (cases k) auto
  next
    case (PeStdioTask t)
    then show "wait_loop (e # es) = Some (Ok status) \<longleftrightarrow>
        e = PeExited status \<or> harmless e \<and> wait_loop es = Some (Ok status)"
      using stdio_check_Ok [of t "()"] stdio_check_is_Ok [of t] by (cases "stdio_check t") auto
  qed auto
qed

lemma res_map_check: "(\<exists>us. res_map stdio_check rest = Ok us) \<longleftrightarrow> list_all (\<lambda>t. t = Ok (Ok ())) rest"
  by (induction rest) (auto simp: result_iffs stdio_check_Ok)

lemma process_end_Ok: "process_end events shutdown_sent rest statistics = Some (Ok resp) \<longleftrightarrow>
    (\<exists>status. wait_loop events = Some (Ok (Ok status)) \<and> shutdown_sent \<and>
       list_all (\<lambda>t. t = Ok (Ok ())) rest \<and> statistics = Ok (Ok ()) \<and>
       resp = \<lparr>ecr_success = status_success status, ecr_exit_detail = extract_exit_detail status\<rparr>)"
proof -
  have stats: "res_bind (map_err StatisticsTaskPanicked statistics) (map_err StatisticsTaskFailed) = Ok u \<longleftrightarrow>
      statistics = Ok (Ok ())" for u
    by (auto simp: result_iffs)
  show ?thesis
    unfolding res_map_check [symmetric]
    by (auto simp: process_end_def res_bind_Ok_iff stats)
qed

text \<open>The texts of different exits differ.\<close>

lemma int_to_string_chars: "list_all (\<lambda>c. is_digit c \<or> c = CHR ''-'') (int_to_string i)"
  using nat_to_string_digits by (auto simp: int_to_string_def list_all_iff)

lemma nat_to_string_head: "nat_to_string n \<noteq> CHR ''-'' # s"
  using nat_to_string_digits [of n] by (auto simp: is_digit_def Let_def)

lemma int_to_string_inj: "int_to_string i = int_to_string j \<longleftrightarrow> i = j"
  using nat_to_string_head nat_to_string_head [symmetric]
  by (auto simp: int_to_string_def nat_to_string_inj split: if_splits)

lemma int_to_string_space: "takeWhile (\<lambda>c. c \<noteq> CHR '' '') (int_to_string i @ CHR '' '' # s) = int_to_string i"
proof -
  have "\<forall>c \<in> set (int_to_string i). c \<noteq> CHR '' ''"
    using int_to_string_chars [of i] by (auto simp: list_all_iff is_digit_def Let_def)
  then show ?thesis by (simp add: takeWhile_append2)
qed

lemma extract_exit_detail_inj:
  assumes "extract_exit_detail s = extract_exit_detail t" and "s \<noteq> StatusOther" and "t \<noteq> StatusOther"
  shows "s = t"
proof -
  have sig: "i = j" if "int_to_string i @ CHR '' '' # x = int_to_string j @ CHR '' '' # y" for i j x y
    using arg_cong [OF that, of "takeWhile (\<lambda>c. c \<noteq> CHR '' '')"]
    by (simp add: int_to_string_space int_to_string_inj)
  from assms show ?thesis
    by (cases s; cases t) (auto simp: int_to_string_inj Let_def split: prod.splits dest!: sig)
qed

text \<open>C13: a command is reported as finished exactly when its process exited, every kill that was
  asked for before could be delivered, no stream or statistics task failed and its stdin could be
  closed; the report says whether the exit code was zero, and its text determines the exit code
  or the signal.\<close>

theorem process_end_reports_exit:
  "(process_end events shutdown_sent rest statistics = Some (Ok resp) \<longleftrightarrow>
     (\<exists>pre status post. events = pre @ PeExited (Ok status) # post \<and> list_all harmless pre \<and>
        shutdown_sent \<and> list_all (\<lambda>t. t = Ok (Ok ())) rest \<and> statistics = Ok (Ok ()) \<and>
        ecr_success resp = (status = Exited 0) \<and> ecr_exit_detail resp = extract_exit_detail status)) \<and>
   (extract_exit_detail s = extract_exit_detail t \<and> s \<noteq> StatusOther \<and> t \<noteq> StatusOther \<longrightarrow> s = t)"
proof
  show "process_end events shutdown_sent rest statistics = Some (Ok resp) \<longleftrightarrow>
     (\<exists>pre status post. events = pre @ PeExited (Ok status) # post \<and> list_all harmless pre \<and>
        shutdown_sent \<and> list_all (\<lambda>t. t = Ok (Ok ())) rest \<and> statistics = Ok (Ok ()) \<and>
        ecr_success resp = (status = Exited 0) \<and> ecr_exit_detail resp = extract_exit_detail status)"
    unfolding process_end_Ok wait_loop_Ok by (cases resp) (auto simp: status_success_def)
qed (use extract_exit_detail_inj in blast)

theorem process_end_reports_exit_witness:
  "process_end [PeStdioTask (Ok (Ok ())), PeCancelled (Ok ()), PeExited (Ok (Signaled 9))] True
     [Ok (Ok ()), Ok (Ok ())] (Ok (Ok ())) =
   Some (Ok \<lparr>ecr_success = False, ecr_exit_detail = ''Exited with signal 9 (SIGKILL): kill program''\<rparr>)"
proof -
  let ?es = "[PeStdioTask (Ok (Ok ())), PeCancelled (Ok ()), PeExited (Ok (Signaled 9))]"
  let ?r = "\<lparr>ecr_success = False, ecr_exit_detail = ''Exited with signal 9 (SIGKILL): kill program''\<rparr>"
  have "extract_exit_detail (Signaled 9) = ''Exited with signal 9 (SIGKILL): kill program''" by code_simp
  moreover have "?es = [PeStdioTask (Ok (Ok ())), PeCancelled (Ok ())] @ PeExited (Ok (Signaled 9)) # []" by simp
  moreover have "list_all harmless [PeStdioTask (Ok (Ok ())), PeCancelled (Ok ())]" by simp
  ultimately show ?thesis
    using process_end_reports_exit [THEN conjunct1, THEN iffD2, of ?es True "[Ok (Ok ()), Ok (Ok ())]" "Ok (Ok ())" ?r]
    by fastforce
qed


subsection \<open>Jobs do not touch each other\<close>

text \<open>What an event means for a job: a packet that was received, a close of its stdin, a kill, a
  (re)start.\<close>

fun packet_for :: "job_id \<Rightarrow> process_event \<Rightarrow> string list" where
  "packet_for j (MpCommand (Some (Multiplexed i (PcStdin p))) _ True) = (if i = j then [p] else [])"
| "packet_for j _ = []"

fun closes :: "job_id \<Rightarrow> process_event \<Rightarrow> bool" where
  "closes j (MpCommand (Some (Multiplexed i PcStdinClose)) _ _) = (i = j)"
| "closes j (MpStdinShutdown (Some i)) = (i = j)"
| "closes j _ = False"

fun kills :: "job_id \<Rightarrow> process_event \<Rightarrow> bool" where
  "kills j (MpCommand (Some (Multiplexed i PcKill)) _ _) = (i = j)"
| "kills j _ = False"

fun starts :: "job_id \<Rightarrow> process_event \<Rightarrow> bool" where
  "starts j (MpCommand (Some (Multiplexed i (PcStart _))) _ _) = (i = j)"
| "starts j _ = False"

fun packets_until_close :: "job_id \<Rightarrow> process_event list \<Rightarrow> string list" where
  "packets_until_close j [] = []"
| "packets_until_close j (e # es) = (if closes j e then [] else packet_for j e @ packets_until_close j es)"

definition stdin_of_channel :: "nat \<Rightarrow> process_state \<Rightarrow> string list" where
  "stdin_of_channel k s = map snd (filter (\<lambda>(c, p). c = k) (ps_stdin s))"

text \<open>Channels and tokens are below the counter and used by one job.\<close>

definition allotted :: "nat \<Rightarrow> (job_id \<rightharpoonup> nat) \<Rightarrow> bool" where
  "allotted n m \<longleftrightarrow> (\<forall>j k. m j = Some k \<longrightarrow> k < n) \<and>
     (\<forall>i j k. m i = Some k \<and> m j = Some k \<longrightarrow> i = j)"

lemma allotted_new: "allotted n m \<Longrightarrow> allotted (Suc n) (m(j \<mapsto> n))"
  unfolding allotted_def by (auto simp: less_Suc_eq)

lemma allotted_delete: "allotted n m \<Longrightarrow> allotted n (m(j := None))"
  unfolding allotted_def by auto

lemma allotted_less: "allotted n m \<Longrightarrow> m j = Some k \<Longrightarrow> k < n"
  by (simp add: allotted_def)

lemma allotted_unique: "allotted n m \<Longrightarrow> m j = Some k \<Longrightarrow> m i = Some k \<Longrightarrow> i = j"
  unfolding allotted_def by blast

definition manage_inv :: "process_state \<Rightarrow> bool" where
  "manage_inv s \<longleftrightarrow> allotted (ps_next s) (ps_stdin_senders s) \<and> allotted (ps_next s) (ps_kill_tokens s) \<and>
     (\<forall>k \<in> set (ps_cancelled s). k < ps_next s \<and> (\<forall>j. ps_kill_tokens s j \<noteq> Some k)) \<and>
     (\<forall>x \<in> set (ps_stdin s). fst x < ps_next s)"

lemma manage_new_inv: "manage_inv (process_state_new p)"
  by (simp add: manage_inv_def process_state_new_def allotted_def)

lemma process_start_ok:
  "process_start texts acc job (Ok u) s = drop_guard (ps_kill_tokens s job)
     (s\<lparr>ps_stdin_senders := (ps_stdin_senders s)(job \<mapsto> ps_next s), ps_next := Suc (ps_next s),
        ps_kill_tokens := (ps_kill_tokens s)(job \<mapsto> ps_next s),
        ps_started := ps_started s @ [(job, ps_next s)]\<rparr>)"
  by (simp add: process_start_def process_begin_def Let_def)

lemma process_start_err:
  "ps_stdin_senders (process_start texts acc job (Err e) s) = ps_stdin_senders s"
  "ps_kill_tokens (process_start texts acc job (Err e) s) = ps_kill_tokens s"
  "ps_next (process_start texts acc job (Err e) s) = ps_next s"
  "ps_stdin (process_start texts acc job (Err e) s) = ps_stdin s"
  "ps_cancelled (process_start texts acc job (Err e) s) = ps_cancelled s"
  by (auto simp: process_start_def process_begin_def split: sum.splits)

lemma manage_inv_result: "manage_inv (s\<lparr>ps_result := r\<rparr>) = manage_inv s"
  by (simp add: manage_inv_def)

lemma process_start_inv: "manage_inv s \<Longrightarrow> manage_inv (process_start texts acc job spawned s)"
proof (cases spawned)
  case (Inl e)
  assume "manage_inv s"
  with Inl show ?thesis by (simp add: manage_inv_def process_start_err)
next
  case (Inr u)
  assume inv: "manage_inv s"
  then have "allotted (Suc (ps_next s)) ((ps_stdin_senders s)(job \<mapsto> ps_next s))"
    "allotted (Suc (ps_next s)) ((ps_kill_tokens s)(job \<mapsto> ps_next s))"
    by (simp_all add: manage_inv_def allotted_new)
  moreover have "k < ps_next s" "\<forall>j. j \<noteq> job \<longrightarrow> ps_kill_tokens s j \<noteq> Some k" if "ps_kill_tokens s job = Some k" for k
    using that inv allotted_less allotted_unique by (auto simp: manage_inv_def)
  ultimately show ?thesis
    using inv unfolding Inr process_start_ok
    by (cases "ps_kill_tokens s job") (auto simp: manage_inv_def drop_guard_def less_Suc_eq)
qed

lemma process_stdin_inv: "manage_inv s \<Longrightarrow> manage_inv (process_stdin job p received s)"
  using allotted_less by (auto simp: process_stdin_def manage_inv_def split: option.splits)

lemma process_close_inv: "manage_inv s \<Longrightarrow> manage_inv (process_stdin_close job s)"
  by (auto simp: process_stdin_close_def manage_inv_def allotted_delete)

lemma process_kill_inv:
  assumes "manage_inv s" shows "manage_inv (process_kill job s)"
proof (cases "ps_kill_tokens s job")
  case None
  with assms show ?thesis by (simp add: process_kill_def drop_guard_def manage_inv_def allotted_delete)
next
  case (Some k)
  have "k < ps_next s" and "\<forall>i. i \<noteq> job \<longrightarrow> ps_kill_tokens s i \<noteq> Some k"
    using Some assms allotted_less allotted_unique unfolding manage_inv_def by blast+
  with Some assms show ?thesis
    by (simp add: process_kill_def drop_guard_def manage_inv_def allotted_delete)
qed

lemma manage_step_inv: "manage_inv s \<Longrightarrow> manage_inv (manage_step texts acc s e)"
proof (cases "(texts, acc, s, e)" rule: manage_step.cases)
  case (2 texts' acc' s' job cmd spawned received)
  assume "manage_inv s"
  with 2 show ?thesis
    by (cases cmd) (simp_all add: process_start_inv process_stdin_inv process_close_inv process_kill_inv)
qed (simp_all add: manage_inv_result process_close_inv split: sum.split)

interpretation mp: event_loop manage_enabled "manage_step texts acc" manage_inv for texts acc
  by unfold_locales (rule manage_step_inv)

text \<open>The channel of a job and nobody else's.\<close>

lemma channel_step:
  assumes "manage_inv s" and "ps_stdin_senders s j = Some k" and "\<not> starts j e"
  shows "stdin_of_channel k (manage_step texts acc s e) = stdin_of_channel k s @ packet_for j e \<and>
    ps_stdin_senders (manage_step texts acc s e) j = (if closes j e then None else Some k)"
proof -
  have other: "ps_stdin_senders s i = Some k \<Longrightarrow> i = j" for i
    using assms(1,2) allotted_unique by (auto simp: manage_inv_def)
  show ?thesis
  proof (cases "(texts, acc, s, e)" rule: manage_step.cases)
    case (2 texts acc s' job cmd spawned received)
    then have e: "s' = s" "e = MpCommand (Some (Multiplexed job cmd)) spawned received" by simp_all
    show ?thesis
    proof (cases cmd)
      case (PcStart req)
      with assms(3) e have "job \<noteq> j" by simp
      then show ?thesis
        using assms(2) PcStart e
        by (cases spawned) (auto simp: process_start_err process_start_ok drop_guard_def stdin_of_channel_def split: option.split)
    next
      case (PcStdin p)
      then show ?thesis
        using assms(2) other [of job] e
        by (cases "ps_stdin_senders s job"; cases received)
           (auto simp: process_stdin_def stdin_of_channel_def)
    next
      case PcStdinClose
      then show ?thesis using assms(2) e by (simp add: process_stdin_close_def stdin_of_channel_def)
    next
      case PcKill
      then show ?thesis using assms(2) e
        by (simp add: process_kill_def drop_guard_def stdin_of_channel_def split: option.split)
    qed
  qed (use assms(2) in \<open>auto simp: stdin_of_channel_def process_stdin_close_def split: sum.split\<close>)
qed

lemma silent_step:
  assumes "manage_inv s" and "k < ps_next s" and "\<forall>j. ps_stdin_senders s j \<noteq> Some k"
  shows "stdin_of_channel k (manage_step texts acc s e) = stdin_of_channel k s \<and>
    k < ps_next (manage_step texts acc s e) \<and> (\<forall>j. ps_stdin_senders (manage_step texts acc s e) j \<noteq> Some k)"
proof (cases "(texts, acc, s, e)" rule: manage_step.cases)
  case (2 texts acc s' job cmd spawned received)
  then have e: "s' = s" "e = MpCommand (Some (Multiplexed job cmd)) spawned received" by simp_all
  show ?thesis
  proof (cases cmd)
    case (PcStart req)
    then show ?thesis
      using assms(2,3) e
      by (cases spawned) (auto simp: process_start_err process_start_ok drop_guard_def stdin_of_channel_def split: option.split)
  next
    case (PcStdin p)
    then show ?thesis
      using assms(2,3) e
      by (cases "ps_stdin_senders s job"; cases received) (auto simp: process_stdin_def stdin_of_channel_def)
  next
    case PcStdinClose
    then show ?thesis using assms(2,3) e by (simp add: process_stdin_close_def stdin_of_channel_def)
  next
    case PcKill
    then show ?thesis using assms(2,3) e
      by (simp add: process_kill_def drop_guard_def stdin_of_channel_def split: option.split)
  qed
qed (use assms(2,3) in \<open>auto simp: stdin_of_channel_def process_stdin_close_def split: sum.split\<close>)


lemma cancelled_mono: "set (ps_cancelled s) \<subseteq> set (ps_cancelled (manage_step texts acc s e))"
proof (cases "(texts, acc, s, e)" rule: manage_step.cases)
  case (2 texts' acc' s' job cmd spawned received)
  then show ?thesis
    by (cases cmd; cases spawned)
       (auto simp: process_start_err process_start_ok process_stdin_def process_stdin_close_def process_kill_def
         drop_guard_def split: option.splits)
qed (auto simp: process_stdin_close_def split: sum.split)

lemma token_step:
  assumes "ps_kill_tokens s j = Some k" and "\<not> starts j e"
  shows "if kills j e then k \<in> set (ps_cancelled (manage_step texts acc s e))
    else ps_kill_tokens (manage_step texts acc s e) j = Some k"
proof (cases "(texts, acc, s, e)" rule: manage_step.cases)
  case (2 texts' acc' s' job cmd spawned received)
  with assms show ?thesis
    by (cases cmd; cases spawned)
       (auto simp: process_start_err process_start_ok process_stdin_def process_stdin_close_def process_kill_def
         drop_guard_def split: option.splits)
qed (use assms in \<open>auto simp: process_stdin_close_def split: sum.split\<close>)

lemma silent_run:
  "manage_inv s \<Longrightarrow> k < ps_next s \<Longrightarrow> \<forall>j. ps_stdin_senders s j \<noteq> Some k \<Longrightarrow>
   stdin_of_channel k (foldl (manage_step texts acc) s es) = stdin_of_channel k s"
proof (induction es arbitrary: s)
  case (Cons e es)
  then show ?case
    using silent_step [OF Cons.prems, of texts acc e] manage_step_inv by simp
qed simp

lemma cancelled_run_mono: "set (ps_cancelled s) \<subseteq> set (ps_cancelled (foldl (manage_step texts acc) s es))"
proof (induction es arbitrary: s)
  case (Cons e es)
  with cancelled_mono [of s texts acc e] show ?case by (simp add: subset_trans)
qed simp

lemma channel_run:
  "manage_inv s \<Longrightarrow> ps_stdin_senders s j = Some k \<Longrightarrow> \<forall>e \<in> set es. \<not> starts j e \<Longrightarrow>
   stdin_of_channel k (foldl (manage_step texts acc) s es) = stdin_of_channel k s @ packets_until_close j es"
proof (induction es arbitrary: s)
  case (Cons e es)
  let ?s = "manage_step texts acc s e"
  have step: "stdin_of_channel k ?s = stdin_of_channel k s @ packet_for j e"
    "ps_stdin_senders ?s j = (if closes j e then None else Some k)" "manage_inv ?s"
    using channel_step [OF Cons.prems(1,2)] Cons.prems(3) manage_step_inv [OF Cons.prems(1)] by auto
  show ?case
  proof (cases "closes j e")
    case False
    with Cons.IH [OF step(3)] step Cons.prems(3) show ?thesis by simp
  next
    case True
    have packet: "packet_for j e = []" using True by (cases "(j, e)" rule: closes.cases) auto
    have "ps_stdin_senders ?s i \<noteq> Some k" for i
    proof (cases "i = j")
      case False
      then have "ps_stdin_senders s i \<noteq> Some k"
        using Cons.prems(1,2) allotted_unique by (auto simp: manage_inv_def)
      moreover have "ps_stdin_senders ?s i = ps_stdin_senders s i"
        using True False by (cases "(j, e)" rule: closes.cases) (auto simp: process_stdin_close_def)
      ultimately show ?thesis by simp
    qed (use step(2) True in simp)
    moreover have "k < ps_next ?s"
    proof -
      have "k < ps_next s" using Cons.prems(1,2) allotted_less unfolding manage_inv_def by blast
      then show ?thesis using True by (cases "(j, e)" rule: closes.cases) (auto simp: process_stdin_close_def)
    qed
    ultimately show ?thesis using silent_run [OF step(3)] step(1) packet True by simp
  qed
qed simp

lemma token_run:
  "manage_inv s \<Longrightarrow> ps_kill_tokens s j = Some k \<Longrightarrow> \<forall>e \<in> set es. \<not> starts j e \<Longrightarrow>
   k \<in> set (ps_cancelled (foldl (manage_step texts acc) s es)) \<longleftrightarrow> (\<exists>e \<in> set es. kills j e)"
proof (induction es arbitrary: s)
  case Nil
  then show ?case by (auto simp: manage_inv_def)
next
  case (Cons e es)
  have step: "if kills j e then k \<in> set (ps_cancelled (manage_step texts acc s e))
      else ps_kill_tokens (manage_step texts acc s e) j = Some k"
    using token_step [OF Cons.prems(2)] Cons.prems(3) by auto
  show ?case
  proof (cases "kills j e")
    case True
    with step cancelled_run_mono [of "manage_step texts acc s e" texts acc es] show ?thesis by auto
  next
    case False
    with step Cons.IH [OF manage_step_inv [OF Cons.prems(1)]] Cons.prems(3) show ?thesis by simp
  qed
qed

lemma process_started:
  assumes "enabled_run manage_enabled (manage_step texts acc) (process_state_new path) (pre @ e # post)"
    and "e = MpCommand (Some (Multiplexed j (PcStart req))) (Ok ()) received"
  defines "k \<equiv> ps_next (foldl (manage_step texts acc) (process_state_new path) pre)"
    and "s \<equiv> foldl (manage_step texts acc) (process_state_new path) (pre @ [e])"
  shows "manage_inv s" and "ps_stdin_senders s j = Some k" and "ps_kill_tokens s j = Some k"
    and "stdin_of_channel k s = []"
proof -
  let ?s0 = "foldl (manage_step texts acc) (process_state_new path) pre"
  have s: "s = manage_step texts acc ?s0 e" by (simp add: s_def)
  have inv: "manage_inv ?s0" by (rule mp.run_inv_prefix [OF manage_new_inv assms(1)])
  then show "manage_inv s" unfolding s by (rule manage_step_inv)
  show "ps_stdin_senders s j = Some k" "ps_kill_tokens s j = Some k"
    by (auto simp: s assms(2) process_start_ok drop_guard_def k_def split: option.split)
  have "ps_stdin s = ps_stdin ?s0"
    by (auto simp: s assms(2) process_start_ok drop_guard_def split: option.split)
  then show "stdin_of_channel k s = []"
    using inv unfolding manage_inv_def stdin_of_channel_def k_def by (auto simp: filter_empty_conv)
qed



end
