(* ===== verification/Resource_Limits.thy ===== *)
theory Resource_Limits
  imports Coordinator_Core
begin

text \<open>
  \<open>orchestrator/src/coordinator/limits.rs\<close> (\<open>Global\<close>, its permits and acquire guards) and the
  \<open>LifecycleMetrics\<close> of \<open>ui/src/main.rs\<close> that watches it. A request for a container or a process
  is a future: it is created, polled, maybe waits for a semaphore, ends in a permit or in an
  error, and may be dropped at any time. The two semaphores are tokio's: what the code relies on,
  that a permit is granted only while fewer are out than there are, is part of \<open>limits_enabled\<close>.
  The lifecycle hooks are kept as the list of calls.
\<close>

subsection \<open>Lifecycle hooks\<close>

datatype acquisition = Acquired | Aborted | AcquisitionError

definition from_result :: "('e, 'a) result \<Rightarrow> acquisition" where
  "from_result r = (case r of Ok _ \<Rightarrow> Acquired | Err _ \<Rightarrow> AcquisitionError)"

datatype hook =
    ContainerStart | ContainerAcquired acquisition | ContainerRelease
  | ProcessStart | ProcessAcquired acquisition | ProcessRelease

fun show_acquisition :: "acquisition \<Rightarrow> string" where
  "show_acquisition Acquired = ''Acquired''"
| "show_acquisition Aborted = ''Aborted''"
| "show_acquisition AcquisitionError = ''Error''"

text \<open>\<open>StderrLifecycle\<close> prints a line for each call.\<close>

fun stderr_line :: "hook \<Rightarrow> string" where
  "stderr_line ContainerStart = ''container_start''"
| "stderr_line (ContainerAcquired how) = ''container_acquired '' @ show_acquisition how"
| "stderr_line ContainerRelease = ''container_release''"
| "stderr_line ProcessStart = ''process_start''"
| "stderr_line (ProcessAcquired how) = ''process_acquired '' @ show_acquisition how"
| "stderr_line ProcessRelease = ''process_release''"

text \<open>\<open>LifecycleMetrics\<close> moves four gauges.\<close>

record gauges =
  container_queue :: int
  container_active :: int
  process_queue :: int
  process_active :: int

definition zero_gauges :: gauges where
  "zero_gauges = \<lparr>container_queue = 0, container_active = 0, process_queue = 0, process_active = 0\<rparr>"

fun lifecycle_metrics :: "gauges \<Rightarrow> hook \<Rightarrow> gauges" where
  "lifecycle_metrics g ContainerStart = g\<lparr>container_queue := container_queue g + 1\<rparr>"
| "lifecycle_metrics g (ContainerAcquired how) =
     (let g = g\<lparr>container_queue := container_queue g - 1\<rparr>
      in if how = Acquired then g\<lparr>container_active := container_active g + 1\<rparr> else g)"
| "lifecycle_metrics g ContainerRelease = g\<lparr>container_active := container_active g - 1\<rparr>"
| "lifecycle_metrics g ProcessStart = g\<lparr>process_queue := process_queue g + 1\<rparr>"
| "lifecycle_metrics g (ProcessAcquired how) =
     (let g = g\<lparr>process_queue := process_queue g - 1\<rparr>
      in if how = Acquired then g\<lparr>process_active := process_active g + 1\<rparr> else g)"
| "lifecycle_metrics g ProcessRelease = g\<lparr>process_active := process_active g - 1\<rparr>"

subsection \<open>\<open>Global\<close>\<close>

text \<open>
  Where the future of a request is: not polled yet, waiting for the semaphore, its permit held by
  whoever asked, or gone (refused, dropped or given back).
\<close>

datatype permit_state = Requested | Waiting | Held | Gone

datatype try_acquire_error = NoPermits | TryClosed
datatype acquire_error = AcquireClosed

text \<open>
  Requests are numbered in the order they are made; \<open>lm_ids\<close> has the counter value each container
  request took. \<open>lm_requested\<close> is the number of permits of \<open>container_request_semaphore\<close>.
\<close>

record limits =
  lm_container_limit :: nat
  lm_process_limit :: nat
  lm_start :: nat
  lm_next_id :: u64
  lm_ids :: "u64 list"
  lm_containers :: "permit_state list"
  lm_processes :: "permit_state list"
  lm_requested :: nat
  lm_hooks :: "hook list"

definition with_lifecycle :: "nat \<Rightarrow> nat \<Rightarrow> nat \<Rightarrow> limits" where
  "with_lifecycle container_limit process_limit start =
     \<lparr>lm_container_limit = container_limit, lm_process_limit = process_limit, lm_start = start,
      lm_next_id = 0, lm_ids = [], lm_containers = [], lm_processes = [], lm_requested = 0, lm_hooks = []\<rparr>"

definition call_hook :: "hook \<Rightarrow> limits \<Rightarrow> limits" where
  "call_hook x s = s\<lparr>lm_hooks := lm_hooks s @ [x]\<rparr>"

text \<open>The acquire guards: \<open>complete\<close> records the result, the drop reports it.\<close>

definition container_guard_complete :: "nat \<Rightarrow> ('e, unit) result \<Rightarrow> limits \<Rightarrow> limits" where
  "container_guard_complete i r s =
     call_hook (ContainerAcquired (from_result r))
       (s\<lparr>lm_containers := (lm_containers s)[i := (if is_ok r then Held else Gone)]\<rparr>)"

definition process_guard_complete :: "nat \<Rightarrow> ('e, unit) result \<Rightarrow> limits \<Rightarrow> limits" where
  "process_guard_complete i r s =
     call_hook (ProcessAcquired (from_result r))
       (s\<lparr>lm_processes := (lm_processes s)[i := (if is_ok r then Held else Gone)]\<rparr>)"

text \<open>\<open>next_container\<close>: the counter is advanced by the call, the rest by polling the future.\<close>

definition next_container :: "limits \<Rightarrow> limits" where
  "next_container s = s\<lparr>lm_next_id := lm_next_id s + 1, lm_ids := lm_ids s @ [lm_next_id s],
     lm_containers := lm_containers s @ [Requested]\<rparr>"

definition poll_container :: "nat \<Rightarrow> (try_acquire_error, unit) result \<Rightarrow> limits \<Rightarrow> limits" where
  "poll_container i tried s =
     (let s = call_hook ContainerStart s
      in case tried of
           Ok u \<Rightarrow> container_guard_complete i (Ok u :: (try_acquire_error, unit) result) s
         | Err NoPermits \<Rightarrow>
             s\<lparr>lm_requested := lm_requested s + 1, lm_containers := (lm_containers s)[i := Waiting]\<rparr>
         | Err TryClosed \<Rightarrow> container_guard_complete i tried s)"

definition grant_container :: "nat \<Rightarrow> (acquire_error, unit) result \<Rightarrow> limits \<Rightarrow> limits" where
  "grant_container i acquired s = container_guard_complete i acquired s"

text \<open>Dropping the future (with the guard, once it was polled) or the permit.\<close>

definition drop_container :: "nat \<Rightarrow> limits \<Rightarrow> limits" where
  "drop_container i s =
     (let gone = s\<lparr>lm_containers := (lm_containers s)[i := Gone]\<rparr>
      in case lm_containers s ! i of
           Requested \<Rightarrow> gone
         | Waiting \<Rightarrow> call_hook (ContainerAcquired Aborted) gone
         | Held \<Rightarrow> call_hook ContainerRelease gone
         | Gone \<Rightarrow> s)"

text \<open>\<open>container_requested\<close> takes a permit and forgets it.\<close>

definition container_requested :: "limits \<Rightarrow> limits" where
  "container_requested s = s\<lparr>lm_requested := lm_requested s - 1\<rparr>"

definition next_process :: "limits \<Rightarrow> limits" where
  "next_process s = s\<lparr>lm_processes := lm_processes s @ [Requested]\<rparr>"

text \<open>The first poll of a process request may find a permit at once.\<close>

definition poll_process :: "nat \<Rightarrow> (acquire_error, unit) result option \<Rightarrow> limits \<Rightarrow> limits" where
  "poll_process i ready s =
     (let s = call_hook ProcessStart s
      in case ready of
           Some r \<Rightarrow> process_guard_complete i r s
         | None \<Rightarrow> s\<lparr>lm_processes := (lm_processes s)[i := Waiting]\<rparr>)"

definition grant_process :: "nat \<Rightarrow> (acquire_error, unit) result \<Rightarrow> limits \<Rightarrow> limits" where
  "grant_process i acquired s = process_guard_complete i acquired s"

definition drop_process :: "nat \<Rightarrow> limits \<Rightarrow> limits" where
  "drop_process i s =
     (let gone = s\<lparr>lm_processes := (lm_processes s)[i := Gone]\<rparr>
      in case lm_processes s ! i of
           Requested \<Rightarrow> gone
         | Waiting \<Rightarrow> call_hook (ProcessAcquired Aborted) gone
         | Held \<Rightarrow> call_hook ProcessRelease gone
         | Gone \<Rightarrow> s)"

text \<open>\<open>Display\<close> of a container permit.\<close>

definition show_permit :: "nat \<Rightarrow> u64 \<Rightarrow> string" where
  "show_permit start i = nat_to_string start @ ''-'' @ nat_to_string (unat i)"

subsection \<open>Runs\<close>

datatype limits_event =
    NextContainer
  | PollContainer nat "(try_acquire_error, unit) result"
  | GrantContainer nat "(acquire_error, unit) result"
  | DropContainer nat
  | ContainerRequested
  | NextProcess
  | PollProcess nat "(acquire_error, unit) result option"
  | GrantProcess nat "(acquire_error, unit) result"
  | DropProcess nat

fun limits_step :: "limits \<Rightarrow> limits_event \<Rightarrow> limits" where
  "limits_step s NextContainer = next_container s"
| "limits_step s (PollContainer i tried) = poll_container i tried s"
| "limits_step s (GrantContainer i acquired) = grant_container i acquired s"
| "limits_step s (DropContainer i) = drop_container i s"
| "limits_step s ContainerRequested = container_requested s"
| "limits_step s NextProcess = next_process s"
| "limits_step s (PollProcess i ready) = poll_process i ready s"
| "limits_step s (GrantProcess i acquired) = grant_process i acquired s"
| "limits_step s (DropProcess i) = drop_process i s"

definition held :: "permit_state list \<Rightarrow> nat" where
  "held ps = count_list ps Held"

definition waiting :: "permit_state list \<Rightarrow> nat" where
  "waiting ps = count_list ps Waiting"

definition in_state :: "permit_state \<Rightarrow> permit_state list \<Rightarrow> nat \<Rightarrow> bool" where
  "in_state st ps i = (i < length ps \<and> ps ! i = st)"

text \<open>Tokio grants a permit only when one is left, and only a future that is polled acquires.\<close>

fun limits_enabled :: "limits \<Rightarrow> limits_event \<Rightarrow> bool" where
  "limits_enabled s (PollContainer i tried) =
     (in_state Requested (lm_containers s) i \<and> (is_ok tried \<longrightarrow> held (lm_containers s) < lm_container_limit s))"
| "limits_enabled s (GrantContainer i acquired) =
     (in_state Waiting (lm_containers s) i \<and> (is_ok acquired \<longrightarrow> held (lm_containers s) < lm_container_limit s))"
| "limits_enabled s (DropContainer i) = (i < length (lm_containers s))"
| "limits_enabled s ContainerRequested = (0 < lm_requested s)"
| "limits_enabled s (PollProcess i ready) =
     (in_state Requested (lm_processes s) i \<and> (ready = Some (Ok ()) \<longrightarrow> held (lm_processes s) < lm_process_limit s))"
| "limits_enabled s (GrantProcess i acquired) =
     (in_state Waiting (lm_processes s) i \<and> (is_ok acquired \<longrightarrow> held (lm_processes s) < lm_process_limit s))"
| "limits_enabled s (DropProcess i) = (i < length (lm_processes s))"
| "limits_enabled s _ = True"

definition gauges_of :: "limits \<Rightarrow> gauges" where
  "gauges_of s = foldl lifecycle_metrics zero_gauges (lm_hooks s)"

definition limits_inv :: "limits \<Rightarrow> bool" where
  "limits_inv s \<longleftrightarrow>
     held (lm_containers s) \<le> lm_container_limit s \<and> held (lm_processes s) \<le> lm_process_limit s \<and>
     gauges_of s = \<lparr>container_queue = int (waiting (lm_containers s)), container_active = int (held (lm_containers s)),
       process_queue = int (waiting (lm_processes s)), process_active = int (held (lm_processes s))\<rparr>"

lemma count_update: "i < length xs \<Longrightarrow>
    count_list (xs[i := y]) x + (if xs ! i = x then 1 else 0) = count_list xs x + (if y = x then 1 else 0)"
proof (induction xs arbitrary: i)
  case (Cons a xs)
  show ?case
  proof (cases i)
    case (Suc j)
    with Cons.prems Cons.IH [of j] show ?thesis by (auto split: if_splits)
  qed auto
qed simp

lemma held_update: "i < length ps \<Longrightarrow>
    held (ps[i := st]) + (if ps ! i = Held then 1 else 0) = held ps + (if st = Held then 1 else 0)"
  unfolding held_def by (rule count_update)

lemma waiting_update: "i < length ps \<Longrightarrow>
    waiting (ps[i := st]) + (if ps ! i = Waiting then 1 else 0) = waiting ps + (if st = Waiting then 1 else 0)"
  unfolding waiting_def by (rule count_update)

lemma held_snoc [simp]: "held (ps @ [Requested]) = held ps" "waiting (ps @ [Requested]) = waiting ps"
  by (simp_all add: held_def waiting_def)

lemma gauges_call_hook [simp]: "gauges_of (call_hook x s) = lifecycle_metrics (gauges_of s) x"
  by (simp add: gauges_of_def call_hook_def)

lemma gauges_of_updates [simp]:
  "gauges_of (s\<lparr>lm_containers := cs\<rparr>) = gauges_of s" "gauges_of (s\<lparr>lm_processes := ps\<rparr>) = gauges_of s"
  "gauges_of (s\<lparr>lm_requested := n\<rparr>) = gauges_of s"
  "gauges_of (s\<lparr>lm_requested := n, lm_containers := cs\<rparr>) = gauges_of s"
  "gauges_of (s\<lparr>lm_next_id := k, lm_ids := ids\<rparr>) = gauges_of s"
  by (simp_all add: gauges_of_def)

lemma call_hook_fields [simp]:
  "lm_containers (call_hook x s) = lm_containers s" "lm_processes (call_hook x s) = lm_processes s"
  "lm_container_limit (call_hook x s) = lm_container_limit s" "lm_process_limit (call_hook x s) = lm_process_limit s"
  "lm_ids (call_hook x s) = lm_ids s" "lm_next_id (call_hook x s) = lm_next_id s"
  "lm_start (call_hook x s) = lm_start s" "lm_requested (call_hook x s) = lm_requested s"
  by (simp_all add: call_hook_def)

lemmas limits_ops = next_container_def poll_container_def grant_container_def drop_container_def
  container_requested_def next_process_def poll_process_def grant_process_def drop_process_def
  container_guard_complete_def process_guard_complete_def from_result_def Let_def

lemma limits_step_inv: "limits_inv s \<Longrightarrow> limits_enabled s e \<Longrightarrow> limits_inv (limits_step s e)"
  by (cases "(s, e)" rule: limits_enabled.cases)
     (auto simp: limits_inv_def limits_ops in_state_def is_ok_def
        dest: held_update [where st = Held] held_update [where st = Gone] held_update [where st = Waiting]
          waiting_update [where st = Held] waiting_update [where st = Gone] waiting_update [where st = Waiting]
        split: sum.splits try_acquire_error.splits option.splits permit_state.splits if_splits)

interpretation li: event_loop limits_enabled limits_step limits_inv
  by unfold_locales (rule limits_step_inv)

lemma limits_start_inv: "limits_inv (with_lifecycle cl pl start)"
  by (simp add: limits_inv_def with_lifecycle_def gauges_of_def zero_gauges_def held_def waiting_def)

lemma limits_step_fixed: "lm_container_limit (limits_step s e) = lm_container_limit s \<and>
    lm_process_limit (limits_step s e) = lm_process_limit s \<and> lm_start (limits_step s e) = lm_start s"
  by (cases e) (auto simp: limits_ops split: sum.splits try_acquire_error.splits option.splits permit_state.splits)

lemma limits_run_fixed: "lm_container_limit (foldl limits_step s es) = lm_container_limit s \<and>
    lm_process_limit (foldl limits_step s es) = lm_process_limit s \<and> lm_start (foldl limits_step s es) = lm_start s"
  by (induction es arbitrary: s) (simp_all add: limits_step_fixed)

text \<open>A poll that found no container permit.\<close>

fun must_wait :: "limits_event \<Rightarrow> bool" where
  "must_wait (PollContainer _ tried) = (tried = Err NoPermits)"
| "must_wait _ = False"

lemma limits_step_requested: "limits_enabled s e \<Longrightarrow>
    lm_requested (limits_step s e) + (if e = ContainerRequested then 1 else 0) =
    lm_requested s + (if must_wait e then 1 else 0)"
  by (cases "(s, e)" rule: limits_enabled.cases)
    (auto simp: limits_ops split: sum.splits try_acquire_error.splits option.splits permit_state.splits)

lemma limits_run_requested: "enabled_run limits_enabled limits_step s es \<Longrightarrow>
    lm_requested (foldl limits_step s es) + count_list es ContainerRequested =
    lm_requested s + length (filter must_wait es)"
proof (induction es arbitrary: s)
  case (Cons e es)
  then have "limits_enabled s e" and "enabled_run limits_enabled limits_step (limits_step s e) es" by simp_all
  from Cons.IH [OF this(2)] limits_step_requested [OF this(1)] show ?case by (auto split: if_splits)
qed simp

text \<open>The counter values of the requests are consecutive.\<close>

definition counted :: "limits \<Rightarrow> bool" where
  "counted s \<longleftrightarrow> lm_ids s = next_ids (length (lm_containers s)) 0 \<and>
     lm_next_id s = of_nat (length (lm_containers s))"

lemma limits_step_counted: "counted s \<Longrightarrow> counted (limits_step s e)"
  by (cases e) (auto simp: counted_def next_ids_eq limits_ops
      split: sum.splits try_acquire_error.splits option.splits permit_state.splits)

lemma limits_run_counted: "counted s \<Longrightarrow> counted (foldl limits_step s es)"
  by (induction es arbitrary: s) (simp_all add: limits_step_counted)

lemma show_permit_inj: "show_permit start i = show_permit start j \<longleftrightarrow> i = j"
  by (simp add: show_permit_def nat_to_string_inj word_unat_eq_iff)

definition permit_names :: "limits \<Rightarrow> string list" where
  "permit_names s = map (\<lambda>i. container_name (show_permit (lm_start s) i)) (lm_ids s)"

lemma counted_names: "counted s \<Longrightarrow> length (lm_ids s) \<le> 2 ^ 64 \<Longrightarrow> distinct (permit_names s)"
proof -
  assume c: "counted s" and len: "length (lm_ids s) \<le> 2 ^ 64"
  have "length (lm_ids s) = length (lm_containers s)" using c by (simp add: counted_def next_ids_eq)
  with c next_ids_distinct [of "length (lm_containers s)" 0] len have "distinct (lm_ids s)"
    by (simp add: counted_def)
  then show ?thesis by (simp add: permit_names_def distinct_map inj_on_def container_name_def show_permit_inj)
qed

subsection \<open>Properties\<close>


definition sample_limits_run :: "limits_event list" where
  "sample_limits_run = [NextContainer, NextContainer, PollContainer 0 (Ok ()), PollContainer 1 (Err NoPermits),
     NextProcess, PollProcess 0 None, DropContainer 0, GrantContainer 1 (Ok ()), GrantProcess 0 (Ok ())]"


text \<open>Container names are unique: the names of all containers ever asked for from one
  \<open>Global\<close>, granted or not, are different, up to 2^64 of them.\<close>

theorem container_names_unique:
  assumes "length (lm_ids (foldl limits_step (with_lifecycle cl pl start) es)) \<le> 2 ^ 64"
  shows "distinct (permit_names (foldl limits_step (with_lifecycle cl pl start) es)) \<and>
    length (permit_names (foldl limits_step (with_lifecycle cl pl start) es)) =
      length (lm_containers (foldl limits_step (with_lifecycle cl pl start) es))"
proof -
  have "counted (with_lifecycle cl pl start)" by (simp add: counted_def with_lifecycle_def)
  from limits_run_counted [OF this, of es] show ?thesis
    using counted_names assms by (simp add: permit_names_def counted_def next_ids_eq)
qed

theorem container_names_unique_witness:
  "distinct (permit_names (foldl limits_step (with_lifecycle 1 1 99) sample_limits_run))"
  using container_names_unique [of 1 1 99 sample_limits_run]
  by (simp add: sample_limits_run_def with_lifecycle_def limits_ops call_hook_def)

end
