(* ===== verification/Json_Std.thy ===== *)
theory Json_Std
  imports Messages
begin

text \<open>
  JSON values, and how the derived \<open>Deserialize\<close> of a struct reads one with \<open>serde_json\<close>: from an
  object by its keys, of which unknown ones are ignored and known ones must not repeat, or from an
  array by position. A field with \<open>#[serde(default)]\<close> may be missing, an \<open>Option\<close> field may be
  missing from an object, \<open>null\<close> is the empty option. Errors are not told apart: the code only
  prints them.
\<close>

datatype json =
    JNull | JBool bool | JInt int | JFloat f64 | JString string
  | JArray "json list" | JObject "(string \<times> json) list"

text \<open>The fields found, and whether they came with their names.\<close>

type_synonym struct_source = "bool \<times> (string \<rightharpoonup> json)"

definition struct_source :: "string list \<Rightarrow> json \<Rightarrow> struct_source option" where
  "struct_source names j = (case j of
     JObject kvs \<Rightarrow>
       if distinct (filter (\<lambda>k. k \<in> set names) (map fst kvs)) then Some (True, map_of kvs) else None
   | JArray vs \<Rightarrow> if length vs \<le> length names then Some (False, map_of (zip names vs)) else None
   | _ \<Rightarrow> None)"

definition field :: "struct_source \<Rightarrow> string \<Rightarrow> (json \<Rightarrow> 'a option) \<Rightarrow> 'a option" where
  "field src k de = Option.bind (snd src k) de"

definition field_default :: "'a \<Rightarrow> struct_source \<Rightarrow> string \<Rightarrow> (json \<Rightarrow> 'a option) \<Rightarrow> 'a option" where
  "field_default d src k de = (case snd src k of None \<Rightarrow> Some d | Some j \<Rightarrow> de j)"

definition js_option :: "(json \<Rightarrow> 'a option) \<Rightarrow> json \<Rightarrow> 'a option option" where
  "js_option de j = (if j = JNull then Some None else map_option Some (de j))"

definition field_option :: "struct_source \<Rightarrow> string \<Rightarrow> (json \<Rightarrow> 'a option) \<Rightarrow> 'a option option" where
  "field_option src k de = (case snd src k of
     None \<Rightarrow> if fst src then Some None else None
   | Some j \<Rightarrow> js_option de j)"

fun js_string :: "json \<Rightarrow> string option" where
  "js_string (JString s) = Some s" | "js_string _ = None"

fun js_bool :: "json \<Rightarrow> bool option" where
  "js_bool (JBool b) = Some b" | "js_bool _ = None"

text \<open>\<open>i64\<close>: integers out of range are refused.\<close>

fun js_i64 :: "json \<Rightarrow> int option" where
  "js_i64 (JInt i) = (if - (2 ^ 63) \<le> i \<and> i < 2 ^ 63 then Some i else None)" | "js_i64 _ = None"

fun js_elems :: "(json \<Rightarrow> 'a option) \<Rightarrow> json list \<Rightarrow> 'a list option" where
  "js_elems de [] = Some []"
| "js_elems de (j # js) = Option.bind (de j) (\<lambda>x. map_option (Cons x) (js_elems de js))"

fun js_list :: "(json \<Rightarrow> 'a option) \<Rightarrow> json \<Rightarrow> 'a list option" where
  "js_list de (JArray js) = js_elems de js" | "js_list de _ = None"

definition ser_option :: "('a \<Rightarrow> json) \<Rightarrow> 'a option \<Rightarrow> json" where
  "ser_option ser x = (case x of None \<Rightarrow> JNull | Some a \<Rightarrow> ser a)"

lemma struct_source_object [simp]: "struct_source names (JObject kvs) =
    (if distinct (filter (\<lambda>k. k \<in> set names) (map fst kvs)) then Some (True, map_of kvs) else None)"
  by (simp add: struct_source_def)

lemma field_simps [simp]:
  "m k = Some j \<Longrightarrow> field (b, m) k de = de j"
  "m k = Some j \<Longrightarrow> field_default d (b, m) k de = de j"
  "m k = None \<Longrightarrow> field_default d (b, m) k de = Some d"
  by (simp_all add: field_def field_default_def)

lemma js_option_ser: "(\<And>a. de (ser a) = Some a) \<Longrightarrow> (\<And>a. ser a \<noteq> JNull) \<Longrightarrow>
    js_option de (ser_option ser x) = Some x"
  by (cases x) (auto simp: js_option_def ser_option_def)

lemma field_option_ser: "m k = Some (ser_option ser x) \<Longrightarrow> (\<And>a. de (ser a) = Some a) \<Longrightarrow>
    (\<And>a. ser a \<noteq> JNull) \<Longrightarrow> field_option (b, m) k de = Some x"
  by (simp add: field_option_def js_option_ser)

lemma js_elems_map: "(\<And>x. x \<in> set xs \<Longrightarrow> de (ser x) = Some x) \<Longrightarrow> js_elems de (map ser xs) = Some xs"
  by (induction xs) auto

end
