(* ===== verification/Http_Api.thy ===== *)
theory Http_Api
  imports Json_Std Utf8_Std Request_Tasks
begin

text \<open>
  The JSON bodies of the HTTP API (\<open>ui/src/public_http_api.rs\<close>) and their conversions to and from
  the requests and responses of the coordinator (\<open>api_orchestrator_integration_impls\<close> of
  \<open>ui/src/server_axum.rs\<close>). The parsers of option names are interpretations of \<open>name_codec\<close>.
\<close>

subsection \<open>Bodies\<close>

record api_code_file =
  acf_name :: string
  acf_content :: string

datatype api_code = ApiSingle string | ApiMultiple "api_code_file list"

record api_compile_request =
  ac_target :: string
  ac_assembly_flavor :: "string option"
  ac_demangle_assembly :: "string option"
  ac_process_assembly :: "string option"
  ac_channel :: string
  ac_mode :: string
  ac_edition :: string
  ac_crate_type :: string
  ac_tests :: bool
  ac_backtrace :: bool
  ac_code :: api_code

record api_execute_request =
  ae_channel :: string
  ae_mode :: string
  ae_edition :: string
  ae_crate_type :: string
  ae_tests :: bool
  ae_backtrace :: bool
  ae_code :: api_code

record api_format_request =
  af_channel :: "string option"
  af_edition :: string
  af_code :: api_code

record api_clippy_request =
  al_channel :: "string option"
  al_crate_type :: string
  al_edition :: string
  al_code :: api_code

record api_miri_request =
  am_code :: api_code
  am_edition :: string
  am_tests :: bool
  am_aliasing_model :: "string option"

record api_macro_expansion_request =
  ax_code :: api_code
  ax_edition :: string

record api_evaluate_request =
  av_version :: string
  av_optimize :: string
  av_code :: string
  av_edition :: string
  av_tests :: bool

record api_compile_response =
  acr_success :: bool
  acr_exit_detail :: string
  acr_code :: string
  acr_stdout :: string
  acr_stderr :: string

text \<open>The responses of execute, Clippy, Miri and macro expansion have the same fields.\<close>

record api_plain_response =
  apr_success :: bool
  apr_exit_detail :: string
  apr_stdout :: string
  apr_stderr :: string

record api_format_response =
  afr_success :: bool
  afr_exit_detail :: string
  afr_code :: api_code
  afr_stdout :: string
  afr_stderr :: string

record api_evaluate_response =
  avr_result :: string
  avr_error :: "string option"

record crate_information =
  cri_name :: string
  cri_version :: string
  cri_id :: string

record meta_version_response =
  mvr_version :: string
  mvr_hash :: string
  mvr_date :: string

record meta_channel_version_response =
  mcv_rustc :: meta_version_response
  mcv_rustfmt :: meta_version_response
  mcv_clippy :: meta_version_response
  mcv_miri :: "meta_version_response option"

record meta_versions_response =
  mvs_stable :: meta_channel_version_response
  mvs_beta :: meta_channel_version_response
  mvs_nightly :: meta_channel_version_response

definition default_crate_type :: string where "default_crate_type = ''bin''"

subsection \<open>JSON\<close>

definition ser_code_file :: "api_code_file \<Rightarrow> json" where
  "ser_code_file f = JObject [(''name'', JString (acf_name f)), (''content'', JString (acf_content f))]"

definition de_code_file :: "json \<Rightarrow> api_code_file option" where
  "de_code_file j = Option.bind (struct_source [''name'', ''content''] j) (\<lambda>s.
     Option.bind (field s ''name'' js_string) (\<lambda>name.
     Option.bind (field s ''content'' js_string) (\<lambda>content.
     Some \<lparr>acf_name = name, acf_content = content\<rparr>)))"

text \<open>\<open>Code\<close> is untagged: the first variant that fits.\<close>

fun ser_code :: "api_code \<Rightarrow> json" where
  "ser_code (ApiSingle s) = JString s"
| "ser_code (ApiMultiple fs) = JArray (map ser_code_file fs)"

definition de_code :: "json \<Rightarrow> api_code option" where
  "de_code j = (case js_string j of
     Some s \<Rightarrow> Some (ApiSingle s)
   | None \<Rightarrow> map_option ApiMultiple (js_list de_code_file j))"

definition ser_compile_request :: "api_compile_request \<Rightarrow> json" where
  "ser_compile_request r = JObject [(''target'', JString (ac_target r)),
     (''assemblyFlavor'', ser_option JString (ac_assembly_flavor r)),
     (''demangleAssembly'', ser_option JString (ac_demangle_assembly r)),
     (''processAssembly'', ser_option JString (ac_process_assembly r)),
     (''channel'', JString (ac_channel r)), (''mode'', JString (ac_mode r)),
     (''edition'', JString (ac_edition r)), (''crateType'', JString (ac_crate_type r)),
     (''tests'', JBool (ac_tests r)), (''backtrace'', JBool (ac_backtrace r)), (''code'', ser_code (ac_code r))]"

definition de_compile_request :: "json \<Rightarrow> api_compile_request option" where
  "de_compile_request j = Option.bind (struct_source [''target'', ''assemblyFlavor'', ''demangleAssembly'',
       ''processAssembly'', ''channel'', ''mode'', ''edition'', ''crateType'', ''tests'', ''backtrace'', ''code''] j) (\<lambda>s.
     Option.bind (field s ''target'' js_string) (\<lambda>target.
     Option.bind (field_option s ''assemblyFlavor'' js_string) (\<lambda>flavor.
     Option.bind (field_option s ''demangleAssembly'' js_string) (\<lambda>demangle.
     Option.bind (field_option s ''processAssembly'' js_string) (\<lambda>process.
     Option.bind (field s ''channel'' js_string) (\<lambda>channel.
     Option.bind (field s ''mode'' js_string) (\<lambda>mode.
     Option.bind (field_default [] s ''edition'' js_string) (\<lambda>edition.
     Option.bind (field s ''crateType'' js_string) (\<lambda>crate_type.
     Option.bind (field s ''tests'' js_bool) (\<lambda>tests.
     Option.bind (field_default False s ''backtrace'' js_bool) (\<lambda>backtrace.
     Option.bind (field s ''code'' de_code) (\<lambda>code.
     Some \<lparr>ac_target = target, ac_assembly_flavor = flavor, ac_demangle_assembly = demangle,
       ac_process_assembly = process, ac_channel = channel, ac_mode = mode, ac_edition = edition,
       ac_crate_type = crate_type, ac_tests = tests, ac_backtrace = backtrace, ac_code = code\<rparr>))))))))))))"

definition ser_execute_request :: "api_execute_request \<Rightarrow> json" where
  "ser_execute_request r = JObject [(''channel'', JString (ae_channel r)), (''mode'', JString (ae_mode r)),
     (''edition'', JString (ae_edition r)), (''crateType'', JString (ae_crate_type r)),
     (''tests'', JBool (ae_tests r)), (''backtrace'', JBool (ae_backtrace r)), (''code'', ser_code (ae_code r))]"

definition de_execute_request :: "json \<Rightarrow> api_execute_request option" where
  "de_execute_request j = Option.bind (struct_source [''channel'', ''mode'', ''edition'', ''crateType'',
       ''tests'', ''backtrace'', ''code''] j) (\<lambda>s.
     Option.bind (field s ''channel'' js_string) (\<lambda>channel.
     Option.bind (field s ''mode'' js_string) (\<lambda>mode.
     Option.bind (field_default [] s ''edition'' js_string) (\<lambda>edition.
     Option.bind (field s ''crateType'' js_string) (\<lambda>crate_type.
     Option.bind (field s ''tests'' js_bool) (\<lambda>tests.
     Option.bind (field_default False s ''backtrace'' js_bool) (\<lambda>backtrace.
     Option.bind (field s ''code'' de_code) (\<lambda>code.
     Some \<lparr>ae_channel = channel, ae_mode = mode, ae_edition = edition, ae_crate_type = crate_type,
       ae_tests = tests, ae_backtrace = backtrace, ae_code = code\<rparr>))))))))"

definition ser_format_request :: "api_format_request \<Rightarrow> json" where
  "ser_format_request r = JObject [(''channel'', ser_option JString (af_channel r)),
     (''edition'', JString (af_edition r)), (''code'', ser_code (af_code r))]"

definition de_format_request :: "json \<Rightarrow> api_format_request option" where
  "de_format_request j = Option.bind (struct_source [''channel'', ''edition'', ''code''] j) (\<lambda>s.
     Option.bind (field_default None s ''channel'' (js_option js_string)) (\<lambda>channel.
     Option.bind (field_default [] s ''edition'' js_string) (\<lambda>edition.
     Option.bind (field s ''code'' de_code) (\<lambda>code.
     Some \<lparr>af_channel = channel, af_edition = edition, af_code = code\<rparr>))))"

definition ser_clippy_request :: "api_clippy_request \<Rightarrow> json" where
  "ser_clippy_request r = JObject [(''channel'', ser_option JString (al_channel r)),
     (''crateType'', JString (al_crate_type r)), (''edition'', JString (al_edition r)),
     (''code'', ser_code (al_code r))]"

definition de_clippy_request :: "json \<Rightarrow> api_clippy_request option" where
  "de_clippy_request j = Option.bind (struct_source [''channel'', ''crateType'', ''edition'', ''code''] j) (\<lambda>s.
     Option.bind (field_default None s ''channel'' (js_option js_string)) (\<lambda>channel.
     Option.bind (field_default default_crate_type s ''crateType'' js_string) (\<lambda>crate_type.
     Option.bind (field_default [] s ''edition'' js_string) (\<lambda>edition.
     Option.bind (field s ''code'' de_code) (\<lambda>code.
     Some \<lparr>al_channel = channel, al_crate_type = crate_type, al_edition = edition, al_code = code\<rparr>)))))"

definition ser_miri_request :: "api_miri_request \<Rightarrow> json" where
  "ser_miri_request r = JObject [(''code'', ser_code (am_code r)), (''edition'', JString (am_edition r)),
     (''tests'', JBool (am_tests r)), (''aliasingModel'', ser_option JString (am_aliasing_model r))]"

definition de_miri_request :: "json \<Rightarrow> api_miri_request option" where
  "de_miri_request j = Option.bind (struct_source [''code'', ''edition'', ''tests'', ''aliasingModel''] j) (\<lambda>s.
     Option.bind (field s ''code'' de_code) (\<lambda>code.
     Option.bind (field_default [] s ''edition'' js_string) (\<lambda>edition.
     Option.bind (field_default False s ''tests'' js_bool) (\<lambda>tests.
     Option.bind (field_default None s ''aliasingModel'' (js_option js_string)) (\<lambda>model.
     Some \<lparr>am_code = code, am_edition = edition, am_tests = tests, am_aliasing_model = model\<rparr>)))))"

definition ser_macro_expansion_request :: "api_macro_expansion_request \<Rightarrow> json" where
  "ser_macro_expansion_request r = JObject [(''code'', ser_code (ax_code r)), (''edition'', JString (ax_edition r))]"

definition de_macro_expansion_request :: "json \<Rightarrow> api_macro_expansion_request option" where
  "de_macro_expansion_request j = Option.bind (struct_source [''code'', ''edition''] j) (\<lambda>s.
     Option.bind (field s ''code'' de_code) (\<lambda>code.
     Option.bind (field_default [] s ''edition'' js_string) (\<lambda>edition.
     Some \<lparr>ax_code = code, ax_edition = edition\<rparr>)))"

definition ser_evaluate_request :: "api_evaluate_request \<Rightarrow> json" where
  "ser_evaluate_request r = JObject [(''version'', JString (av_version r)), (''optimize'', JString (av_optimize r)),
     (''code'', JString (av_code r)), (''edition'', JString (av_edition r)), (''tests'', JBool (av_tests r))]"

definition de_evaluate_request :: "json \<Rightarrow> api_evaluate_request option" where
  "de_evaluate_request j = Option.bind (struct_source [''version'', ''optimize'', ''code'', ''edition'', ''tests''] j) (\<lambda>s.
     Option.bind (field s ''version'' js_string) (\<lambda>version.
     Option.bind (field s ''optimize'' js_string) (\<lambda>optimize.
     Option.bind (field s ''code'' js_string) (\<lambda>code.
     Option.bind (field_default [] s ''edition'' js_string) (\<lambda>edition.
     Option.bind (field_default False s ''tests'' js_bool) (\<lambda>tests.
     Some \<lparr>av_version = version, av_optimize = optimize, av_code = code, av_edition = edition, av_tests = tests\<rparr>))))))"

lemma de_code_file_ser [simp]: "de_code_file (ser_code_file f) = Some f"
  by (simp add: de_code_file_def ser_code_file_def)

lemma de_code_ser [simp]: "de_code (ser_code c) = Some c"
  by (cases c) (simp_all add: de_code_def js_elems_map)

lemma option_string_ser [simp]:
  "m k = Some (ser_option JString x) \<Longrightarrow> field_option (b, m) k js_string = Some x"
  "js_option js_string (ser_option JString x) = Some x"
  by (simp_all add: field_option_ser js_option_ser)

lemma de_compile_request_ser: "de_compile_request (ser_compile_request r) = Some r"
  by (simp add: de_compile_request_def ser_compile_request_def)

lemma de_execute_request_ser: "de_execute_request (ser_execute_request r) = Some r"
  by (simp add: de_execute_request_def ser_execute_request_def)

lemma de_small_requests_ser:
  "de_format_request (ser_format_request f) = Some f"
  "de_clippy_request (ser_clippy_request c) = Some c"
  "de_miri_request (ser_miri_request m) = Some m"
  "de_macro_expansion_request (ser_macro_expansion_request x) = Some x"
  "de_evaluate_request (ser_evaluate_request v) = Some v"
  by (simp_all add: de_format_request_def ser_format_request_def de_clippy_request_def
      ser_clippy_request_def de_miri_request_def ser_miri_request_def de_macro_expansion_request_def
      ser_macro_expansion_request_def de_evaluate_request_def ser_evaluate_request_def)

end
