(* ===== verification/Api_Conversions.thy ===== *)
theory Api_Conversions
  imports Http_Api
begin

text \<open>
  The conversions between the HTTP API and the coordinator: the \<open>TryFrom\<close> and \<open>From\<close>
  implementations and the option parsers of the module \<open>api_orchestrator_integration_impls\<close> in
  \<open>ui/src/server_axum.rs\<close>.
\<close>

subsection \<open>Option parsers\<close>

datatype parse_assembly_flavor_error = ParseAssemblyFlavorError string
datatype parse_demangle_assembly_error = ParseDemangleAssemblyError string
datatype parse_process_assembly_error = ParseProcessAssemblyError string
datatype parse_channel_error = ParseChannelError string
datatype parse_crate_type_error = ParseCrateTypeError string
datatype parse_mode_error = ParseModeError string
datatype parse_edition_error = ParseEditionError string
datatype parse_aliasing_model_error = ParseAliasingModelError string

datatype parse_compile_target_error =
    CtAssemblyFlavor parse_assembly_flavor_error
  | CtDemangleAssembly parse_demangle_assembly_error
  | CtProcessAssembly parse_process_assembly_error
  | CtInvalidTarget string

definition parse_assembly_flavor :: "string \<Rightarrow> (parse_assembly_flavor_error, assembly_flavor) result" where
  "parse_assembly_flavor s =
     (if s = ''att'' then Ok Att else if s = ''intel'' then Ok Intel else Err (ParseAssemblyFlavorError s))"

definition parse_demangle_assembly :: "string \<Rightarrow> (parse_demangle_assembly_error, demangle_assembly) result" where
  "parse_demangle_assembly s =
     (if s = ''demangle'' then Ok Demangle else if s = ''mangle'' then Ok Mangle
      else Err (ParseDemangleAssemblyError s))"

definition parse_process_assembly :: "string \<Rightarrow> (parse_process_assembly_error, process_assembly) result" where
  "parse_process_assembly s =
     (if s = ''filter'' then Ok Filter else if s = ''raw'' then Ok Raw else Err (ParseProcessAssemblyError s))"

definition parse_channel :: "string \<Rightarrow> (parse_channel_error, channel) result" where
  "parse_channel s =
     (if s = ''stable'' then Ok Stable else if s = ''beta'' then Ok Beta
      else if s = ''nightly'' then Ok Nightly else Err (ParseChannelError s))"

definition parse_crate_type :: "string \<Rightarrow> (parse_crate_type_error, crate_type) result" where
  "parse_crate_type s =
     (if s = ''bin'' then Ok Binary else if s = ''lib'' then Ok (Library Lib)
      else if s = ''dylib'' then Ok (Library Dylib) else if s = ''rlib'' then Ok (Library Rlib)
      else if s = ''staticlib'' then Ok (Library Staticlib) else if s = ''cdylib'' then Ok (Library Cdylib)
      else if s = ''proc-macro'' then Ok (Library ProcMacro) else Err (ParseCrateTypeError s))"

definition parse_mode :: "string \<Rightarrow> (parse_mode_error, mode) result" where
  "parse_mode s =
     (if s = ''debug'' then Ok Debug else if s = ''release'' then Ok Release else Err (ParseModeError s))"

definition parse_edition :: "string \<Rightarrow> (parse_edition_error, edition) result" where
  "parse_edition s =
     (if s = ''2015'' then Ok Rust2015 else if s = ''2018'' then Ok Rust2018
      else if s = ''2021'' then Ok Rust2021 else if s = ''2024'' then Ok Rust2024 else Err (ParseEditionError s))"

definition parse_aliasing_model :: "string \<Rightarrow> (parse_aliasing_model_error, aliasing_model) result" where
  "parse_aliasing_model s =
     (if s = ''stacked'' then Ok Stacked else if s = ''tree'' then Ok Tree else Err (ParseAliasingModelError s))"

text \<open>An option that may be left out.\<close>

definition parse_or :: "'a \<Rightarrow> (string \<Rightarrow> ('e, 'a) result) \<Rightarrow> string option \<Rightarrow> ('e, 'a) result" where
  "parse_or d parse x = (case x of None \<Rightarrow> Ok d | Some s \<Rightarrow> parse s)"

definition parse_target ::
    "string \<Rightarrow> string option \<Rightarrow> string option \<Rightarrow> string option \<Rightarrow>
     (parse_compile_target_error, compile_target) result" where
  "parse_target target flavor demangle process =
     (if target = ''asm'' then
        res_bind (map_err CtAssemblyFlavor (parse_or Att parse_assembly_flavor flavor)) (\<lambda>flavor.
        res_bind (map_err CtDemangleAssembly (parse_or Demangle parse_demangle_assembly demangle)) (\<lambda>demangle.
        res_bind (map_err CtProcessAssembly (parse_or Filter parse_process_assembly process)) (\<lambda>process.
        Ok (Assembly flavor demangle process))))
      else if target = ''llvm-ir'' then Ok LlvmIr
      else if target = ''mir'' then Ok Mir
      else if target = ''hir'' then Ok Hir
      else if target = ''wasm'' then Ok Wasm
      else Err (CtInvalidTarget target))"

text \<open>The names of the options that no function of the code prints.\<close>

fun flavor_name :: "assembly_flavor \<Rightarrow> string" where
  "flavor_name Att = ''att''" | "flavor_name Intel = ''intel''"

fun demangle_name :: "demangle_assembly \<Rightarrow> string" where
  "demangle_name Demangle = ''demangle''" | "demangle_name Mangle = ''mangle''"

fun process_name :: "process_assembly \<Rightarrow> string" where
  "process_name Filter = ''filter''" | "process_name Raw = ''raw''"

fun mode_name :: "mode \<Rightarrow> string" where
  "mode_name Debug = ''debug''" | "mode_name Release = ''release''"

fun model_name :: "aliasing_model \<Rightarrow> string" where
  "model_name Stacked = ''stacked''" | "model_name Tree = ''tree''"

interpretation flavors: name_codec flavor_name parse_assembly_flavor
proof
  show "parse_assembly_flavor (flavor_name x) = Ok x" for x by (cases x) (simp_all add: parse_assembly_flavor_def)
qed (auto simp: parse_assembly_flavor_def split: if_splits)

interpretation demangles: name_codec demangle_name parse_demangle_assembly
proof
  show "parse_demangle_assembly (demangle_name x) = Ok x" for x by (cases x) (simp_all add: parse_demangle_assembly_def)
qed (auto simp: parse_demangle_assembly_def split: if_splits)

interpretation processes: name_codec process_name parse_process_assembly
proof
  show "parse_process_assembly (process_name x) = Ok x" for x by (cases x) (simp_all add: parse_process_assembly_def)
qed (auto simp: parse_process_assembly_def split: if_splits)

interpretation channels: name_codec channel_to_str parse_channel
proof
  show "parse_channel (channel_to_str x) = Ok x" for x by (cases x) (simp_all add: parse_channel_def)
qed (auto simp: parse_channel_def split: if_splits)

interpretation crate_types: name_codec crate_type_to_cargo_toml_key parse_crate_type
proof
  show "parse_crate_type (crate_type_to_cargo_toml_key x) = Ok x" for x
    by (cases x rule: crate_type_to_cargo_toml_key.cases) (simp_all add: parse_crate_type_def)
qed (auto simp: parse_crate_type_def split: if_splits)

interpretation modes: name_codec mode_name parse_mode
proof
  show "parse_mode (mode_name x) = Ok x" for x by (cases x) (simp_all add: parse_mode_def)
qed (auto simp: parse_mode_def split: if_splits)

interpretation editions: name_codec edition_to_str parse_edition
proof
  show "parse_edition (edition_to_str x) = Ok x" for x by (cases x) (simp_all add: parse_edition_def)
qed (auto simp: parse_edition_def split: if_splits)

interpretation models: name_codec model_name parse_aliasing_model
proof
  show "parse_aliasing_model (model_name x) = Ok x" for x by (cases x) (simp_all add: parse_aliasing_model_def)
qed (auto simp: parse_aliasing_model_def split: if_splits)

lemmas option_parse_iffs = flavors.parse_iff demangles.parse_iff processes.parse_iff channels.parse_iff
  crate_types.parse_iff modes.parse_iff editions.parse_iff models.parse_iff

subsection \<open>Code\<close>

definition code_file_of_api :: "api_code_file \<Rightarrow> code_file" where
  "code_file_of_api f = \<lparr>cf_name = acf_name f, cf_content = acf_content f\<rparr>"

definition code_file_to_api :: "code_file \<Rightarrow> api_code_file" where
  "code_file_to_api f = \<lparr>acf_name = cf_name f, acf_content = cf_content f\<rparr>"

fun code_of_api :: "api_code \<Rightarrow> code" where
  "code_of_api (ApiSingle c) = Single c"
| "code_of_api (ApiMultiple fs) = Multiple (map code_file_of_api fs)"

fun code_to_api :: "code \<Rightarrow> api_code" where
  "code_to_api (Single c) = ApiSingle c"
| "code_to_api (Multiple fs) = ApiMultiple (map code_file_to_api fs)"

lemma code_file_api [simp]: "code_file_of_api (code_file_to_api f) = f" "code_file_to_api (code_file_of_api g) = g"
  by (simp_all add: code_file_of_api_def code_file_to_api_def)

lemma code_api [simp]: "code_of_api (code_to_api c) = c" "code_to_api (code_of_api a) = a"
  by (cases c; simp add: comp_def) (cases a; simp add: comp_def)

subsection \<open>Requests\<close>

datatype parse_evaluate_request_error = EvChannel parse_channel_error | EvEdition parse_edition_error

datatype parse_compile_request_error =
    CqTarget parse_compile_target_error | CqChannel parse_channel_error
  | CqCrateType parse_crate_type_error | CqMode parse_mode_error | CqEdition parse_edition_error

datatype parse_execute_request_error =
    EqChannel parse_channel_error | EqCrateType parse_crate_type_error
  | EqMode parse_mode_error | EqEdition parse_edition_error

datatype parse_format_request_error = FqChannel parse_channel_error | FqEdition parse_edition_error

datatype parse_clippy_request_error =
    LqChannel parse_channel_error | LqCrateType parse_crate_type_error | LqEdition parse_edition_error

datatype parse_miri_request_error = MqEdition parse_edition_error | MqAliasingMode parse_aliasing_model_error

datatype parse_macro_expansion_request_error = XqEdition parse_edition_error

text \<open>\<open>trim().is_empty()\<close>: every character has the Unicode property \<open>White_Space\<close>. Outside ASCII these
  are U+0085, U+00A0, U+1680, U+2000 to U+200A, U+2028, U+2029, U+202F, U+205F and U+3000.\<close>

fun is_blank :: "string \<Rightarrow> bool" where
  "is_blank [] = True"
| "is_blank (c # cs) =
     (if is_space c then is_blank cs
      else case cs of
        [] \<Rightarrow> False
      | d # ds \<Rightarrow>
          if byte c = 0xC2 then byte d \<in> {0x85, 0xA0} \<and> is_blank ds
          else case ds of
            [] \<Rightarrow> False
          | e # es \<Rightarrow>
              (byte c = 0xE1 \<and> byte d = 0x9A \<and> byte e = 0x80 \<or>
               byte c = 0xE2 \<and> byte d = 0x80 \<and> (0x80 \<le> byte e \<and> byte e \<le> 0x8A \<or> byte e \<in> {0xA8, 0xA9, 0xAF}) \<or>
               byte c = 0xE2 \<and> byte d = 0x81 \<and> byte e = 0x9F \<or>
               byte c = 0xE3 \<and> byte d = 0x80 \<and> byte e = 0x80) \<and> is_blank es)"

definition evaluate_try_from :: "api_evaluate_request \<Rightarrow> (parse_evaluate_request_error, execute_request) result" where
  "evaluate_try_from r =
     (let mode = (if av_optimize r \<noteq> ''0'' then Release else Debug)
      in res_bind (if is_blank (av_edition r) then Ok Rust2015 else map_err EvEdition (parse_edition (av_edition r))) (\<lambda>edition.
         res_bind (map_err EvChannel (parse_channel (av_version r))) (\<lambda>channel.
         Ok \<lparr>er_channel = channel, er_mode = mode, er_edition = edition, er_crate_type = Binary,
              er_tests = av_tests r, er_backtrace = False, er_code = Single (av_code r)\<rparr>)))"

definition compile_try_from :: "api_compile_request \<Rightarrow> (parse_compile_request_error, compile_request) result" where
  "compile_try_from r =
     res_bind (map_err CqTarget (parse_target (ac_target r) (ac_assembly_flavor r) (ac_demangle_assembly r)
        (ac_process_assembly r))) (\<lambda>target.
     res_bind (map_err CqChannel (parse_channel (ac_channel r))) (\<lambda>channel.
     res_bind (map_err CqCrateType (parse_crate_type (ac_crate_type r))) (\<lambda>crate_type.
     res_bind (map_err CqMode (parse_mode (ac_mode r))) (\<lambda>mode.
     res_bind (map_err CqEdition (parse_edition (ac_edition r))) (\<lambda>edition.
     Ok \<lparr>cr_target = target, cr_channel = channel, cr_crate_type = crate_type, cr_mode = mode,
          cr_edition = edition, cr_tests = ac_tests r, cr_backtrace = ac_backtrace r,
          cr_code = code_of_api (ac_code r)\<rparr>)))))"

definition execute_try_from :: "api_execute_request \<Rightarrow> (parse_execute_request_error, execute_request) result" where
  "execute_try_from r =
     res_bind (map_err EqChannel (parse_channel (ae_channel r))) (\<lambda>channel.
     res_bind (map_err EqCrateType (parse_crate_type (ae_crate_type r))) (\<lambda>crate_type.
     res_bind (map_err EqMode (parse_mode (ae_mode r))) (\<lambda>mode.
     res_bind (map_err EqEdition (parse_edition (ae_edition r))) (\<lambda>edition.
     Ok \<lparr>er_channel = channel, er_mode = mode, er_edition = edition, er_crate_type = crate_type,
          er_tests = ae_tests r, er_backtrace = ae_backtrace r, er_code = code_of_api (ae_code r)\<rparr>))))"

definition format_try_from :: "api_format_request \<Rightarrow> (parse_format_request_error, format_request) result" where
  "format_try_from r =
     res_bind (map_err FqChannel (parse_or Nightly parse_channel (af_channel r))) (\<lambda>channel.
     res_bind (map_err FqEdition (parse_edition (af_edition r))) (\<lambda>edition.
     Ok \<lparr>fr_channel = channel, fr_crate_type = Binary, fr_edition = edition, fr_code = code_of_api (af_code r)\<rparr>))"

definition clippy_try_from :: "api_clippy_request \<Rightarrow> (parse_clippy_request_error, clippy_request) result" where
  "clippy_try_from r =
     res_bind (map_err LqChannel (parse_or Nightly parse_channel (al_channel r))) (\<lambda>channel.
     res_bind (map_err LqCrateType (parse_crate_type (al_crate_type r))) (\<lambda>crate_type.
     res_bind (map_err LqEdition (parse_edition (al_edition r))) (\<lambda>edition.
     Ok \<lparr>cl_channel = channel, cl_crate_type = crate_type, cl_edition = edition, cl_code = code_of_api (al_code r)\<rparr>)))"

definition miri_try_from :: "api_miri_request \<Rightarrow> (parse_miri_request_error, miri_request) result" where
  "miri_try_from r =
     res_bind (map_err MqAliasingMode (parse_or Stacked parse_aliasing_model (am_aliasing_model r))) (\<lambda>model.
     res_bind (map_err MqEdition (parse_edition (am_edition r))) (\<lambda>edition.
     Ok \<lparr>mr_channel = Nightly, mr_crate_type = Binary, mr_edition = edition, mr_tests = am_tests r,
          mr_aliasing_model = model, mr_code = code_of_api (am_code r)\<rparr>))"

definition macro_expansion_try_from ::
    "api_macro_expansion_request \<Rightarrow> (parse_macro_expansion_request_error, macro_expansion_request) result" where
  "macro_expansion_try_from r =
     res_bind (map_err XqEdition (parse_edition (ax_edition r))) (\<lambda>edition.
     Ok \<lparr>me_channel = Nightly, me_crate_type = Binary, me_edition = edition, me_code = code_of_api (ax_code r)\<rparr>)"

subsection \<open>Responses\<close>

text \<open>The old playground kept the standard error to itself unless the program failed.\<close>

definition evaluate_response :: "execute_response with_output \<Rightarrow> api_evaluate_response" where
  "evaluate_response w =
     (if exr_success (wo_response w) then \<lparr>avr_result = wo_stdout w, avr_error = None\<rparr>
      else let result = wo_stderr w @ wo_stdout w in \<lparr>avr_result = result, avr_error = Some result\<rparr>)"

definition compile_response_to_api :: "compile_response with_output \<Rightarrow> api_compile_response" where
  "compile_response_to_api w = \<lparr>acr_success = cpr_success (wo_response w),
     acr_exit_detail = cpr_exit_detail (wo_response w), acr_code = cpr_code (wo_response w),
     acr_stdout = wo_stdout w, acr_stderr = wo_stderr w\<rparr>"

definition execute_response_to_api :: "execute_response with_output \<Rightarrow> api_plain_response" where
  "execute_response_to_api w = \<lparr>apr_success = exr_success (wo_response w),
     apr_exit_detail = exr_exit_detail (wo_response w), apr_stdout = wo_stdout w, apr_stderr = wo_stderr w\<rparr>"

definition format_response_to_api :: "format_response with_output \<Rightarrow> api_format_response" where
  "format_response_to_api w = \<lparr>afr_success = fmr_success (wo_response w),
     afr_exit_detail = fmr_exit_detail (wo_response w), afr_code = code_to_api (fmr_code (wo_response w)),
     afr_stdout = wo_stdout w, afr_stderr = wo_stderr w\<rparr>"

definition clippy_response_to_api :: "clippy_response with_output \<Rightarrow> api_plain_response" where
  "clippy_response_to_api w = \<lparr>apr_success = clr_success (wo_response w),
     apr_exit_detail = clr_exit_detail (wo_response w), apr_stdout = wo_stdout w, apr_stderr = wo_stderr w\<rparr>"

definition miri_response_to_api :: "miri_response with_output \<Rightarrow> api_plain_response" where
  "miri_response_to_api w = \<lparr>apr_success = mir_success (wo_response w),
     apr_exit_detail = mir_exit_detail (wo_response w), apr_stdout = wo_stdout w, apr_stderr = wo_stderr w\<rparr>"

definition macro_expansion_response_to_api :: "macro_expansion_response with_output \<Rightarrow> api_plain_response" where
  "macro_expansion_response_to_api w = \<lparr>apr_success = mar_success (wo_response w),
     apr_exit_detail = mar_exit_detail (wo_response w), apr_stdout = wo_stdout w, apr_stderr = wo_stderr w\<rparr>"

definition version_to_api :: "version \<Rightarrow> meta_version_response" where
  "version_to_api v = \<lparr>mvr_version = ver_release v, mvr_hash = ver_commit_hash v, mvr_date = ver_commit_date v\<rparr>"

definition channel_versions_to_api :: "channel_versions \<Rightarrow> meta_channel_version_response" where
  "channel_versions_to_api v = \<lparr>mcv_rustc = version_to_api (cv_rustc v), mcv_rustfmt = version_to_api (cv_rustfmt v),
     mcv_clippy = version_to_api (cv_clippy v), mcv_miri = map_option version_to_api (cv_miri v)\<rparr>"

definition versions_to_api :: "versions \<Rightarrow> meta_versions_response" where
  "versions_to_api v = \<lparr>mvs_stable = channel_versions_to_api (vs_stable v),
     mvs_beta = channel_versions_to_api (vs_beta v), mvs_nightly = channel_versions_to_api (vs_nightly v)\<rparr>"

definition crates_to_api :: "crate_info list \<Rightarrow> crate_information list" where
  "crates_to_api cs = map (\<lambda>c. \<lparr>cri_name = ci_name c, cri_version = ci_version c, cri_id = ci_id c\<rparr>) cs"

subsection \<open>Properties\<close>

text \<open>The option an optional name stands for.\<close>

definition names :: "('a \<Rightarrow> string) \<Rightarrow> 'a \<Rightarrow> string option \<Rightarrow> 'a \<Rightarrow> bool" where
  "names name d s v = (case s of None \<Rightarrow> v = d | Some s \<Rightarrow> s = name v)"

fun target_names :: "api_compile_request \<Rightarrow> compile_target \<Rightarrow> bool" where
  "target_names r (Assembly flavor demangle process) =
     (ac_target r = ''asm'' \<and> names flavor_name Att (ac_assembly_flavor r) flavor \<and>
      names demangle_name Demangle (ac_demangle_assembly r) demangle \<and>
      names process_name Filter (ac_process_assembly r) process)"
| "target_names r LlvmIr = (ac_target r = ''llvm-ir'')"
| "target_names r Mir = (ac_target r = ''mir'')"
| "target_names r Hir = (ac_target r = ''hir'')"
| "target_names r Wasm = (ac_target r = ''wasm'')"

lemma parse_or_Ok:
  "parse_or d parse_assembly_flavor s = Ok f \<longleftrightarrow> names flavor_name d s f"
  "parse_or e parse_demangle_assembly s = Ok g \<longleftrightarrow> names demangle_name e s g"
  "parse_or h parse_process_assembly s = Ok i \<longleftrightarrow> names process_name h s i"
  "parse_or j parse_channel s = Ok k \<longleftrightarrow> names channel_to_str j s k"
  "parse_or l parse_aliasing_model s = Ok m \<longleftrightarrow> names model_name l s m"
  by (cases s; auto simp: parse_or_def names_def option_parse_iffs)+

lemma parse_target_Ok: "parse_target (ac_target r) (ac_assembly_flavor r) (ac_demangle_assembly r)
    (ac_process_assembly r) = Ok t \<longleftrightarrow> target_names r t"
  by (cases t) (auto simp: parse_target_def result_iffs parse_or_Ok)

lemma code_of_api_iff: "code_of_api a = c \<longleftrightarrow> a = code_to_api c"
  by auto

lemma compile_accepted: "compile_try_from a = Ok c \<longleftrightarrow> target_names a (cr_target c) \<and>
     ac_channel a = channel_to_str (cr_channel c) \<and>
     ac_crate_type a = crate_type_to_cargo_toml_key (cr_crate_type c) \<and> ac_mode a = mode_name (cr_mode c) \<and>
     ac_edition a = edition_to_str (cr_edition c) \<and> cr_tests c = ac_tests a \<and> cr_backtrace c = ac_backtrace a \<and>
     ac_code a = code_to_api (cr_code c)"
  by (cases c) (auto simp: compile_try_from_def result_iffs parse_target_Ok option_parse_iffs code_of_api_iff)

lemma execute_accepted: "execute_try_from ae = Ok e \<longleftrightarrow> ae_channel ae = channel_to_str (er_channel e) \<and>
     ae_crate_type ae = crate_type_to_cargo_toml_key (er_crate_type e) \<and> ae_mode ae = mode_name (er_mode e) \<and>
     ae_edition ae = edition_to_str (er_edition e) \<and> er_tests e = ae_tests ae \<and>
     er_backtrace e = ae_backtrace ae \<and> ae_code ae = code_to_api (er_code e)"
  by (cases e) (auto simp: execute_try_from_def result_iffs option_parse_iffs code_of_api_iff)

lemma format_accepted: "format_try_from af = Ok f \<longleftrightarrow> names channel_to_str Nightly (af_channel af) (fr_channel f) \<and>
     fr_crate_type f = Binary \<and> af_edition af = edition_to_str (fr_edition f) \<and> af_code af = code_to_api (fr_code f)"
  by (cases f) (auto simp: format_try_from_def result_iffs parse_or_Ok option_parse_iffs code_of_api_iff)

lemma clippy_accepted: "clippy_try_from al = Ok l \<longleftrightarrow> names channel_to_str Nightly (al_channel al) (cl_channel l) \<and>
     al_crate_type al = crate_type_to_cargo_toml_key (cl_crate_type l) \<and>
     al_edition al = edition_to_str (cl_edition l) \<and> al_code al = code_to_api (cl_code l)"
  by (cases l) (auto simp: clippy_try_from_def result_iffs parse_or_Ok option_parse_iffs code_of_api_iff)

lemma miri_accepted: "miri_try_from am = Ok m \<longleftrightarrow> mr_channel m = Nightly \<and> mr_crate_type m = Binary \<and>
     names model_name Stacked (am_aliasing_model am) (mr_aliasing_model m) \<and>
     am_edition am = edition_to_str (mr_edition m) \<and> mr_tests m = am_tests am \<and> am_code am = code_to_api (mr_code m)"
  by (cases m) (auto simp: miri_try_from_def result_iffs parse_or_Ok option_parse_iffs code_of_api_iff)

lemma macro_expansion_accepted: "macro_expansion_try_from ax = Ok x \<longleftrightarrow> me_channel x = Nightly \<and> me_crate_type x = Binary \<and>
     ax_edition ax = edition_to_str (me_edition x) \<and> ax_code ax = code_to_api (me_code x)"
  by (cases x) (auto simp: macro_expansion_try_from_def result_iffs parse_or_Ok option_parse_iffs code_of_api_iff)

lemma evaluate_accepted: "evaluate_try_from av = Ok v \<longleftrightarrow> av_version av = channel_to_str (er_channel v) \<and>
     er_mode v = (if av_optimize av = ''0'' then Debug else Release) \<and>
     (if is_blank (av_edition av) then er_edition v = Rust2015 else av_edition av = edition_to_str (er_edition v)) \<and>
     er_crate_type v = Binary \<and> er_tests v = av_tests av \<and> er_backtrace v = False \<and> er_code v = Single (av_code av)"
  by (cases v) (auto simp: evaluate_try_from_def result_iffs option_parse_iffs Let_def)


lemma omitted_edition_decodes:
  assumes "map_of kvs ''edition'' = None"
  shows "de_compile_request (JObject kvs) = Some c \<Longrightarrow> ac_edition c = []"
    and "de_execute_request (JObject kvs) = Some e \<Longrightarrow> ae_edition e = []"
    and "de_format_request (JObject kvs) = Some f \<Longrightarrow> af_edition f = []"
    and "de_clippy_request (JObject kvs) = Some l \<Longrightarrow> al_edition l = []"
    and "de_miri_request (JObject kvs) = Some m \<Longrightarrow> am_edition m = []"
    and "de_macro_expansion_request (JObject kvs) = Some x \<Longrightarrow> ax_edition x = []"
    and "de_evaluate_request (JObject kvs) = Some v \<Longrightarrow> av_edition v = []"
  using assms
  by (auto simp: de_compile_request_def de_execute_request_def de_format_request_def de_clippy_request_def
      de_miri_request_def de_macro_expansion_request_def de_evaluate_request_def Option.bind_eq_Some_conv
      split: if_splits)

lemma empty_edition_refused:
  "ac_edition c = [] \<Longrightarrow> is_err (compile_try_from c)" "ae_edition e = [] \<Longrightarrow> is_err (execute_try_from e)"
  "af_edition f = [] \<Longrightarrow> is_err (format_try_from f)" "al_edition l = [] \<Longrightarrow> is_err (clippy_try_from l)"
  "am_edition m = [] \<Longrightarrow> is_err (miri_try_from m)" "ax_edition x = [] \<Longrightarrow> is_err (macro_expansion_try_from x)"
proof -
  have "edition_to_str d \<noteq> []" for d by (cases d) simp_all
  then have no: "[] \<noteq> edition_to_str d" for d by metis
  show "ac_edition c = [] \<Longrightarrow> is_err (compile_try_from c)" "ae_edition e = [] \<Longrightarrow> is_err (execute_try_from e)"
    "af_edition f = [] \<Longrightarrow> is_err (format_try_from f)" "al_edition l = [] \<Longrightarrow> is_err (clippy_try_from l)"
    "am_edition m = [] \<Longrightarrow> is_err (miri_try_from m)" "ax_edition x = [] \<Longrightarrow> is_err (macro_expansion_try_from x)"
    by (auto simp: is_err_def is_ok_iff compile_accepted execute_accepted format_accepted clippy_accepted
        miri_accepted macro_expansion_accepted no)
qed



text \<open>The request bodies survive JSON: what the derived serializer writes, as for the request log,
  the derived deserializer reads back, for all seven endpoints.\<close>

theorem api_json_roundtrip:
  "de_compile_request (ser_compile_request c) = Some c \<and> de_execute_request (ser_execute_request e) = Some e \<and>
   de_format_request (ser_format_request f) = Some f \<and> de_clippy_request (ser_clippy_request l) = Some l \<and>
   de_miri_request (ser_miri_request m) = Some m \<and>
   de_macro_expansion_request (ser_macro_expansion_request x) = Some x \<and>
   de_evaluate_request (ser_evaluate_request v) = Some v"
  by (intro conjI de_compile_request_ser de_execute_request_ser de_small_requests_ser)

end
