(* ===== verification/Metrics.thy ===== *)
theory Metrics
  imports Requests
begin

text \<open>
  \<open>ui/src/metrics.rs\<close>: the labels of the request histogram, what each request contributes to them,
  and recording. The histogram is the list of observations, each with the values of its labels.
\<close>

datatype endpoint =
    EpCompile | EpExecute | EpFormat | EpMiri | EpClippy | EpMacroExpansion
  | EpMetaCrates | EpMetaVersions | EpEvaluate

datatype metric_outcome = Success | ErrorServer | ErrorTimeoutSoft | ErrorUserCode | OutcomeAbandoned

text \<open>\<open>strum::IntoStaticStr\<close>: the name of the variant.\<close>

fun endpoint_str :: "endpoint \<Rightarrow> string" where
  "endpoint_str EpCompile = ''Compile''"
| "endpoint_str EpExecute = ''Execute''"
| "endpoint_str EpFormat = ''Format''"
| "endpoint_str EpMiri = ''Miri''"
| "endpoint_str EpClippy = ''Clippy''"
| "endpoint_str EpMacroExpansion = ''MacroExpansion''"
| "endpoint_str EpMetaCrates = ''MetaCrates''"
| "endpoint_str EpMetaVersions = ''MetaVersions''"
| "endpoint_str EpEvaluate = ''Evaluate''"

fun outcome_str :: "metric_outcome \<Rightarrow> string" where
  "outcome_str Success = ''Success''"
| "outcome_str ErrorServer = ''ErrorServer''"
| "outcome_str ErrorTimeoutSoft = ''ErrorTimeoutSoft''"
| "outcome_str ErrorUserCode = ''ErrorUserCode''"
| "outcome_str OutcomeAbandoned = ''Abandoned''"

record labels_core =
  lc_target :: "compile_target option"
  lc_channel :: "channel option"
  lc_mode :: "mode option"
  lc_edition :: "edition option option"
  lc_crate_type :: "crate_type option"
  lc_tests :: "bool option"
  lc_backtrace :: "bool option"

record labels = labels_core +
  lb_endpoint :: endpoint
  lb_outcome :: metric_outcome

definition label_names :: "string list" where
  "label_names = [''endpoint'', ''outcome'', ''target'', ''channel'', ''mode'', ''edition'', ''crate_type'',
     ''tests'', ''backtrace'']"

definition bool_label :: "bool option \<Rightarrow> string" where
  "bool_label v = (case v of None \<Rightarrow> [] | Some b \<Rightarrow> if b then ''true'' else ''false'')"

fun target_label :: "compile_target option \<Rightarrow> string" where
  "target_label (Some (Assembly _ _ _)) = ''Assembly''"
| "target_label (Some Hir) = ''Hir''"
| "target_label (Some LlvmIr) = ''LlvmIr''"
| "target_label (Some Mir) = ''Mir''"
| "target_label (Some Wasm) = ''Wasm''"
| "target_label None = []"

fun channel_label :: "channel option \<Rightarrow> string" where
  "channel_label (Some Stable) = ''Stable''"
| "channel_label (Some Beta) = ''Beta''"
| "channel_label (Some Nightly) = ''Nightly''"
| "channel_label None = []"

fun mode_label :: "mode option \<Rightarrow> string" where
  "mode_label (Some Debug) = ''Debug''"
| "mode_label (Some Release) = ''Release''"
| "mode_label None = []"

fun edition_label :: "edition option option \<Rightarrow> string" where
  "edition_label None = []"
| "edition_label (Some None) = ''Unspecified''"
| "edition_label (Some (Some Rust2015)) = ''Rust2015''"
| "edition_label (Some (Some Rust2018)) = ''Rust2018''"
| "edition_label (Some (Some Rust2021)) = ''Rust2021''"
| "edition_label (Some (Some Rust2024)) = ''Rust2024''"

fun crate_type_label :: "crate_type option \<Rightarrow> string" where
  "crate_type_label (Some Binary) = ''Binary''"
| "crate_type_label (Some (Library _)) = ''Library''"
| "crate_type_label None = []"

definition as_values :: "labels \<Rightarrow> string list" where
  "as_values l = [endpoint_str (lb_endpoint l), outcome_str (lb_outcome l), target_label (lc_target l),
     channel_label (lc_channel l), mode_label (lc_mode l), edition_label (lc_edition l),
     crate_type_label (lc_crate_type l), bool_label (lc_tests l), bool_label (lc_backtrace l)]"

definition labels_complete :: "endpoint \<Rightarrow> labels_core \<Rightarrow> metric_outcome \<Rightarrow> labels" where
  "labels_complete endpoint core outcome = labels_core.extend core \<lparr>lb_endpoint = endpoint, lb_outcome = outcome\<rparr>"

definition compile_labels :: "compile_request \<Rightarrow> labels_core" where
  "compile_labels r = \<lparr>lc_target = Some (cr_target r), lc_channel = Some (cr_channel r), lc_mode = Some (cr_mode r),
     lc_edition = Some (Some (cr_edition r)), lc_crate_type = Some (cr_crate_type r),
     lc_tests = Some (cr_tests r), lc_backtrace = Some (cr_backtrace r)\<rparr>"

definition execute_labels :: "execute_request \<Rightarrow> labels_core" where
  "execute_labels r = \<lparr>lc_target = None, lc_channel = Some (er_channel r), lc_mode = Some (er_mode r),
     lc_edition = Some (Some (er_edition r)), lc_crate_type = Some (er_crate_type r),
     lc_tests = Some (er_tests r), lc_backtrace = Some (er_backtrace r)\<rparr>"

definition format_labels :: "format_request \<Rightarrow> labels_core" where
  "format_labels r = \<lparr>lc_target = None, lc_channel = Some (fr_channel r), lc_mode = None,
     lc_edition = Some (Some (fr_edition r)), lc_crate_type = Some (fr_crate_type r),
     lc_tests = None, lc_backtrace = None\<rparr>"

definition clippy_labels :: "clippy_request \<Rightarrow> labels_core" where
  "clippy_labels r = \<lparr>lc_target = None, lc_channel = Some (cl_channel r), lc_mode = None,
     lc_edition = Some (Some (cl_edition r)), lc_crate_type = Some (cl_crate_type r),
     lc_tests = None, lc_backtrace = None\<rparr>"

definition miri_labels :: "miri_request \<Rightarrow> labels_core" where
  "miri_labels r = \<lparr>lc_target = None, lc_channel = Some (mr_channel r), lc_mode = None,
     lc_edition = Some (Some (mr_edition r)), lc_crate_type = Some (mr_crate_type r),
     lc_tests = Some (mr_tests r), lc_backtrace = None\<rparr>"

definition macro_expansion_labels :: "macro_expansion_request \<Rightarrow> labels_core" where
  "macro_expansion_labels r = \<lparr>lc_target = None, lc_channel = Some (me_channel r), lc_mode = None,
     lc_edition = Some (Some (me_edition r)), lc_crate_type = Some (me_crate_type r),
     lc_tests = None, lc_backtrace = None\<rparr>"

text \<open>The observations, each with its label values and the seconds it took.\<close>

type_synonym histogram = "(string list \<times> f64) list"

definition record_metric_complete :: "labels \<Rightarrow> f64 \<Rightarrow> histogram \<Rightarrow> histogram" where
  "record_metric_complete l elapsed obs = obs @ [(as_values l, elapsed)]"

definition record_metric ::
    "endpoint \<Rightarrow> labels_core \<Rightarrow> metric_outcome \<Rightarrow> f64 \<Rightarrow> histogram \<Rightarrow> histogram" where
  "record_metric endpoint core outcome elapsed obs =
     record_metric_complete (labels_complete endpoint core outcome) elapsed obs"

definition no_labels :: labels_core where
  "no_labels = \<lparr>lc_target = None, lc_channel = None, lc_mode = None, lc_edition = None, lc_crate_type = None,
     lc_tests = None, lc_backtrace = None\<rparr>"

text \<open>The body's response is returned as it is.\<close>

definition track_metric_no_request_async ::
    "endpoint \<Rightarrow> ('e, 'r) result \<Rightarrow> f64 \<Rightarrow> histogram \<Rightarrow> ('e, 'r) result \<times> histogram" where
  "track_metric_no_request_async endpoint response elapsed obs =
     (response, record_metric_complete
        (labels_complete endpoint no_labels (if is_ok response then Success else ErrorServer)) elapsed obs)"

lemma endpoint_str_inj: "endpoint_str a = endpoint_str b \<longleftrightarrow> a = b"
  by (cases a; cases b) simp_all

lemma outcome_str_inj: "outcome_str p = outcome_str q \<longleftrightarrow> p = q"
  by (cases p; cases q) simp_all

lemma channel_label_inj: "channel_label c = channel_label d \<longleftrightarrow> c = d"
  by (cases c rule: channel_label.cases; cases d rule: channel_label.cases) simp_all

lemma mode_label_inj: "mode_label m = mode_label n \<longleftrightarrow> m = n"
  by (cases m rule: mode_label.cases; cases n rule: mode_label.cases) simp_all

lemma bool_label_inj: "bool_label x = bool_label y \<longleftrightarrow> x = y"
  by (auto simp: bool_label_def split: option.splits if_splits)

lemmas label_injs = endpoint_str_inj outcome_str_inj channel_label_inj mode_label_inj bool_label_inj

lemma edition_label_inj: "edition_label e = edition_label f \<longleftrightarrow> e = f"
  by (cases e rule: edition_label.cases; cases f rule: edition_label.cases) simp_all

text \<open>Which of the labelled values a metric can tell apart: all but the options of the assembly output
  and the kind of a library.\<close>

fun target_kind :: "compile_target \<Rightarrow> compile_target" where
  "target_kind (Assembly _ _ _) = Assembly Att Demangle Filter"
| "target_kind t = t"

fun crate_kind :: "crate_type \<Rightarrow> crate_type" where
  "crate_kind (Library _) = Library Lib"
| "crate_kind Binary = Binary"

lemma target_label_inj: "target_label a = target_label b \<longleftrightarrow> map_option target_kind a = map_option target_kind b"
  by (cases a rule: target_label.cases; cases b rule: target_label.cases) simp_all

lemma crate_type_label_inj: "crate_type_label a = crate_type_label b \<longleftrightarrow> map_option crate_kind a = map_option crate_kind b"
  by (cases a rule: crate_type_label.cases; cases b rule: crate_type_label.cases) simp_all

text \<open>Two requests are counted in the same series of the request histogram exactly when they agree
  on the endpoint, the outcome and every option, up to the flavour of the assembly output and the
  kind of library; the code of the user never reaches a label.\<close>

theorem labels_identify:
  "length (as_values l) = length label_names \<and>
   (as_values l = as_values k \<longleftrightarrow> lb_endpoint l = lb_endpoint k \<and> lb_outcome l = lb_outcome k \<and>
     map_option target_kind (lc_target l) = map_option target_kind (lc_target k) \<and> lc_channel l = lc_channel k \<and>
     lc_mode l = lc_mode k \<and> lc_edition l = lc_edition k \<and>
     map_option crate_kind (lc_crate_type l) = map_option crate_kind (lc_crate_type k) \<and>
     lc_tests l = lc_tests k \<and> lc_backtrace l = lc_backtrace k) \<and>
   as_values (labels_complete ep (compile_labels r) out) =
     as_values (labels_complete ep (compile_labels (r\<lparr>cr_code := c\<rparr>)) out)"
  by (simp add: as_values_def label_names_def label_injs edition_label_inj target_label_inj
      crate_type_label_inj compile_labels_def labels_complete_def labels_core.defs)

end
