(* ===== verification/Cache.thy ===== *)
theory Cache
  imports Playground_Prelude
begin

text \<open>
  \<open>ui/src/server_axum/cache.rs\<close>: the task that keeps the crates and the versions for the metadata
  endpoints. Its state is the cached value, the timer after which it is renewed and the task that
  makes a new one. Times are milliseconds of the system clock, which is taken not to run backwards.
\<close>

subsection \<open>\<open>CacheInfo\<close>\<close>

datatype 'e cache_error = CacheEmpty | CacheReal 'e

record 'v cache_info =
  cai_value :: 'v
  cai_creation_time :: nat
  cai_validation_time :: nat

type_synonym ('e, 'a) cached = "('e cache_error, 'a) result cache_info"

definition cache_build :: "'v \<Rightarrow> nat \<Rightarrow> 'v cache_info" where
  "cache_build v now = \<lparr>cai_value = v, cai_creation_time = now, cai_validation_time = now\<rparr>"

definition stamped_value :: "'v cache_info \<Rightarrow> 'v \<times> nat" where
  "stamped_value i = (cai_value i, cai_creation_time i)"

definition try_combine_with_previous :: "('e, 'a) cached \<Rightarrow> ('e, 'a) cached \<Rightarrow> ('e, 'a) cached" where
  "try_combine_with_previous this old =
     (case (cai_value old, cai_value this) of
        (Err _, Ok _) \<Rightarrow> this
      | (Err _, Err _) \<Rightarrow> this
      | (Ok _, Err _) \<Rightarrow> old
      | (Ok v, Ok w) \<Rightarrow> if v = w then old\<lparr>cai_validation_time := cai_validation_time this\<rparr> else this)"

subsection \<open>\<open>cache_task\<close>\<close>

definition sandbox_cache_time_to_live :: nat where "sandbox_cache_time_to_live = 10 * 60 * 1000"
definition sandbox_cache_error_time_to_live :: nat where "sandbox_cache_error_time_to_live = 10 * 1000"
definition sandbox_cache_initial_delay :: nat where "sandbox_cache_initial_delay = 100"

text \<open>
  \<open>cst_expires\<close> is when the timer fires, while it is armed; \<open>cst_working\<close> is when the running
  generator was started. \<open>cst_answers\<close> is what was sent to the askers, \<open>cst_generators\<close> counts the
  generators started.
\<close>

record ('e, 'a) cache_state =
  cst_value :: "('e, 'a) cached"
  cst_expires :: "nat option"
  cst_working :: "nat option"
  cst_answers :: "(('e cache_error, 'a) result \<times> nat) list"
  cst_generators :: nat
  cst_now :: nat
  cst_stopped :: bool
  cst_panicked :: bool

definition cache_start :: "nat \<Rightarrow> ('e, 'a) cache_state" where
  "cache_start now = \<lparr>cst_value = cache_build (Err CacheEmpty) now,
     cst_expires = Some (now + sandbox_cache_initial_delay), cst_working = None, cst_answers = [],
     cst_generators = 0, cst_now = now, cst_stopped = False, cst_panicked = False\<rparr>"

text \<open>
  The events, each at a time. The generator's task returns its result with the time it ended, or
  it panicked.
\<close>

datatype ('e, 'a) cache_event =
    CacheRx nat bool
  | CacheExpired nat
  | CacheNew nat "(join_error, ('e, 'a) result \<times> nat) result"

fun cache_time :: "('e, 'a) cache_event \<Rightarrow> nat" where
  "cache_time (CacheRx t _) = t" | "cache_time (CacheExpired t) = t" | "cache_time (CacheNew t _) = t"

definition cache_new :: "nat \<Rightarrow> (join_error, ('e, 'a) result \<times> nat) result \<Rightarrow> ('e, 'a) cache_state \<Rightarrow> ('e, 'a) cache_state" where
  "cache_new t new s =
     (if cst_expires s \<noteq> None then s\<lparr>cst_panicked := True\<rparr>
      else let info = (case new of
                  Ok (r, at) \<Rightarrow> cache_build (map_err CacheReal r) at
                | Err _ \<Rightarrow> cache_build (Err CacheEmpty) t);
               cached = try_combine_with_previous info (cst_value s);
               ttl = (if is_ok (cai_value cached) then sandbox_cache_time_to_live
                      else sandbox_cache_error_time_to_live)
           in s\<lparr>cst_value := cached, cst_expires := Some (t + ttl), cst_working := None\<rparr>)"

fun cache_step :: "('e, 'a) cache_state \<Rightarrow> ('e, 'a) cache_event \<Rightarrow> ('e, 'a) cache_state" where
  "cache_step s (CacheRx t False) = s\<lparr>cst_now := t, cst_stopped := True\<rparr>"
| "cache_step s (CacheRx t True) =
     s\<lparr>cst_now := t, cst_answers := cst_answers s @ [stamped_value (cst_value s)]\<rparr>"
| "cache_step s (CacheExpired t) =
     (if cst_working s \<noteq> None then s\<lparr>cst_now := t, cst_expires := None, cst_panicked := True\<rparr>
      else s\<lparr>cst_now := t, cst_expires := None, cst_working := Some t, cst_generators := cst_generators s + 1\<rparr>)"
| "cache_step s (CacheNew t new) = cache_new t new (s\<lparr>cst_now := t\<rparr>)"

text \<open>The timer fires once and not early; a generator ends after it was started.\<close>

fun cache_ready :: "('e, 'a) cache_state \<Rightarrow> ('e, 'a) cache_event \<Rightarrow> bool" where
  "cache_ready s (CacheRx t _) = True"
| "cache_ready s (CacheExpired t) = (case cst_expires s of None \<Rightarrow> False | Some d \<Rightarrow> d \<le> t)"
| "cache_ready s (CacheNew t new) = (case cst_working s of None \<Rightarrow> False | Some began \<Rightarrow>
     (case new of Ok (r, at) \<Rightarrow> began \<le> at \<and> at \<le> t | Err _ \<Rightarrow> True))"

definition cache_enabled :: "('e, 'a) cache_state \<Rightarrow> ('e, 'a) cache_event \<Rightarrow> bool" where
  "cache_enabled s e \<longleftrightarrow> \<not> cst_stopped s \<and> \<not> cst_panicked s \<and> cst_now s \<le> cache_time e \<and> cache_ready s e"

subsection \<open>Invariant\<close>

text \<open>Stamped good values that differ are at least one time to live apart.\<close>

definition apart :: "('a \<times> nat) set \<Rightarrow> bool" where
  "apart A \<longleftrightarrow> (\<forall>(v, c) \<in> A. \<forall>(w, d) \<in> A. (v, c) = (w, d) \<or>
     c + sandbox_cache_time_to_live \<le> d \<or> d + sandbox_cache_time_to_live \<le> c)"

definition good :: "(('e cache_error, 'a) result \<times> nat) list \<Rightarrow> ('a \<times> nat) set" where
  "good xs = {(v, c). (Ok v, c) \<in> set xs}"

definition cache_inv :: "('e, 'a) cache_state \<Rightarrow> bool" where
  "cache_inv s \<longleftrightarrow> \<not> cst_panicked s \<and> (cst_expires s = None \<longleftrightarrow> cst_working s \<noteq> None) \<and>
     (\<forall>w. cst_working s = Some w \<longrightarrow> w \<le> cst_now s) \<and>
     (case cai_value (cst_value s) of
        Err _ \<Rightarrow> good (cst_answers s) = {}
      | Ok v \<Rightarrow> apart (insert (v, cai_creation_time (cst_value s)) (good (cst_answers s))) \<and>
          (\<forall>(w, d) \<in> good (cst_answers s). d \<le> cai_creation_time (cst_value s)) \<and>
          (\<forall>t. cst_expires s = Some t \<or> cst_working s = Some t \<longrightarrow>
             cai_creation_time (cst_value s) + sandbox_cache_time_to_live \<le> t))"

lemma good_snoc: "good (xs @ [(Ok v, c)]) = insert (v, c) (good xs)" "good (xs @ [(Err e, c)]) = good xs"
  by (auto simp: good_def)

lemma good_Nil [simp]: "good [] = {}" by (simp add: good_def)

lemma apart_later:
  assumes "apart (insert (v, c) A)" and "\<forall>(w, d) \<in> A. d \<le> c" and "c + sandbox_cache_time_to_live \<le> c'"
  shows "apart (insert (v', c') A)" and "\<forall>(w, d) \<in> A. d \<le> c'"
  using assms by (fastforce simp: apart_def)+

lemma apart_mono: "apart A \<Longrightarrow> B \<subseteq> A \<Longrightarrow> apart B"
  unfolding apart_def by blast

lemma apart_single: "apart {(v, c)}"
  by (simp add: apart_def)

lemma cache_start_inv: "cache_inv (cache_start now)"
  by (simp add: cache_inv_def cache_start_def cache_build_def)

lemma cache_rx_inv: "cache_inv s \<Longrightarrow> cst_now s \<le> t \<Longrightarrow> cache_inv (cache_step s (CacheRx t asked))"
  by (cases asked; cases "cai_value (cst_value s)")
    (auto simp: cache_inv_def stamped_value_def good_snoc le_trans)

lemma cache_expired_inv:
  "cache_inv s \<Longrightarrow> cache_enabled s (CacheExpired t) \<Longrightarrow> cache_inv (cache_step s (CacheExpired t))"
  by (cases "cai_value (cst_value s)") (auto simp: cache_inv_def cache_enabled_def split: option.splits)

text \<open>A good answer is kept with its time unless a different good answer replaces it.\<close>

lemma combine_keeps_time:
  assumes "cai_value previous = Ok v"
  shows "cai_value (try_combine_with_previous info previous) = Ok v \<and>
      cai_creation_time (try_combine_with_previous info previous) = cai_creation_time previous \<or>
    (\<exists>w. try_combine_with_previous info previous = info \<and> cai_value info = Ok w)"
  using assms by (cases "cai_value info") (auto simp: try_combine_with_previous_def)

lemma cache_new_inv:
  assumes inv: "cache_inv s" and en: "cache_enabled s (CacheNew t new)"
  shows "cache_inv (cache_step s (CacheNew t new))"
proof -
  from en obtain began where began: "cst_working s = Some began" "cst_now s \<le> t"
    by (auto simp: cache_enabled_def split: option.splits)
  with inv have none: "cst_expires s = None" and le: "began \<le> t" by (auto simp: cache_inv_def intro: le_trans)
  define info :: "('a, 'b) cached" where "info = (case new of
      Ok (r, at) \<Rightarrow> cache_build (map_err CacheReal r) at | Err _ \<Rightarrow> cache_build (Err CacheEmpty) t)"
  define cached where "cached = try_combine_with_previous info (cst_value s)"
  have step: "cache_step s (CacheNew t new) = s\<lparr>cst_now := t, cst_value := cached,
      cst_expires := Some (t + (if is_ok (cai_value cached) then sandbox_cache_time_to_live
        else sandbox_cache_error_time_to_live)), cst_working := None\<rparr>"
    using none by (simp add: cache_new_def Let_def info_def cached_def)
  have info: "began \<le> cai_creation_time info \<and> cai_creation_time info \<le> t" if "cai_value info = Ok v" for v
    using that en began(1) by (auto simp: info_def cache_build_def cache_enabled_def split: sum.splits)
  show ?thesis
  proof (cases "cai_value (cst_value s)")
    case (Inl e)
    then have cached: "cached = info" "good (cst_answers s) = {}"
      using inv by (auto simp: cached_def try_combine_with_previous_def cache_inv_def split: sum.splits)
    with inv info show ?thesis
      unfolding step by (cases "cai_value info") (auto simp: cache_inv_def apart_single)
  next
    case (Inr v)
    define c where "c = cai_creation_time (cst_value s)"
    have old: "apart (insert (v, c) (good (cst_answers s)))" "\<forall>(w, d) \<in> good (cst_answers s). d \<le> c"
      "c + sandbox_cache_time_to_live \<le> began"
      using inv Inr began(1) by (auto simp: cache_inv_def c_def)
    from combine_keeps_time [OF Inr, of info] consider (same) "cai_value cached = Ok v" "cai_creation_time cached = c"
      | (changed) w where "cached = info" "cai_value info = Ok w"
      unfolding cached_def c_def by blast
    then show ?thesis
    proof cases
      case same
      with inv old le show ?thesis unfolding step by (auto simp: cache_inv_def)
    next
      case changed
      with info [of w] old(3) have "c + sandbox_cache_time_to_live \<le> cai_creation_time info" by simp
      from apart_later [OF old(1,2) this] show ?thesis
        using changed info [of w] inv unfolding step by (auto simp: cache_inv_def)
    qed
  qed
qed

lemma cache_step_inv: "cache_inv s \<Longrightarrow> cache_enabled s e \<Longrightarrow> cache_inv (cache_step s e)"
proof (cases e)
  case (CacheRx t asked)
  then show "cache_inv s \<Longrightarrow> cache_enabled s e \<Longrightarrow> cache_inv (cache_step s e)"
    using cache_rx_inv by (auto simp: cache_enabled_def)
qed (simp_all only: cache_expired_inv cache_new_inv)

interpretation ca: event_loop cache_enabled cache_step cache_inv
  by unfold_locales (rule cache_step_inv)

subsection \<open>The last good value is served\<close>

text \<open>The good values the generators delivered, in order.\<close>

fun deliveries :: "('e, 'a) cache_event list \<Rightarrow> 'a list" where
  "deliveries [] = []"
| "deliveries (CacheNew t (Ok (Ok v, at)) # es) = v # deliveries es"
| "deliveries (e # es) = deliveries es"

fun delivered :: "('e, 'a) cache_event \<Rightarrow> 'a option" where
  "delivered (CacheNew t (Ok (Ok v, at))) = Some v"
| "delivered e = None"

lemma deliveries_append: "deliveries (es @ fs) = deliveries es @ deliveries fs"
  by (induction es rule: deliveries.induct) simp_all

lemma deliveries_one: "deliveries [e] = (case delivered e of None \<Rightarrow> [] | Some v \<Rightarrow> [v])"
  by (cases e rule: delivered.cases) simp_all

definition value_of :: "('e, 'a) cache_state \<Rightarrow> 'a option" where
  "value_of s = res_ok (cai_value (cst_value s))"

lemma cache_rx_value [simp]: "cst_value (cache_step s (CacheRx t asked)) = cst_value s"
  by (cases asked) simp_all

lemma value_of_step: "cst_panicked (cache_step s e) = False \<Longrightarrow>
    value_of (cache_step s e) = (case delivered e of None \<Rightarrow> value_of s | Some v \<Rightarrow> Some v)"
  by (cases e rule: delivered.cases; cases "cai_value (cst_value s)")
    (auto simp: value_of_def cache_new_def try_combine_with_previous_def cache_build_def Let_def
      split: sum.splits if_splits prod.splits)

lemma value_of_run: "cache_inv s \<Longrightarrow> enabled_run cache_enabled cache_step s es \<Longrightarrow>
    value_of (foldl cache_step s es) = (if deliveries es = [] then value_of s else Some (last (deliveries es)))"
proof (induction es rule: rev_induct)
  case (snoc e es)
  then have run: "enabled_run cache_enabled cache_step s es" by (simp add: enabled_run_append)
  have "cache_inv (foldl cache_step s (es @ [e]))" by (rule ca.run_inv [OF snoc.prems])
  then have "value_of (foldl cache_step s (es @ [e])) =
      (case delivered e of None \<Rightarrow> value_of (foldl cache_step s es) | Some v \<Rightarrow> Some v)"
    by (simp add: value_of_step cache_inv_def)
  with snoc.IH [OF snoc.prems(1) run] show ?case
    by (simp add: deliveries_append deliveries_one split: option.splits)
qed simp

text \<open>Generators are started one at a time.\<close>

definition news :: "('e, 'a) cache_event list \<Rightarrow> nat" where
  "news es = length (filter (\<lambda>e. case e of CacheNew _ _ \<Rightarrow> True | _ \<Rightarrow> False) es)"

lemma generators_step: "cache_inv s \<Longrightarrow> cache_enabled s e \<Longrightarrow>
    cst_generators (cache_step s e) + (case cst_working s of None \<Rightarrow> 0 | Some _ \<Rightarrow> 1) =
    cst_generators s + news [e] + (case cst_working (cache_step s e) of None \<Rightarrow> 0 | Some _ \<Rightarrow> 1)"
  by (cases "(s, e)" rule: cache_step.cases)
    (auto simp: news_def cache_new_def Let_def cache_inv_def cache_enabled_def split: option.splits)

lemma news_Cons: "news (e # es) = news [e] + news es"
  by (simp add: news_def)

lemma generators_run: "cache_inv s \<Longrightarrow> enabled_run cache_enabled cache_step s es \<Longrightarrow>
    cst_generators (foldl cache_step s es) + (case cst_working s of None \<Rightarrow> 0 | Some _ \<Rightarrow> 1) =
    cst_generators s + news es + (case cst_working (foldl cache_step s es) of None \<Rightarrow> 0 | Some _ \<Rightarrow> 1)"
proof (induction es arbitrary: s)
  case (Cons e es)
  then have en: "cache_enabled s e" and inv: "cache_inv (cache_step s e)" by (auto intro: cache_step_inv)
  from Cons.IH [OF inv] Cons.prems(2) generators_step [OF Cons.prems(1) en] show ?case
    by (simp add: news_Cons [of e es])
qed (simp add: news_def)

lemma answers_apart:
  assumes "enabled_run cache_enabled cache_step (cache_start now) es"
  shows "apart (good (cst_answers (foldl cache_step (cache_start now) es)))"
proof -
  define s where "s = foldl cache_step (cache_start now) es"
  note inv = ca.run_inv [OF cache_start_inv assms, folded s_def]
  have "apart (good (cst_answers s))"
  proof (cases "cai_value (cst_value s)")
    case (Inr v)
    with inv have "apart (insert (v, cai_creation_time (cst_value s)) (good (cst_answers s)))"
      by (simp add: cache_inv_def)
    then show ?thesis by (rule apart_mono) blast
  qed (use inv in \<open>simp add: cache_inv_def apart_def\<close>)
  then show ?thesis by (simp add: s_def)
qed

subsection \<open>Asking the cache\<close>

text \<open>\<open>CacheTx::get\<close>: the answer of the task, when the question reached it and the answer came back.\<close>

datatype 'e cache_tx_error = SendToTask send_error | RecvFromTask recv_error | CacheInner "'e cache_error"

definition cache_tx_get ::
    "bool \<Rightarrow> (('e cache_error, 'a) result \<times> nat) option \<Rightarrow> ('e cache_tx_error, 'a \<times> nat) result" where
  "cache_tx_get sent answer =
     (if \<not> sent then Err (SendToTask ())
      else case answer of
        None \<Rightarrow> Err (RecvFromTask ())
      | Some (value, stamp) \<Rightarrow> res_bind (map_err CacheInner value) (\<lambda>v. Ok (v, stamp)))"

subsection \<open>Properties\<close>

text \<open>C30: the cache task never hits its assertions and runs one generator at a time; once a generator has
  delivered, everyone who asks is served the last value delivered, whatever failed or panicked
  since; and two good answers with different stamps or values are stamped at least one time to
  live apart, so that a stamp stands for one value.\<close>

theorem cache_serves_last_good:
  assumes "enabled_run cache_enabled cache_step (cache_start now) es"
  defines "s \<equiv> foldl cache_step (cache_start now) es"
  shows "\<not> cst_panicked s \<and>
    cst_generators s = news es + (case cst_working s of None \<Rightarrow> 0 | Some _ \<Rightarrow> 1) \<and>
    (deliveries es \<noteq> [] \<longrightarrow> cai_value (cst_value s) = Ok (last (deliveries es))) \<and>
    (deliveries es = [] \<longrightarrow> is_err (cai_value (cst_value s))) \<and> apart (good (cst_answers s))"
proof -
  note inv = ca.run_inv [OF cache_start_inv assms(1), folded s_def]
  have "value_of s = (if deliveries es = [] then None else Some (last (deliveries es)))"
    using value_of_run [OF cache_start_inv assms(1)]
    by (simp add: s_def value_of_def cache_start_def cache_build_def)
  moreover have "cst_generators s = news es + (case cst_working s of None \<Rightarrow> 0 | Some _ \<Rightarrow> 1)"
    using generators_run [OF cache_start_inv assms(1)] by (simp add: s_def cache_start_def)
  moreover have "apart (good (cst_answers s))" unfolding s_def by (rule answers_apart [OF assms(1)])
  moreover have "\<not> cst_panicked s" using inv by (simp add: cache_inv_def)
  ultimately show ?thesis
    by (cases "cai_value (cst_value s)") (simp_all add: value_of_def split: if_splits)
qed

definition sample_cache_run :: "(string, nat) cache_event list" where
  "sample_cache_run = [CacheRx 10 True, CacheExpired 100, CacheNew 200 (Ok (Ok 7, 150)), CacheRx 300 True,
     CacheExpired 700000, CacheNew 700500 (Ok (Err ''down'', 700100)), CacheRx 700600 True]"

theorem cache_serves_last_good_witness:
  "cai_value (cst_value (foldl cache_step (cache_start 0) sample_cache_run)) = Ok 7"
proof -
  have "enabled_run cache_enabled cache_step (cache_start 0) sample_cache_run"
    by (simp add: sample_cache_run_def cache_enabled_def cache_start_def cache_new_def cache_build_def
        try_combine_with_previous_def Let_def sandbox_cache_time_to_live_def sandbox_cache_initial_delay_def)
  from cache_serves_last_good [OF this] show ?thesis by (simp add: sample_cache_run_def)
qed

end
