(* ===== verification/Request_Db.thy ===== *)
theory Request_Db
  imports Playground_Prelude
begin

text \<open>
  \<open>ui/src/request_database.rs\<close>: the log of requests. A row is inserted when a request starts, and
  the guard of the request ends the row, once, with how the request went. SQLite is outside: the
  statements are modelled on the list of rows, whether a statement succeeds and the id an insertion
  returns are answers.
\<close>

datatype how = Complete | HowAbandoned | HowError

fun how_code :: "how \<Rightarrow> nat" where
  "how_code Complete = 0" | "how_code HowAbandoned = 1" | "how_code HowError = 2"

datatype database_error =
    DbCreate string | DbCreateMemory string | DbInitialize string | DbStartRequest string | DbEndRequest string

datatype handle_error =
    HeDatabase database_error
  | SendStartRequest send_error | RecvStartRequest recv_error
  | SendEndRequest send_error | RecvEndRequest recv_error

record row =
  row_id :: int
  row_category :: string
  row_payload :: string
  row_how :: "nat option"

subsection \<open>\<open>Database\<close>\<close>

text \<open>\<open>INSERT ... RETURNING id\<close> and \<open>UPDATE ... WHERE id = ?\<close>.\<close>

definition db_start_request ::
    "string \<Rightarrow> string \<Rightarrow> (string, int) result \<Rightarrow> row list \<Rightarrow> (database_error, int) result \<times> row list" where
  "db_start_request category payload answer rows =
     (case answer of
        Err e \<Rightarrow> (Err (DbStartRequest e), rows)
      | Ok i \<Rightarrow> (Ok i, rows @ [\<lparr>row_id = i, row_category = category, row_payload = payload, row_how = None\<rparr>]))"

definition db_end_request ::
    "int \<Rightarrow> how \<Rightarrow> (string, unit) result \<Rightarrow> row list \<Rightarrow> (database_error, unit) result \<times> row list" where
  "db_end_request i how answer rows =
     (case answer of
        Err e \<Rightarrow> (Err (DbEndRequest e), rows)
      | Ok _ \<Rightarrow> (Ok (), map (\<lambda>r. if row_id r = i then r\<lparr>row_how := Some (how_code how)\<rparr> else r) rows))"

text \<open>\<open>Database::initialize\<close>: the connection, then the tables.\<close>

definition db_initialize :: "(string, unit) result \<Rightarrow> (string, unit) result \<Rightarrow> (database_error, unit) result" where
  "db_initialize opened tables = res_bind (map_err DbCreate opened) (\<lambda>_. map_err DbInitialize tables)"

definition db_initialize_memory :: "(string, unit) result \<Rightarrow> (string, unit) result \<Rightarrow> (database_error, unit) result" where
  "db_initialize_memory opened tables = res_bind (map_err DbCreateMemory opened) (\<lambda>_. map_err DbInitialize tables)"

subsection \<open>\<open>Handle\<close> and its guard\<close>

text \<open>A message reaches the database's task and the answer comes back, or either channel is closed; in
  the last case the statement was run all the same.\<close>

datatype delivery = NotSent | AnswerLost | Answered

definition handle_start_request ::
    "delivery \<Rightarrow> string \<Rightarrow> string \<Rightarrow> (string, int) result \<Rightarrow> row list \<Rightarrow> (handle_error, int) result \<times> row list" where
  "handle_start_request del category payload answer rows =
     (case del of
        NotSent \<Rightarrow> (Err (SendStartRequest ()), rows)
      | AnswerLost \<Rightarrow> (Err (RecvStartRequest ()), snd (db_start_request category payload answer rows))
      | Answered \<Rightarrow> (case db_start_request category payload answer rows of (r, rows) \<Rightarrow> (map_err HeDatabase r, rows)))"

definition handle_end_request ::
    "delivery \<Rightarrow> int \<Rightarrow> how \<Rightarrow> (string, unit) result \<Rightarrow> row list \<Rightarrow> (handle_error, unit) result \<times> row list" where
  "handle_end_request del i how answer rows =
     (case del of
        NotSent \<Rightarrow> (Err (SendEndRequest ()), rows)
      | AnswerLost \<Rightarrow> (Err (RecvEndRequest ()), snd (db_end_request i how answer rows))
      | Answered \<Rightarrow> (case db_end_request i how answer rows of (r, rows) \<Rightarrow> (map_err HeDatabase r, rows)))"

type_synonym end_guard = "(int \<times> how) option"

text \<open>\<open>attempt_start_request\<close> drops the error.\<close>

definition start_with_guard :: "(handle_error, int) result \<Rightarrow> end_guard" where
  "start_with_guard r = map_option (\<lambda>i. (i, HowAbandoned)) (res_ok r)"

text \<open>Dropping the inner guard spawns the end of its row, when a runtime is there to run it.\<close>

definition guard_drop :: "bool \<Rightarrow> end_guard \<Rightarrow> (int \<times> how) list" where
  "guard_drop runtime g = (case g of Some (i, how) \<Rightarrow> if runtime then [(i, how)] else [] | None \<Rightarrow> [])"

definition complete_now :: "bool \<Rightarrow> end_guard \<Rightarrow> ('e, 'a) result \<Rightarrow> ('e, 'a) result \<times> (int \<times> how) list" where
  "complete_now runtime g result =
     (result, case g of
        None \<Rightarrow> []
      | Some (i, _) \<Rightarrow> guard_drop runtime (Some (i, if is_err result then HowError else Complete)))"

subsection \<open>Requests in parallel\<close>

text \<open>
  Each request has a guard, or none when its start was not recorded; \<open>None\<close> in \<open>rl_guards\<close> stands
  for a guard that is gone. \<open>rl_pending\<close> are the ends that were spawned and have not run.
\<close>

record request_log =
  rl_rows :: "row list"
  rl_guards :: "end_guard option list"
  rl_pending :: "(int \<times> how) list"

definition empty_log :: request_log where
  "empty_log = \<lparr>rl_rows = [], rl_guards = [], rl_pending = []\<rparr>"

datatype log_event =
    StartRequest delivery string string "(string, int) result"
  | CompleteRequest nat "(unit, unit) result"
  | AbandonRequest nat
  | RunEnd nat delivery "(string, unit) result"

fun log_step :: "request_log \<Rightarrow> log_event \<Rightarrow> request_log" where
  "log_step s (StartRequest del category payload answer) =
     (case handle_start_request del category payload answer (rl_rows s) of
        (r, rows) \<Rightarrow> s\<lparr>rl_rows := rows, rl_guards := rl_guards s @ [Some (start_with_guard r)]\<rparr>)"
| "log_step s (CompleteRequest g result) =
     (case rl_guards s ! g of
        None \<Rightarrow> s
      | Some guard \<Rightarrow> s\<lparr>rl_guards := (rl_guards s)[g := None],
                        rl_pending := rl_pending s @ snd (complete_now True guard result)\<rparr>)"
| "log_step s (AbandonRequest g) =
     (case rl_guards s ! g of
        None \<Rightarrow> s
      | Some guard \<Rightarrow> s\<lparr>rl_guards := (rl_guards s)[g := None],
                        rl_pending := rl_pending s @ guard_drop True guard\<rparr>)"
| "log_step s (RunEnd k del answer) =
     (case rl_pending s ! k of
        (i, how) \<Rightarrow> s\<lparr>rl_rows := snd (handle_end_request del i how answer (rl_rows s)),
                       rl_pending := take k (rl_pending s) @ drop (Suc k) (rl_pending s)\<rparr>)"

text \<open>A primary key is new; a guard ends once.\<close>

fun log_enabled :: "request_log \<Rightarrow> log_event \<Rightarrow> bool" where
  "log_enabled s (StartRequest del category payload answer) =
     (case answer of Err _ \<Rightarrow> True | Ok i \<Rightarrow> i \<notin> row_id ` set (rl_rows s))"
| "log_enabled s (CompleteRequest g result) = (g < length (rl_guards s) \<and> rl_guards s ! g \<noteq> None)"
| "log_enabled s (AbandonRequest g) = (g < length (rl_guards s) \<and> rl_guards s ! g \<noteq> None)"
| "log_enabled s (RunEnd k del answer) = (k < length (rl_pending s))"

subsection \<open>What becomes of the rows\<close>

text \<open>The row of each request, in the order of their starts, when its start was recorded.\<close>

fun request_id :: "log_event \<Rightarrow> int option list" where
  "request_id (StartRequest del category payload answer) = [if del = Answered then res_ok answer else None]"
| "request_id _ = []"

definition request_ids :: "log_event list \<Rightarrow> int option list" where
  "request_ids es = concat (map request_id es)"

text \<open>How a request went: the first event that ends its guard.\<close>

fun fate_of :: "nat \<Rightarrow> log_event \<Rightarrow> how option" where
  "fate_of g (CompleteRequest g' result) = (if g' = g then Some (if is_err result then HowError else Complete) else None)"
| "fate_of g (AbandonRequest g') = (if g' = g then Some HowAbandoned else None)"
| "fate_of g _ = None"

definition fate :: "nat \<Rightarrow> log_event list \<Rightarrow> how option" where
  "fate g es = foldl (\<lambda>f e. case f of Some h \<Rightarrow> Some h | None \<Rightarrow> fate_of g e) None es"

text \<open>Every end that was run reached the database, which could do it.\<close>

fun end_done :: "log_event \<Rightarrow> bool" where
  "end_done (RunEnd k del answer) = (del \<noteq> NotSent \<and> is_ok answer)"
| "end_done _ = True"

lemma fate_Nil [simp]: "fate g [] = None" by (simp add: fate_def)

lemma fate_snoc: "fate g (es @ [e]) = (case fate g es of Some h \<Rightarrow> Some h | None \<Rightarrow> fate_of g e)"
  by (simp add: fate_def)

lemma request_ids_simps [simp]: "request_ids [] = []" "request_ids (es @ [e]) = request_ids es @ request_id e"
  by (simp_all add: request_ids_def)

definition end_of :: "log_event list \<Rightarrow> int \<Rightarrow> how \<Rightarrow> bool" where
  "end_of es i h \<longleftrightarrow> (\<exists>g < length (request_ids es). request_ids es ! g = Some i \<and> fate g es = Some h)"

text \<open>The guards are as the events left them, and the ids of the requests are new rows.\<close>

definition guards_ok :: "log_event list \<Rightarrow> request_log \<Rightarrow> bool" where
  "guards_ok es s \<longleftrightarrow> length (rl_guards s) = length (request_ids es) \<and>
     (\<forall>g. fate g es \<noteq> None \<longrightarrow> g < length (request_ids es)) \<and>
     (\<forall>g < length (request_ids es). rl_guards s ! g = (case fate g es of
        None \<Rightarrow> Some (map_option (\<lambda>i. (i, HowAbandoned)) (request_ids es ! g)) | Some _ \<Rightarrow> None))"

definition ids_ok :: "log_event list \<Rightarrow> request_log \<Rightarrow> bool" where
  "ids_ok es s \<longleftrightarrow> distinct (map row_id (rl_rows s)) \<and>
     (\<forall>g < length (request_ids es). \<forall>i. request_ids es ! g = Some i \<longrightarrow> i \<in> row_id ` set (rl_rows s)) \<and>
     (\<forall>g < length (request_ids es). \<forall>g' < length (request_ids es). \<forall>i.
        request_ids es ! g = Some i \<and> request_ids es ! g' = Some i \<longrightarrow> g = g')"

text \<open>Ends come from fates, and every fate leads to an end.\<close>

definition ends_ok :: "log_event list \<Rightarrow> request_log \<Rightarrow> bool" where
  "ends_ok es s \<longleftrightarrow> (\<forall>(i, h) \<in> set (rl_pending s). end_of es i h) \<and>
     (\<forall>r \<in> set (rl_rows s). \<forall>c. row_how r = Some c \<longrightarrow> (\<exists>h. end_of es (row_id r) h \<and> c = how_code h))"

definition fates_ok :: "log_event list \<Rightarrow> request_log \<Rightarrow> bool" where
  "fates_ok es s \<longleftrightarrow> (\<forall>i h. end_of es i h \<longrightarrow>
     (i, h) \<in> set (rl_pending s) \<or> (\<forall>r \<in> set (rl_rows s). row_id r = i \<longrightarrow> row_how r = Some (how_code h)))"

definition log_inv :: "log_event list \<Rightarrow> request_log \<Rightarrow> bool" where
  "log_inv es s \<longleftrightarrow> guards_ok es s \<and> ids_ok es s \<and> ends_ok es s \<and> (list_all end_done es \<longrightarrow> fates_ok es s)"

lemmas log_invs = guards_ok_def ids_ok_def ends_ok_def fates_ok_def

lemma log_start_inv: "log_inv [] empty_log"
  by (simp add: log_inv_def log_invs empty_log_def end_of_def)

lemma end_of_unique: "ids_ok es s \<Longrightarrow> end_of es i h \<Longrightarrow> end_of es i k \<Longrightarrow> h = k"
  unfolding end_of_def ids_ok_def by (metis option.inject)

lemma end_of_row: "ids_ok es s \<Longrightarrow> end_of es i h \<Longrightarrow> i \<in> row_id ` set (rl_rows s)"
  unfolding end_of_def ids_ok_def by blast

subsubsection \<open>A start\<close>

text \<open>What a start does to the rows: nothing, or a new open row; the guard has its id.\<close>

lemma start_cases:
  assumes "handle_start_request del category payload answer rows = (r, rows')"
  obtains (unchanged) "rows' = rows" "request_id (StartRequest del category payload answer) = [None]"
      "start_with_guard r = None"
    | (inserted) i new x where "rows' = rows @ [new]" "answer = Ok i" "row_id new = i" "row_how new = None"
        "request_id (StartRequest del category payload answer) = [x]" "x = None \<or> x = Some i"
        "start_with_guard r = map_option (\<lambda>i. (i, HowAbandoned)) x"
  using assms
  by (cases del; cases answer)
    (auto simp: handle_start_request_def db_start_request_def start_with_guard_def split: prod.splits)

lemma end_of_start:
  assumes "request_id e = [x]" and "\<And>g. fate g (es @ [e]) = fate g es"
    and "\<forall>g. fate g es \<noteq> None \<longrightarrow> g < length (request_ids es)"
  shows "end_of (es @ [e]) = end_of es"
proof -
  have "end_of (es @ [e]) i h \<longleftrightarrow> end_of es i h" for i h
    using assms by (fastforce simp: end_of_def nth_append less_Suc_eq)
  then show ?thesis by blast
qed

lemma start_inv:
  assumes inv: "log_inv es s" and en: "log_enabled s (StartRequest del category payload answer)"
  shows "log_inv (es @ [StartRequest del category payload answer]) (log_step s (StartRequest del category payload answer))"
proof -
  let ?e = "StartRequest del category payload answer"
  obtain r rows' where start: "handle_start_request del category payload answer (rl_rows s) = (r, rows')"
    by fastforce
  have fate: "fate g (es @ [?e]) = fate g es" for g by (simp add: fate_snoc split: option.split)
  have below: "\<forall>g. fate g es \<noteq> None \<longrightarrow> g < length (request_ids es)" using inv by (simp add: log_inv_def guards_ok_def)
  from start show ?thesis
  proof (cases rule: start_cases)
    case unchanged
    then show ?thesis
      using inv below fate end_of_start [OF unchanged(2) fate below] start
      by (auto simp: log_inv_def log_invs nth_append less_Suc_eq split: option.splits)
  next
    case (inserted i new x)
    have new: "i \<notin> row_id ` set (rl_rows s)" using en inserted(2) by simp
    have same: "end_of (es @ [?e]) = end_of es" by (rule end_of_start [OF inserted(5) fate below])
    have step: "log_step s ?e = s\<lparr>rl_rows := rl_rows s @ [new],
        rl_guards := rl_guards s @ [Some (map_option (\<lambda>i. (i, HowAbandoned)) x)]\<rparr>"
      using start inserted(1,7) by simp
    have ids: "request_ids (es @ [?e]) = request_ids es @ [x]" using inserted(5) by simp
    have "guards_ok (es @ [?e]) (log_step s ?e)"
      using inv below unfolding guards_ok_def step ids fate log_inv_def
      by (auto simp: nth_append less_Suc_eq split: option.splits)
    moreover have "ids_ok (es @ [?e]) (log_step s ?e)"
      using inv new inserted(3,6) unfolding ids_ok_def step ids log_inv_def
      by (auto simp: nth_append less_Suc_eq)
    moreover have "ends_ok (es @ [?e]) (log_step s ?e)"
      using inv inserted(4) unfolding ends_ok_def same step log_inv_def by auto
    moreover have "fates_ok (es @ [?e]) (log_step s ?e)" if "list_all end_done (es @ [?e])"
      using inv that new inserted(3) end_of_row [of es s] unfolding fates_ok_def same step log_inv_def
      by (auto; blast)
    ultimately show ?thesis by (simp add: log_inv_def)
  qed
qed

subsubsection \<open>The end of a guard\<close>

lemma guard_end_inv:
  assumes inv: "log_inv es s" and g: "g < length (rl_guards s)" "rl_guards s ! g \<noteq> None"
    and e: "request_id e = []" "\<And>g'. fate_of g' e = (if g' = g then Some h else None)" "end_done e"
    and step: "log_step s e = s\<lparr>rl_guards := (rl_guards s)[g := None],
      rl_pending := rl_pending s @ (case request_ids es ! g of None \<Rightarrow> [] | Some i \<Rightarrow> [(i, h)])\<rparr>"
  shows "log_inv (es @ [e]) (log_step s e)"
proof -
  have ids: "request_ids (es @ [e]) = request_ids es" using e(1) by simp
  have g': "g < length (request_ids es)" and none: "fate g es = None"
    using inv g by (auto simp: log_inv_def guards_ok_def split: option.splits)
  have fate: "fate k (es @ [e]) = (if k = g then Some h else fate k es)" for k
    using none by (auto simp: fate_snoc e(2) split: option.splits)
  have ends: "end_of (es @ [e]) i k \<longleftrightarrow> end_of es i k \<or> request_ids es ! g = Some i \<and> k = h" for i k
    using none g' unfolding end_of_def ids fate by auto
  have pending: "(i, k) \<in> set (rl_pending (log_step s e)) \<longleftrightarrow>
      (i, k) \<in> set (rl_pending s) \<or> request_ids es ! g = Some i \<and> k = h" for i k
    unfolding step by (auto split: option.splits)
  have rows: "rl_rows (log_step s e) = rl_rows s" unfolding step by simp
  have "guards_ok (es @ [e]) (log_step s e)"
    using inv g' unfolding guards_ok_def ids fate log_inv_def unfolding step
    by (auto simp: nth_list_update)
  moreover have "ids_ok (es @ [e]) (log_step s e)"
    using inv unfolding ids_ok_def ids rows log_inv_def by simp
  moreover have "ends_ok (es @ [e]) (log_step s e)"
    using inv pending unfolding ends_ok_def ends rows log_inv_def by blast
  moreover have "fates_ok (es @ [e]) (log_step s e)" if "list_all end_done (es @ [e])"
  proof -
    from inv that have "fates_ok es s" by (simp add: log_inv_def)
    then show ?thesis unfolding fates_ok_def ends rows pending by blast
  qed
  ultimately show ?thesis by (simp add: log_inv_def)
qed

lemma guard_at: "log_inv es s \<Longrightarrow> g < length (rl_guards s) \<Longrightarrow> rl_guards s ! g = Some guard \<Longrightarrow>
    guard = map_option (\<lambda>i. (i, HowAbandoned)) (request_ids es ! g)"
  by (auto simp: log_inv_def guards_ok_def split: option.splits)

subsubsection \<open>Running an end\<close>

lemma end_rows:
  assumes "(r, rows') = handle_end_request del i h answer rows"
  shows "rows' = rows \<or> rows' = map (\<lambda>r. if row_id r = i then r\<lparr>row_how := Some (how_code h)\<rparr> else r) rows"
    and "del \<noteq> NotSent \<Longrightarrow> is_ok answer \<Longrightarrow>
      rows' = map (\<lambda>r. if row_id r = i then r\<lparr>row_how := Some (how_code h)\<rparr> else r) rows"
  using assms by (cases del; cases answer; auto simp: handle_end_request_def db_end_request_def split: prod.splits)+

lemma updated_row: "r \<in> set (map (\<lambda>r. if row_id r = i then r\<lparr>row_how := x\<rparr> else r) rows) \<Longrightarrow> row_id r = i \<Longrightarrow>
    row_how r = x"
proof -
  let ?f = "\<lambda>r. if row_id r = i then r\<lparr>row_how := x\<rparr> else r"
  assume r: "r \<in> set (map ?f rows)" "row_id r = i"
  from r(1) obtain q where "r = ?f q" unfolding set_map by blast
  with r(2) show ?thesis by (cases "row_id q = i") simp_all
qed

lemma set_take_drop: "k < length xs \<Longrightarrow> insert (xs ! k) (set (take k xs) \<union> set (drop (Suc k) xs)) = set xs"
  by (metis Un_insert_right id_take_nth_drop list.simps(15) set_append)

text \<open>After the row of an ended request is updated, every end is still pending or in its row.\<close>

lemma updated_fates:
  assumes "fates_ok es s" and "ids_ok es s" and "end_of es i h" and "set (rl_pending s) = insert (i, h) rest"
  shows "\<forall>j c. end_of es j c \<longrightarrow> (j, c) \<in> rest \<or>
    (\<forall>r \<in> set (map (\<lambda>r. if row_id r = i then r\<lparr>row_how := Some (how_code h)\<rparr> else r) (rl_rows s)).
       row_id r = j \<longrightarrow> row_how r = Some (how_code c))"
proof (intro allI impI)
  let ?upd = "map (\<lambda>r. if row_id r = i then r\<lparr>row_how := Some (how_code h)\<rparr> else r) (rl_rows s)"
  fix j c assume end_jc: "end_of es j c"
  show "(j, c) \<in> rest \<or> (\<forall>r \<in> set ?upd. row_id r = j \<longrightarrow> row_how r = Some (how_code c))"
  proof (cases "j = i")
    case True
    then have "c = h" using end_of_unique [OF assms(2) end_jc, of h] assms(3) by blast
    then have "\<forall>r \<in> set ?upd. row_id r = j \<longrightarrow> row_how r = Some (how_code c)"
      unfolding True using updated_row by blast
    then show ?thesis by blast
  next
    case False
    from assms(1) end_jc have "(j, c) \<in> set (rl_pending s) \<or>
        (\<forall>r \<in> set (rl_rows s). row_id r = j \<longrightarrow> row_how r = Some (how_code c))"
      unfolding fates_ok_def by blast
    with False show ?thesis by (auto simp: assms(4))
  qed
qed

lemma run_end_inv:
  assumes inv: "log_inv es s" and k: "k < length (rl_pending s)"
  shows "log_inv (es @ [RunEnd k del answer]) (log_step s (RunEnd k del answer))"
proof -
  let ?e = "RunEnd k del answer"
  obtain i h where ih: "rl_pending s ! k = (i, h)" by fastforce
  obtain r rows' where run: "(r, rows') = handle_end_request del i h answer (rl_rows s)" by (metis surj_pair)
  let ?upd = "map (\<lambda>r. if row_id r = i then r\<lparr>row_how := Some (how_code h)\<rparr> else r) (rl_rows s)"
  have step: "log_step s ?e = s\<lparr>rl_rows := rows',
      rl_pending := take k (rl_pending s) @ drop (Suc k) (rl_pending s)\<rparr>"
    using ih by (simp add: run [symmetric])
  have ids: "request_ids (es @ [?e]) = request_ids es" by simp
  have fate: "fate g (es @ [?e]) = fate g es" for g by (simp add: fate_snoc split: option.split)
  have ends: "end_of (es @ [?e]) = end_of es" by (intro ext) (simp add: end_of_def fate)
  have pend: "set (rl_pending s) = insert (i, h) (set (take k (rl_pending s) @ drop (Suc k) (rl_pending s)))"
    using set_take_drop [OF k] ih by simp
  have ids_upd: "map row_id rows' = map row_id (rl_rows s)"
    using end_rows(1) [OF run] by (auto simp: comp_def)
  have this_end: "end_of es i h" using inv ih k by (force simp: log_inv_def ends_ok_def dest: nth_mem)
  have rows: "\<exists>q \<in> set (rl_rows s). row_id q = row_id p \<and>
      (row_how p = row_how q \<or> row_id p = i \<and> row_how p = Some (how_code h))" if "p \<in> set rows'" for p
    using that end_rows(1) [OF run] by (auto split: if_splits; blast)
  have "guards_ok (es @ [?e]) (log_step s ?e)"
    using inv unfolding guards_ok_def ids fate step log_inv_def by simp
  moreover have "ids_ok (es @ [?e]) (log_step s ?e)"
    using inv ids_upd unfolding ids_ok_def ids step log_inv_def by simp (metis list.set_map)
  moreover have "ends_ok (es @ [?e]) (log_step s ?e)"
  proof -
    have "\<exists>h. end_of es (row_id p) h \<and> c = how_code h" if "p \<in> set rows'" "row_how p = Some c" for p c
      using rows [OF that(1)] that(2) inv this_end unfolding log_inv_def ends_ok_def by auto
    with inv show ?thesis unfolding ends_ok_def ends step log_inv_def by (auto simp: pend)
  qed
  moreover have "fates_ok (es @ [?e]) (log_step s ?e)" if "list_all end_done (es @ [?e])"
  proof -
    from that inv have "fates_ok es s" "ids_ok es s" by (simp_all add: log_inv_def)
    from updated_fates [OF this this_end pend] show ?thesis
      using end_rows(2) [OF run] that unfolding fates_ok_def ends step by simp
  qed
  ultimately show ?thesis by (simp add: log_inv_def)
qed

lemma log_step_inv: "log_inv es s \<Longrightarrow> log_enabled s e \<Longrightarrow> log_inv (es @ [e]) (log_step s e)"
proof (cases e)
  case (StartRequest del category payload answer)
  then show "log_inv es s \<Longrightarrow> log_enabled s e \<Longrightarrow> ?thesis" by (simp only: start_inv)
next
  case (CompleteRequest g result)
  assume inv: "log_inv es s" and en: "log_enabled s e"
  from en CompleteRequest obtain guard where g: "g < length (rl_guards s)" "rl_guards s ! g = Some guard" by auto
  from guard_at [OF inv g] have "log_step s e = s\<lparr>rl_guards := (rl_guards s)[g := None],
      rl_pending := rl_pending s @ (case request_ids es ! g of None \<Rightarrow> []
        | Some i \<Rightarrow> [(i, if is_err result then HowError else Complete)])\<rparr>"
    using g CompleteRequest by (auto simp: complete_now_def guard_drop_def split: option.splits)
  from guard_end_inv [OF inv g(1) _ _ _ _ this] g CompleteRequest show ?thesis by simp
next
  case (AbandonRequest g)
  assume inv: "log_inv es s" and en: "log_enabled s e"
  from en AbandonRequest obtain guard where g: "g < length (rl_guards s)" "rl_guards s ! g = Some guard" by auto
  from guard_at [OF inv g] have "log_step s e = s\<lparr>rl_guards := (rl_guards s)[g := None],
      rl_pending := rl_pending s @ (case request_ids es ! g of None \<Rightarrow> [] | Some i \<Rightarrow> [(i, HowAbandoned)])\<rparr>"
    using g AbandonRequest by (auto simp: guard_drop_def split: option.splits)
  from guard_end_inv [OF inv g(1) _ _ _ _ this] g AbandonRequest show ?thesis by simp
next
  case (RunEnd k del answer)
  then show "log_inv es s \<Longrightarrow> log_enabled s e \<Longrightarrow> ?thesis" using run_end_inv by simp
qed

lemma log_run_inv: "enabled_run log_enabled log_step empty_log es \<Longrightarrow> log_inv es (foldl log_step empty_log es)"
proof (induction es rule: rev_induct)
  case (snoc e es)
  then show ?case by (simp add: enabled_run_append log_step_inv)
qed (simp add: log_start_inv)

subsection \<open>Properties\<close>

text \<open>C37: the request log is right. Whatever fails to be recorded and however requests overlap, the row
  of a request whose start was recorded is unique and either still open or closed with how that
  request went: completed, failed, or abandoned; and when every end that was run reached the
  database and none is outstanding, no finished request is left open. Ending a request does not
  change its result.\<close>

theorem request_log_records:
  assumes "enabled_run log_enabled log_step empty_log es"
    and "g < length (request_ids es)" and "request_ids es ! g = Some i"
  defines "s \<equiv> foldl log_step empty_log es"
  shows "(\<exists>!r. r \<in> set (rl_rows s) \<and> row_id r = i) \<and>
    (\<forall>r \<in> set (rl_rows s). row_id r = i \<longrightarrow>
       row_how r = None \<or> (\<exists>h. fate g es = Some h \<and> row_how r = Some (how_code h))) \<and>
    (list_all end_done es \<and> rl_pending s = [] \<longrightarrow>
       (\<forall>r \<in> set (rl_rows s). row_id r = i \<longrightarrow> row_how r = map_option how_code (fate g es))) \<and>
    fst (complete_now runtime guard result) = result"
proof -
  note inv = log_run_inv [OF assms(1), folded s_def]
  have ids: "ids_ok es s" using inv by (simp add: log_inv_def)
  have unique: "end_of es i h \<longleftrightarrow> fate g es = Some h" for h
    using ids assms(2,3) unfolding end_of_def ids_ok_def by blast
  obtain r where r: "r \<in> set (rl_rows s)" "row_id r = i" using ids assms(2,3) unfolding ids_ok_def by blast
  then have "\<exists>!r. r \<in> set (rl_rows s) \<and> row_id r = i"
    using ids unfolding ids_ok_def by (metis distinct_map inj_on_def)
  moreover have fated: "\<exists>h. fate g es = Some h \<and> c = how_code h"
    if "r \<in> set (rl_rows s)" "row_id r = i" "row_how r = Some c" for r c
    using that inv unique by (auto simp: log_inv_def ends_ok_def)
  moreover have "row_how r = map_option how_code (fate g es)"
    if "list_all end_done es" "rl_pending s = []" "r \<in> set (rl_rows s)" "row_id r = i" for r
  proof (cases "fate g es")
    case None
    with fated [OF that(3,4)] show ?thesis by (cases "row_how r") auto
  next
    case (Some h)
    with unique that inv show ?thesis by (auto simp: log_inv_def fates_ok_def)
  qed
  moreover have "row_how r = None \<or> (\<exists>h. fate g es = Some h \<and> row_how r = Some (how_code h))"
    if "r \<in> set (rl_rows s)" "row_id r = i" for r
    using fated [OF that] by (cases "row_how r") auto
  moreover have "fst (complete_now runtime guard result) = result" by (simp add: complete_now_def)
  ultimately show ?thesis by blast
qed

definition sample_log_run :: "log_event list" where
  "sample_log_run = [StartRequest Answered ''http.Execute'' ''{}'' (Ok 1), StartRequest NotSent ''http.Miri'' ''{}'' (Ok 2),
     StartRequest Answered ''http.Clippy'' ''{}'' (Ok 2), CompleteRequest 2 (Err ()), AbandonRequest 0,
     CompleteRequest 1 (Ok ()), RunEnd 0 Answered (Ok ()), RunEnd 0 Answered (Ok ())]"

theorem request_log_records_witness:
  "map row_how (rl_rows (foldl log_step empty_log sample_log_run)) = [Some 1, Some 2] \<and>
   (\<exists>!r. r \<in> set (rl_rows (foldl log_step empty_log sample_log_run)) \<and> row_id r = 2)"
proof -
  have run: "enabled_run log_enabled log_step empty_log sample_log_run" by code_simp
  have g: "2 < length (request_ids sample_log_run)" "request_ids sample_log_run ! 2 = Some 2" by code_simp+
  have "map row_how (rl_rows (foldl log_step empty_log sample_log_run)) = [Some 1, Some 2]" by code_simp
  with request_log_records [OF run g] show ?thesis by blast
qed

end
