(* ===== verification/Gist.thy ===== *)
theory Gist
  imports Utf8_Std "HOL-Library.Multiset"
begin

text \<open>
  \<open>ui/src/gist.rs\<close>: sharing code as a GitHub gist. File names are percent-encoded, because GitHub
  allows no slash in them, and a meta file says that they are. GitHub (through octocrab), the
  percent-encoding crate and the TOML reader are outside: they are arguments, with what they are
  documented to do as hypotheses of the lemmas.
\<close>

subsection \<open>\<open>from_utf8_lossy\<close>\<close>

text \<open>The length of the ill-formed sequence at the front, which becomes one replacement character.\<close>

fun utf8_bad :: "bytes \<Rightarrow> nat" where
  "utf8_bad [] = 1"
| "utf8_bad (a # bs) =
     (let w = utf8_width a in
      if w < 2 \<or> bs = [] \<or> \<not> utf8_second a (hd bs) then 1
      else 2 + length (takeWhile utf8_cont (take (w - 2) (tl bs))))"

definition replacement :: string where
  "replacement = [CHR 0xEF, CHR 0xBF, CHR 0xBD]"

lemma utf8_bad_pos: "1 \<le> utf8_bad bs"
  by (cases bs) (simp_all add: Let_def)

function utf8_lossy :: "bytes \<Rightarrow> string" where
  "utf8_lossy bs =
     (if bs = [] then []
      else case utf8_first bs of
        Some w \<Rightarrow> take w bs @ utf8_lossy (drop w bs)
      | None \<Rightarrow> replacement @ utf8_lossy (drop (utf8_bad bs) bs))"
  by pat_completeness auto
termination
proof (relation "measure length")
  show "(drop (utf8_bad bs) bs, bs) \<in> measure length" if "bs \<noteq> []" for bs
    using utf8_bad_pos [of bs] that by (cases "utf8_bad bs") (simp_all add: diff_less_Suc neq_Nil_conv)
qed (auto dest!: utf8_first_bounds)

declare utf8_lossy.simps [simp del]

lemma utf8_lossy_valid: "utf8_valid bs \<Longrightarrow> utf8_lossy bs = bs"
proof (induction bs rule: utf8_lossy.induct)
  case (1 bs)
  show ?case
  proof (cases "utf8_first bs")
    case None
    with 1 have "bs = []" by (simp add: utf8_valid_def valid_up_to_None)
    then show ?thesis by (simp add: utf8_lossy.simps)
  next
    case (Some w)
    then have w: "w \<le> length bs" "bs \<noteq> []" using utf8_first_bounds [OF Some] by auto
    then have "utf8_valid (drop w bs)" using "1.prems" by (simp add: utf8_valid_def valid_up_to_Some [OF Some])
    with "1.IH"(2) [OF w(2) Some] Some w show ?thesis by (subst utf8_lossy.simps) simp
  qed
qed

subsection \<open>Names\<close>

definition meta_filename :: string where "meta_filename = ''Playground.toml''"
definition gist_filename :: string where "gist_filename = ''playground.rs''"

datatype gist_meta = V0 | V1

definition slash :: char where "slash = CHR ''/''"
definition percent :: char where "percent = CHR ''%''"

text \<open>\<open>DISALLOWED_FILENAME_CHARS\<close>\<close>

definition disallowed_filename_char :: "char \<Rightarrow> bool" where
  "disallowed_filename_char c = (c = slash)"

definition encode_filename :: "((char \<Rightarrow> bool) \<Rightarrow> string \<Rightarrow> string) \<Rightarrow> string \<Rightarrow> string" where
  "encode_filename penc name = penc disallowed_filename_char name"

definition decode_filename :: "(string \<Rightarrow> bytes) \<Rightarrow> gist_meta \<Rightarrow> string \<Rightarrow> string" where
  "decode_filename pdec m name = (case m of V0 \<Rightarrow> name | V1 \<Rightarrow> utf8_lossy (pdec name))"

text \<open>
  What the percent-encoding crate documents: encoding replaces the bytes of the set and all bytes
  outside ASCII by a percent sign and two upper-case hexadecimal digits; decoding replaces a percent
  sign and two hexadecimal digits by the byte, and leaves everything else.
\<close>

definition hex_digit :: "nat \<Rightarrow> char" where
  "hex_digit n = ''0123456789ABCDEF'' ! n"

definition percent_byte :: "char \<Rightarrow> string" where
  "percent_byte c = [percent, hex_digit (byte c div 16), hex_digit (byte c mod 16)]"

definition percent_encodes :: "((char \<Rightarrow> bool) \<Rightarrow> string \<Rightarrow> string) \<Rightarrow> bool" where
  "percent_encodes penc \<longleftrightarrow> (\<forall>avoid s. penc avoid s =
     concat (map (\<lambda>c. if avoid c \<or> 128 \<le> byte c then percent_byte c else [c]) s))"

definition percent_decodes :: "(string \<Rightarrow> bytes) \<Rightarrow> bool" where
  "percent_decodes pdec \<longleftrightarrow> pdec [] = [] \<and>
     (\<forall>c s. c \<noteq> percent \<longrightarrow> pdec (c # s) = c # pdec s) \<and>
     (\<forall>c s. pdec (percent_byte c @ s) = c # pdec s)"

subsection \<open>Gists\<close>

record gist_file =
  gf_name :: string
  gf_content :: string

datatype gist_code = GistSingle string | GistMultiple "gist_file list"

record gist =
  gist_id :: string
  gist_url :: string
  gist_code_of :: gist_code

text \<open>octocrab's gist: the files by name, their content as far as GitHub sends it.\<close>

record github_gist =
  gh_id :: string
  gh_html_url :: string
  gh_files :: "(string \<times> string option) list"

definition remove_file_named :: "string \<Rightarrow> (string \<times> 'b) list \<Rightarrow> 'b option \<times> (string \<times> 'b) list" where
  "remove_file_named name fs = (map_of fs name, filter (\<lambda>f. fst f \<noteq> name) fs)"

text \<open>\<open>remove_meta\<close>; \<open>reads_v1\<close> says whether a content is read as \<open>SerializedMeta::V1\<close>.\<close>

definition remove_meta :: "(string \<Rightarrow> bool) \<Rightarrow> github_gist \<Rightarrow> gist_meta \<times> github_gist" where
  "remove_meta reads_v1 g =
     (case remove_file_named meta_filename (gh_files g) of
        (removed, fs) \<Rightarrow>
          (case removed of
             None \<Rightarrow> V0
           | Some None \<Rightarrow> V0
           | Some (Some content) \<Rightarrow> if reads_v1 content then V1 else V0, g\<lparr>gh_files := fs\<rparr>))"

definition gist_from :: "(string \<Rightarrow> bool) \<Rightarrow> (string \<Rightarrow> bytes) \<Rightarrow> github_gist \<Rightarrow> gist" where
  "gist_from reads_v1 pdec other =
     (case remove_meta reads_v1 other of
        (m, other) \<Rightarrow>
          (let fs = map (\<lambda>(name, content). \<lparr>gf_name = decode_filename pdec m name,
                      gf_content = (case content of None \<Rightarrow> [] | Some c \<Rightarrow> c)\<rparr>) (gh_files other)
           in \<lparr>gist_id = gh_id other, gist_url = gh_html_url other,
               gist_code_of = (if length fs \<le> 1
                 then GistSingle (if fs = [] then [] else gf_content (last fs)) else GistMultiple fs)\<rparr>))"

text \<open>The files \<open>create_future\<close> sends.\<close>

definition create_files :: "((char \<Rightarrow> bool) \<Rightarrow> string \<Rightarrow> string) \<Rightarrow> string \<Rightarrow> gist_code \<Rightarrow> (string \<times> string) list" where
  "create_files penc meta_content code =
     (case code of
        GistSingle c \<Rightarrow> [(encode_filename penc gist_filename, c)]
      | GistMultiple fs \<Rightarrow> map (\<lambda>f. (encode_filename penc (gf_name f), gf_content f)) fs)
     @ [(meta_filename, meta_content)]"

text \<open>The errors of creating a gist; \<open>build\<close> is octocrab's client, \<open>meta\<close> the serialized meta file and
  \<open>send\<close> the request.\<close>

datatype create_error = GistOctocrab string | GistSerialize string

definition create_future ::
    "((char \<Rightarrow> bool) \<Rightarrow> string \<Rightarrow> string) \<Rightarrow> (string \<Rightarrow> bool) \<Rightarrow> (string \<Rightarrow> bytes) \<Rightarrow> (string, unit) result \<Rightarrow>
     (string, string) result \<Rightarrow> ((string \<times> string) list \<Rightarrow> (string, github_gist) result) \<Rightarrow> gist_code \<Rightarrow>
     (create_error, gist) result" where
  "create_future penc reads_v1 pdec client meta_text send code =
     res_bind (map_err GistOctocrab client) (\<lambda>_.
     res_bind (map_err GistSerialize meta_text) (\<lambda>meta_content.
     map_err GistOctocrab (map_ok (gist_from reads_v1 pdec) (send (create_files penc meta_content code)))))"

definition load_future ::
    "(string \<Rightarrow> bool) \<Rightarrow> (string \<Rightarrow> bytes) \<Rightarrow> (string, unit) result \<Rightarrow> (string \<Rightarrow> (string, github_gist) result) \<Rightarrow>
     string \<Rightarrow> (string, gist) result" where
  "load_future reads_v1 pdec client get gid =
     res_bind client (\<lambda>_. map_ok (gist_from reads_v1 pdec) (get gid))"

subsection \<open>Round trip\<close>

lemma encode_filename_simps:
  assumes "percent_encodes penc"
  shows "encode_filename penc [] = []" "encode_filename penc (a @ b) = encode_filename penc a @ encode_filename penc b"
    "encode_filename penc (c # s) =
      (if disallowed_filename_char c \<or> 128 \<le> byte c then percent_byte c else [c]) @ encode_filename penc s"
  using assms by (simp_all add: encode_filename_def percent_encodes_def)

lemma percent_decode_encode_append:
  assumes enc: "percent_encodes penc" and dec: "percent_decodes pdec" and "percent \<notin> set name"
  shows "pdec (encode_filename penc name @ t) = name @ pdec t"
proof -
  have "\<And>c s. c \<noteq> percent \<Longrightarrow> pdec (c # s) = c # pdec s" "\<And>c s. pdec (percent_byte c @ s) = c # pdec s"
    using dec by (auto simp: percent_decodes_def)
  with assms(3) show ?thesis by (induction name) (auto simp: encode_filename_simps [OF enc])
qed

lemma percent_decode_encode:
  assumes "percent_encodes penc" and "percent_decodes pdec" and "percent \<notin> set name"
  shows "pdec (encode_filename penc name) = name"
  using percent_decode_encode_append [OF assms, of "[]"] assms(2) by (simp add: percent_decodes_def)

lemma hex_digit_no_slash: "n < 16 \<Longrightarrow> hex_digit n \<noteq> slash"
  by (auto simp: hex_digit_def slash_def less_Suc_eq numeral_eq_Suc)

lemma byte_less: "byte c < 256"
  by (simp add: byte_def nat_of_char_less_256)

lemma encode_no_slash: "percent_encodes penc \<Longrightarrow> slash \<notin> set (encode_filename penc name)"
proof -
  have "slash \<notin> set (percent_byte c)" for c
  proof -
    have "byte c div 16 < 16" using byte_less [of c] by (simp add: div_less_iff_less_mult)
    then have "hex_digit (byte c div 16) \<noteq> slash" "hex_digit (byte c mod 16) \<noteq> slash"
      by (simp_all add: hex_digit_no_slash)
    then show ?thesis by (auto simp: percent_byte_def slash_def percent_def)
  qed
  then show "percent_encodes penc \<Longrightarrow> slash \<notin> set (encode_filename penc name)"
    by (auto simp: encode_filename_def percent_encodes_def disallowed_filename_char_def split: if_splits)
qed

lemma encode_ascii: "percent_encodes penc \<Longrightarrow> list_all (\<lambda>c. \<not> disallowed_filename_char c \<and> byte c < 128) s \<Longrightarrow>
    encode_filename penc s = s"
  by (induction s) (auto simp: encode_filename_simps)

lemma meta_filename_plain: "percent \<notin> set meta_filename" "percent \<notin> set gist_filename"
  "list_all (\<lambda>c. \<not> disallowed_filename_char c \<and> byte c < 128) meta_filename"
  "list_all (\<lambda>c. \<not> disallowed_filename_char c \<and> byte c < 128) gist_filename"
  by (simp_all add: meta_filename_def gist_filename_def percent_def disallowed_filename_char_def slash_def byte_def)

text \<open>Code the sharing keeps: several files, with different names that contain no percent sign and are
  not the name of the meta file; or a single file.\<close>

fun shareable :: "gist_code \<Rightarrow> bool" where
  "shareable (GistSingle c) = True"
| "shareable (GistMultiple fs) =
     (2 \<le> length fs \<and> distinct (map gf_name fs) \<and> meta_filename \<notin> gf_name ` set fs \<and>
      list_all (\<lambda>f. percent \<notin> set (gf_name f) \<and> utf8_valid (gf_name f)) fs)"

fun same_code :: "gist_code \<Rightarrow> gist_code \<Rightarrow> bool" where
  "same_code (GistSingle a) (GistSingle b) = (a = b)"
| "same_code (GistMultiple fs) (GistMultiple gs) = (mset fs = mset gs)"
| "same_code _ _ = False"

text \<open>GitHub keeps the files it is sent, in some order.\<close>

definition keeps_files :: "(string \<times> string) list \<Rightarrow> github_gist \<Rightarrow> bool" where
  "keeps_files sent g \<longleftrightarrow> mset (gh_files g) = mset (map (\<lambda>(n, c). (n, Some c)) sent)"

text \<open>Reading back \<open>files\<close> stored with the meta file under other names.\<close>

lemma gist_from_stored:
  assumes keeps: "keeps_files (stored @ [(meta_filename, meta_content)]) g" and v1: "reads_v1 meta_content"
    and names: "meta_filename \<notin> fst ` set stored" "distinct (map fst stored)"
  obtains fs where "mset fs = mset (map (\<lambda>(n, c). \<lparr>gf_name = utf8_lossy (pdec n), gf_content = c\<rparr>) stored)"
    and "gist_from reads_v1 pdec g = \<lparr>gist_id = gh_id g, gist_url = gh_html_url g,
      gist_code_of = (if length fs \<le> 1 then GistSingle (if fs = [] then [] else gf_content (last fs)) else GistMultiple fs)\<rparr>"
proof -
  let ?some = "\<lambda>(n, c). (n, Some c)"
  define kept where "kept = filter (\<lambda>f. fst f \<noteq> meta_filename) (gh_files g)"
  have all: "mset (gh_files g) = mset (map ?some stored) + {#(meta_filename, Some meta_content)#}"
    using keeps by (simp add: keeps_files_def)
  have "mset (map fst (gh_files g)) = image_mset fst (mset (map ?some stored) + {#(meta_filename, Some meta_content)#})"
    unfolding all [symmetric] by simp
  also have "\<dots> = mset (map fst stored @ [meta_filename])"
    by (simp add: image_mset.compositionality comp_def case_prod_beta)
  finally have "distinct (map fst (gh_files g))"
    using names mset_eq_imp_distinct_iff by fastforce
  moreover have "(meta_filename, Some meta_content) \<in> set (gh_files g)"
    unfolding set_mset_mset [symmetric] all by simp
  ultimately have found: "map_of (gh_files g) meta_filename = Some (Some meta_content)" by (rule map_of_is_SomeI)
  have "\<forall>x \<in># mset (map ?some stored). fst x \<noteq> meta_filename" using names(1) by force
  then have "filter_mset (\<lambda>f. fst f \<noteq> meta_filename) (mset (map ?some stored)) = mset (map ?some stored)"
    by (simp add: filter_mset_eq_conv)
  then have kept: "mset kept = mset (map ?some stored)"
    unfolding kept_def mset_filter all by simp
  let ?dec = "\<lambda>(n, c). \<lparr>gf_name = decode_filename pdec V1 n, gf_content = (case c of None \<Rightarrow> [] | Some c \<Rightarrow> c)\<rparr>"
  have "mset (map ?dec kept) = image_mset ?dec (mset (map ?some stored))" by (simp add: kept)
  also have "\<dots> = mset (map (\<lambda>(n, c). \<lparr>gf_name = utf8_lossy (pdec n), gf_content = c\<rparr>) stored)"
    by (auto simp: image_mset.compositionality comp_def decode_filename_def split_def)
  finally show ?thesis
    using found v1
    by (intro that [of "map ?dec kept"])
      (simp_all add: gist_from_def remove_meta_def remove_file_named_def kept_def Let_def)
qed

subsection \<open>Shared files\<close>

text \<open>The files of shared code, under their encoded names.\<close>

definition stored_files :: "((char \<Rightarrow> bool) \<Rightarrow> string \<Rightarrow> string) \<Rightarrow> gist_code \<Rightarrow> (string \<times> string) list" where
  "stored_files penc code = (case code of
      GistSingle c \<Rightarrow> [(encode_filename penc gist_filename, c)]
    | GistMultiple fs \<Rightarrow> map (\<lambda>f. (encode_filename penc (gf_name f), gf_content f)) fs)"

lemma create_files_stored: "create_files penc meta_content code = stored_files penc code @ [(meta_filename, meta_content)]"
  by (simp add: create_files_def stored_files_def)

lemma encode_meta: "percent_encodes penc \<Longrightarrow> encode_filename penc meta_filename = meta_filename"
  by (rule encode_ascii [OF _ meta_filename_plain(3)])

lemma encode_inj:
  assumes "percent_encodes penc" and "percent_decodes pdec" and "percent \<notin> set n" and "percent \<notin> set m"
  shows "encode_filename penc n = encode_filename penc m \<longleftrightarrow> n = m"
  using percent_decode_encode [OF assms(1,2)] assms(3,4) by metis

lemma stored_names:
  assumes enc: "percent_encodes penc" and dec: "percent_decodes pdec" and code: "shareable code"
  shows "meta_filename \<notin> fst ` set (stored_files penc code)" and "distinct (map fst (stored_files penc code))"
proof -
  have single: "encode_filename penc gist_filename \<noteq> meta_filename"
    unfolding encode_ascii [OF enc meta_filename_plain(4)] by (simp add: gist_filename_def meta_filename_def)
  have multiple: "encode_filename penc (gf_name f) \<noteq> meta_filename"
    if "percent \<notin> set (gf_name f)" "gf_name f \<noteq> meta_filename" for f
    using encode_inj [OF enc dec that(1) meta_filename_plain(1)] that(2) encode_meta [OF enc] by simp
  show "meta_filename \<notin> fst ` set (stored_files penc code)"
    using code single multiple by (cases code) (force simp: stored_files_def list_all_iff)+
  show "distinct (map fst (stored_files penc code))"
    using code encode_inj [OF enc dec]
    by (cases code) (auto simp: stored_files_def list_all_iff distinct_map inj_on_def)
qed

lemma shared_code_kept:
  assumes enc: "percent_encodes penc" and dec: "percent_decodes pdec" and v1: "reads_v1 meta_content"
    and code: "shareable code" and keeps: "keeps_files (create_files penc meta_content code) g"
  shows "gist_id (gist_from reads_v1 pdec g) = gh_id g \<and> same_code (gist_code_of (gist_from reads_v1 pdec g)) code"
proof -
  obtain fs where fs: "mset fs = mset (map (\<lambda>(n, c). \<lparr>gf_name = utf8_lossy (pdec n), gf_content = c\<rparr>) (stored_files penc code))"
    and gist: "gist_from reads_v1 pdec g = \<lparr>gist_id = gh_id g, gist_url = gh_html_url g,
      gist_code_of = (if length fs \<le> 1 then GistSingle (if fs = [] then [] else gf_content (last fs)) else GistMultiple fs)\<rparr>"
    using gist_from_stored [of "stored_files penc code" meta_content g reads_v1 pdec] keeps v1
      stored_names [OF enc dec code] unfolding create_files_stored by blast
  have "same_code (gist_code_of (gist_from reads_v1 pdec g)) code"
  proof (cases code)
    case (GistSingle c)
    with fs have "mset fs = {#\<lparr>gf_name = utf8_lossy (pdec (encode_filename penc gist_filename)), gf_content = c\<rparr>#}"
      by (simp add: stored_files_def)
    then show ?thesis by (auto simp: gist GistSingle mset_single_iff)
  next
    case (GistMultiple gs)
    have "utf8_lossy (pdec (encode_filename penc (gf_name f))) = gf_name f" if "f \<in> set gs" for f
      using that code percent_decode_encode [OF enc dec, of "gf_name f"]
      by (auto simp: GistMultiple list_all_iff utf8_lossy_valid)
    then have "map (\<lambda>(n, c). \<lparr>gf_name = utf8_lossy (pdec n), gf_content = c\<rparr>) (stored_files penc code) = gs"
      by (simp add: stored_files_def GistMultiple comp_def map_idI)
    with fs have "mset fs = mset gs" by simp
    moreover from this have "length fs = length gs" by (metis size_mset)
    ultimately show ?thesis using code by (simp add: gist GistMultiple)
  qed
  then show ?thesis by (simp add: gist)
qed

lemma decode_escaped_slash:
  assumes enc: "percent_encodes penc" and dec: "percent_decodes pdec" and "percent \<notin> set a" and "percent \<notin> set b"
  shows "decode_filename pdec V1 (encode_filename penc (a @ ''%2F'' @ b)) = utf8_lossy (a @ ''/'' @ b)"
proof -
  have "encode_filename penc ''%2F'' = percent_byte slash"
    by (subst encode_ascii [OF enc])
      (simp_all add: percent_byte_def slash_def percent_def hex_digit_def disallowed_filename_char_def byte_def)
  then have "pdec (encode_filename penc (a @ ''%2F'' @ b)) = a @ slash # pdec (encode_filename penc b)"
    using percent_decode_encode_append [OF enc dec assms(3)] dec
    by (simp only: encode_filename_simps(2) [OF enc]) (simp add: percent_decodes_def)
  then show ?thesis
    using percent_decode_encode [OF enc dec assms(4)] by (simp add: decode_filename_def slash_def)
qed

subsection \<open>Properties\<close>


text \<open>A percent-encoding crate.\<close>

definition penc_all :: "(char \<Rightarrow> bool) \<Rightarrow> string \<Rightarrow> string" where
  "penc_all avoid s = concat (map (\<lambda>c. if avoid c \<or> 128 \<le> byte c then percent_byte c else [c]) s)"

definition hex_value :: "char \<Rightarrow> nat option" where
  "hex_value c = (if 48 \<le> byte c \<and> byte c < 58 then Some (byte c - 48)
     else if 65 \<le> byte c \<and> byte c < 71 then Some (byte c - 55)
     else if 97 \<le> byte c \<and> byte c < 103 then Some (byte c - 87) else None)"

fun pdec_all :: "string \<Rightarrow> bytes" where
  "pdec_all [] = []"
| "pdec_all (c # s) =
     (if c = percent \<and> 2 \<le> length s \<and> hex_value (s ! 0) \<noteq> None \<and> hex_value (s ! 1) \<noteq> None
      then char_of (16 * the (hex_value (s ! 0)) + the (hex_value (s ! 1))) # pdec_all (drop 2 s)
      else c # pdec_all s)"

lemma hex_value_digit:
  assumes "n < 16"
  shows "hex_value (hex_digit n) = Some n"
proof -
  have "list_all (\<lambda>n. hex_value (hex_digit n) = Some n) [0..<16]" by code_simp
  then show ?thesis using assms by (simp add: list_all_iff)
qed

lemma percent_all: "percent_encodes penc_all" "percent_decodes pdec_all"
proof -
  have "pdec_all (percent_byte c @ s) = c # pdec_all s" for c s
  proof -
    have "byte c div 16 < 16" using byte_less [of c] by (simp add: div_less_iff_less_mult)
    then show ?thesis
      by (simp add: percent_byte_def hex_value_digit nth_Cons numeral_2_eq_2) (simp add: byte_def)
  qed
  then show "percent_decodes pdec_all" by (simp add: percent_decodes_def)
qed (simp add: percent_encodes_def penc_all_def)


end
