(* ===== verification/Server_Axum.thy ===== *)
theory Server_Axum
  imports Api_Conversions Metrics Request_Db Coordinator_Core Cache Gist
begin

text \<open>
  \<open>ui/src/server_axum.rs\<close>: the request endpoints. A handler records the request in the database,
  builds a coordinator, runs the request on it with a deadline, records a metric, shuts the
  coordinator down and answers. What the coordinator asks the outside for are the answers of
  \<open>server_answers\<close>; the host is the one of the new coordinator.
\<close>

subsection \<open>Responses as JSON\<close>

definition ser_compile_response :: "api_compile_response \<Rightarrow> json" where
  "ser_compile_response r = JObject [(''success'', JBool (acr_success r)), (''exitDetail'', JString (acr_exit_detail r)),
     (''code'', JString (acr_code r)), (''stdout'', JString (acr_stdout r)), (''stderr'', JString (acr_stderr r))]"

definition ser_execute_response :: "api_plain_response \<Rightarrow> json" where
  "ser_execute_response r = JObject [(''success'', JBool (apr_success r)), (''exitDetail'', JString (apr_exit_detail r)),
     (''stdout'', JString (apr_stdout r)), (''stderr'', JString (apr_stderr r))]"

definition ser_format_response :: "api_format_response \<Rightarrow> json" where
  "ser_format_response r = JObject [(''success'', JBool (afr_success r)), (''exitDetail'', JString (afr_exit_detail r)),
     (''code'', ser_code (afr_code r)), (''stdout'', JString (afr_stdout r)), (''stderr'', JString (afr_stderr r))]"

text \<open>Clippy, Miri and macro expansion do not rename the exit detail.\<close>

definition ser_plain_response :: "api_plain_response \<Rightarrow> json" where
  "ser_plain_response r = JObject [(''success'', JBool (apr_success r)), (''exit_detail'', JString (apr_exit_detail r)),
     (''stdout'', JString (apr_stdout r)), (''stderr'', JString (apr_stderr r))]"

definition ser_evaluate_response :: "api_evaluate_response \<Rightarrow> json" where
  "ser_evaluate_response r = JObject [(''result'', JString (avr_result r)), (''error'', ser_option JString (avr_error r))]"

definition ser_error_json :: "string \<Rightarrow> json" where
  "ser_error_json e = JObject [(''error'', JString e)]"

subsection \<open>Errors\<close>

datatype crates_error = CraStart coordinator_error | CraContainer container_crates_error

datatype cache_crates_error = CcCrates crates_error | CcShutdown coordinator_error
datatype cache_versions_error = CvsVersions versions_error | CvsShutdown coordinator_error

datatype elapsed = Elapsed

datatype server_error =
    SvGistCreation create_error
  | SvGistLoading string
  | SvNoGithubToken
  | SvEvaluateRequest parse_evaluate_request_error
  | SvCompileRequest parse_compile_request_error
  | SvExecuteRequest parse_execute_request_error
  | SvFormatRequest parse_format_request_error
  | SvClippyRequest parse_clippy_request_error
  | SvMiriRequest parse_miri_request_error
  | SvMacroExpansionRequest parse_macro_expansion_request_error
  | SvCrates "cache_crates_error cache_tx_error"
  | SvVersions "cache_versions_error cache_tx_error"
  | SvShutdownCoordinator coordinator_error
  | SvEvaluate execute_error
  | SvCompile compile_error
  | SvExecute execute_error
  | SvFormat format_error
  | SvClippy clippy_error
  | SvMiri miri_error
  | SvMacroExpansion macro_expansion_error
  | SvTimeout elapsed

record http_response =
  hr_status :: nat
  hr_body :: json

text \<open>The messages of the error and its sources, cleaned by snafu, joined.\<close>

fun join_messages :: "string list \<Rightarrow> string" where
  "join_messages [] = []"
| "join_messages (m # ms) = foldl (\<lambda>l r. l @ '': '' @ r) m ms"

definition error_into_response :: "('e \<Rightarrow> string list) \<Rightarrow> 'e \<Rightarrow> http_response" where
  "error_into_response cleaned e = \<lparr>hr_status = 500, hr_body = ser_error_json (join_messages (cleaned e))\<rparr>"

definition into_response :: "('e \<Rightarrow> string list) \<Rightarrow> ('e, json) result \<Rightarrow> http_response" where
  "into_response cleaned r = (case r of
     Ok body \<Rightarrow> \<lparr>hr_status = 200, hr_body = body\<rparr> | Err e \<Rightarrow> error_into_response cleaned e)"

subsection \<open>Requests on a coordinator\<close>

text \<open>\<open>Coordinator::execute\<close> and its siblings: the container of the channel, then the request on it.\<close>

definition on_channel ::
    "string \<Rightarrow> start_answers \<Rightarrow> (coordinator_error \<Rightarrow> 'e) \<Rightarrow> channel \<Rightarrow> ('e, 'r) result \<Rightarrow>
     coordinator \<times> host \<Rightarrow> ('e, 'r) result \<times> coordinator \<times> host" where
  "on_channel arch start could_not_start channel run ch =
     (case select_channel arch channel start ch of
        (container, ch) \<Rightarrow> (res_bind (map_err could_not_start container) (\<lambda>_. run), ch))"

text \<open>The answers of the outside to one request; \<open>sn_run\<close> is how the request went once its container was up.\<close>

record server_answers =
  sn_delivery :: delivery
  sn_insert :: "(string, int) result"
  sn_start :: start_answers
  sn_run :: "(do_request_error, cargo_run) result"
  sn_job :: job_id
  sn_output :: request_answers
  sn_reads :: "(read_file_request \<times> job_id \<times> request_answers) list"
  sn_timed_out :: bool
  sn_elapsed :: f64
  sn_polls :: "(channel \<times> shutdown_answers) list"
  sn_finish :: "nat list"

text \<open>The architecture and the libraries.\<close>

record server_env =
  se_arch :: string
  se_demangle :: "string \<Rightarrow> string"
  se_patterns :: asm_patterns
  se_dfs :: "(string \<times> string) list \<Rightarrow> string \<Rightarrow> string list"
  se_to_string :: "json \<Rightarrow> (string, string) result"
  se_cleaned :: "server_error \<Rightarrow> string list"

definition coordinator_execute ::
    "server_env \<Rightarrow> server_answers \<Rightarrow> execute_request \<Rightarrow> coordinator \<times> host \<Rightarrow>
     (execute_error, execute_response with_output) result \<times> coordinator \<times> host" where
  "coordinator_execute v a r =
     on_channel (se_arch v) (sn_start a) ExCouldNotStartContainer (er_channel r) (container_execute (sn_run a))"

definition coordinator_compile ::
    "server_env \<Rightarrow> server_answers \<Rightarrow> compile_request \<Rightarrow> coordinator \<times> host \<Rightarrow>
     (compile_error, compile_response with_output) result \<times> coordinator \<times> host" where
  "coordinator_compile v a r =
     on_channel (se_arch v) (sn_start a) CpCouldNotStartContainer (cr_channel r)
       (container_compile (se_demangle v) (se_patterns v) (se_dfs v) r (sn_job a) (sn_output a) (sn_run a))"

definition coordinator_format ::
    "server_env \<Rightarrow> server_answers \<Rightarrow> format_request \<Rightarrow> coordinator \<times> host \<Rightarrow>
     (format_error, format_response with_output) result \<times> coordinator \<times> host" where
  "coordinator_format v a r =
     on_channel (se_arch v) (sn_start a) FmCouldNotStartContainer (fr_channel r)
       (container_format r (sn_reads a) (sn_run a))"

definition coordinator_clippy ::
    "server_env \<Rightarrow> server_answers \<Rightarrow> clippy_request \<Rightarrow> coordinator \<times> host \<Rightarrow>
     (clippy_error, clippy_response with_output) result \<times> coordinator \<times> host" where
  "coordinator_clippy v a r =
     on_channel (se_arch v) (sn_start a) ClCouldNotStartContainer (cl_channel r) (container_clippy (sn_run a))"

definition coordinator_miri ::
    "server_env \<Rightarrow> server_answers \<Rightarrow> miri_request \<Rightarrow> coordinator \<times> host \<Rightarrow>
     (miri_error, miri_response with_output) result \<times> coordinator \<times> host" where
  "coordinator_miri v a r =
     on_channel (se_arch v) (sn_start a) MiCouldNotStartContainer (mr_channel r) (container_miri (sn_run a))"

definition coordinator_macro_expansion ::
    "server_env \<Rightarrow> server_answers \<Rightarrow> macro_expansion_request \<Rightarrow> coordinator \<times> host \<Rightarrow>
     (macro_expansion_error, macro_expansion_response with_output) result \<times> coordinator \<times> host" where
  "coordinator_macro_expansion v a r =
     on_channel (se_arch v) (sn_start a) MaCouldNotStartContainer (me_channel r) (container_macro_expansion (sn_run a))"

text \<open>\<open>begin_execute\<close> and its siblings: the same with the running task, its streams and its permit as the result.\<close>

definition coordinator_begin_execute ::
    "string \<Rightarrow> start_answers \<Rightarrow> execute_request \<Rightarrow> (execute_error, 'a) result \<Rightarrow> coordinator \<times> host \<Rightarrow>
     (execute_error, 'a) result \<times> coordinator \<times> host" where
  "coordinator_begin_execute arch start r begun = on_channel arch start ExCouldNotStartContainer (er_channel r) begun"

definition coordinator_begin_compile ::
    "string \<Rightarrow> start_answers \<Rightarrow> compile_request \<Rightarrow> (compile_error, 'a) result \<Rightarrow> coordinator \<times> host \<Rightarrow>
     (compile_error, 'a) result \<times> coordinator \<times> host" where
  "coordinator_begin_compile arch start r begun = on_channel arch start CpCouldNotStartContainer (cr_channel r) begun"

definition coordinator_begin_format ::
    "string \<Rightarrow> start_answers \<Rightarrow> format_request \<Rightarrow> (format_error, 'a) result \<Rightarrow> coordinator \<times> host \<Rightarrow>
     (format_error, 'a) result \<times> coordinator \<times> host" where
  "coordinator_begin_format arch start r begun = on_channel arch start FmCouldNotStartContainer (fr_channel r) begun"

definition coordinator_begin_clippy ::
    "string \<Rightarrow> start_answers \<Rightarrow> clippy_request \<Rightarrow> (clippy_error, 'a) result \<Rightarrow> coordinator \<times> host \<Rightarrow>
     (clippy_error, 'a) result \<times> coordinator \<times> host" where
  "coordinator_begin_clippy arch start r begun = on_channel arch start ClCouldNotStartContainer (cl_channel r) begun"

definition coordinator_begin_miri ::
    "string \<Rightarrow> start_answers \<Rightarrow> miri_request \<Rightarrow> (miri_error, 'a) result \<Rightarrow> coordinator \<times> host \<Rightarrow>
     (miri_error, 'a) result \<times> coordinator \<times> host" where
  "coordinator_begin_miri arch start r begun = on_channel arch start MiCouldNotStartContainer (mr_channel r) begun"

definition coordinator_begin_macro_expansion ::
    "string \<Rightarrow> start_answers \<Rightarrow> macro_expansion_request \<Rightarrow> (macro_expansion_error, 'a) result \<Rightarrow> coordinator \<times> host \<Rightarrow>
     (macro_expansion_error, 'a) result \<times> coordinator \<times> host" where
  "coordinator_begin_macro_expansion arch start r begun = on_channel arch start MaCouldNotStartContainer (me_channel r) begun"

subsection \<open>\<open>with_coordinator\<close>\<close>

definition from_success :: "bool \<Rightarrow> metric_outcome" where
  "from_success success = (if success then Success else ErrorUserCode)"

text \<open>
  \<open>tokio::time::timeout\<close>: the job's result, or the job is dropped. A start of a container that is
  dropped on the way leaves what a failed start leaves, so that case needs no state of its own.
\<close>

definition with_timeout :: "bool \<Rightarrow> 'a \<Rightarrow> (elapsed, 'a) result" where
  "with_timeout timed_out r = (if timed_out then Err Elapsed else Ok r)"

definition with_coordinator ::
    "endpoint \<Rightarrow> ('web \<Rightarrow> (server_error, 'req) result) \<Rightarrow> ('req \<Rightarrow> labels_core) \<Rightarrow> ('resp \<Rightarrow> bool) \<Rightarrow>
     ('resp \<Rightarrow> 'web_resp) \<Rightarrow>
     ('req \<Rightarrow> coordinator \<times> host \<Rightarrow> (server_error, 'resp) result \<times> coordinator \<times> host) \<Rightarrow>
     server_answers \<Rightarrow> 'web \<Rightarrow> host \<Rightarrow> histogram \<Rightarrow>
     (server_error, 'web_resp) result \<times> (coordinator \<times> host) \<times> histogram" where
  "with_coordinator endpoint try_into labels_of is_success into f a req h obs =
     (let coordinator = (coordinator_build, h);
          (resp, coordinator, obs) =
            (case try_into req of
               Err e \<Rightarrow> (Err e, coordinator, obs)
             | Ok req \<Rightarrow>
                 (let labels = labels_of req;
                      (job, coordinator) = f req coordinator;
                      resp = with_timeout (sn_timed_out a) job;
                      outcome = (case resp of
                          Ok (Ok r) \<Rightarrow> from_success (is_success r)
                        | Ok (Err _) \<Rightarrow> ErrorServer
                        | Err _ \<Rightarrow> ErrorTimeoutSoft);
                      obs = record_metric endpoint labels outcome (sn_elapsed a) obs
                  in (res_bind (map_err SvTimeout resp) (map_ok into), coordinator, obs)));
          (down, coordinator) = shutdown (sn_polls a) (sn_finish a) coordinator
      in (res_bind (map_err SvShutdownCoordinator down) (\<lambda>_. resp), coordinator, obs))"

text \<open>\<open>context\<close> inside the closures of the handlers.\<close>

definition in_context :: "('e \<Rightarrow> 'f) \<Rightarrow> ('e, 'r) result \<times> 's \<Rightarrow> ('f, 'r) result \<times> 's" where
  "in_context c rs = (case rs of (r, s) \<Rightarrow> (map_err c r, s))"

subsection \<open>\<open>attempt_record_request\<close>\<close>

definition attempt_record_request ::
    "(json \<Rightarrow> (string, string) result) \<Rightarrow> endpoint \<Rightarrow> ('req \<Rightarrow> json) \<Rightarrow> server_answers \<Rightarrow>
     ('req \<Rightarrow> ('e, 't) result \<times> 'w) \<Rightarrow> 'req \<Rightarrow> row list \<Rightarrow>
     (('e, 't) result \<times> 'w) \<times> row list \<times> (int \<times> how) list" where
  "attempt_record_request to_string endpoint ser a f req rows =
     (let category = ''http.'' @ endpoint_str endpoint;
          payload = (case to_string (ser req) of Ok s \<Rightarrow> s | Err _ \<Rightarrow> ''<invalid JSON>'');
          (started, rows) = handle_start_request (sn_delivery a) category payload (sn_insert a) rows;
          guard = start_with_guard started;
          (r, w) = f req;
          (r, ends) = complete_now True guard r
      in ((r, w), rows, ends))"

subsection \<open>The endpoints\<close>

datatype api_request =
    RqEvaluate api_evaluate_request
  | RqCompile api_compile_request
  | RqExecute api_execute_request
  | RqFormat api_format_request
  | RqClippy api_clippy_request
  | RqMiri api_miri_request
  | RqMacroExpansion api_macro_expansion_request

fun has_endpoint :: "api_request \<Rightarrow> endpoint" where
  "has_endpoint (RqEvaluate _) = EpEvaluate"
| "has_endpoint (RqCompile _) = EpCompile"
| "has_endpoint (RqExecute _) = EpExecute"
| "has_endpoint (RqFormat _) = EpFormat"
| "has_endpoint (RqClippy _) = EpClippy"
| "has_endpoint (RqMiri _) = EpMiri"
| "has_endpoint (RqMacroExpansion _) = EpMacroExpansion"


text \<open>What a handler leaves: its response, its coordinator and host, the metrics, the request log's rows and
  the ends that were spawned.\<close>

record handled =
  hd_response :: http_response
  hd_coordinator :: coordinator
  hd_host :: host
  hd_observed :: histogram
  hd_rows :: "row list"
  hd_ends :: "(int \<times> how) list"

definition respond ::
    "server_env \<Rightarrow> ('r \<Rightarrow> json) \<Rightarrow>
     ((server_error, 'r) result \<times> (coordinator \<times> host) \<times> histogram) \<times> row list \<times> (int \<times> how) list \<Rightarrow> handled" where
  "respond v ser x = (case x of ((r, (c, h), obs), rows, ends) \<Rightarrow>
     \<lparr>hd_response = into_response (se_cleaned v) (map_ok ser r), hd_coordinator = c, hd_host = h,
      hd_observed = obs, hd_rows = rows, hd_ends = ends\<rparr>)"

definition evaluate_handler ::
    "server_env \<Rightarrow> server_answers \<Rightarrow> api_evaluate_request \<Rightarrow> host \<Rightarrow> histogram \<Rightarrow> row list \<Rightarrow> handled" where
  "evaluate_handler v a req h obs rows = respond v ser_evaluate_response
     (attempt_record_request (se_to_string v) EpEvaluate ser_evaluate_request a
       (\<lambda>req. with_coordinator EpEvaluate (\<lambda>r. map_err SvEvaluateRequest (evaluate_try_from r))
          execute_labels (\<lambda>r. exr_success (wo_response r)) evaluate_response
          (\<lambda>r ch. in_context SvEvaluate (coordinator_execute v a r ch)) a req h obs) req rows)"

definition compile_handler ::
    "server_env \<Rightarrow> server_answers \<Rightarrow> api_compile_request \<Rightarrow> host \<Rightarrow> histogram \<Rightarrow> row list \<Rightarrow> handled" where
  "compile_handler v a req h obs rows = respond v ser_compile_response
     (attempt_record_request (se_to_string v) EpCompile ser_compile_request a
       (\<lambda>req. with_coordinator EpCompile (\<lambda>r. map_err SvCompileRequest (compile_try_from r))
          compile_labels (\<lambda>r. cpr_success (wo_response r)) compile_response_to_api
          (\<lambda>r ch. in_context SvCompile (coordinator_compile v a r ch)) a req h obs) req rows)"

definition execute_handler ::
    "server_env \<Rightarrow> server_answers \<Rightarrow> api_execute_request \<Rightarrow> host \<Rightarrow> histogram \<Rightarrow> row list \<Rightarrow> handled" where
  "execute_handler v a req h obs rows = respond v ser_execute_response
     (attempt_record_request (se_to_string v) EpExecute ser_execute_request a
       (\<lambda>req. with_coordinator EpExecute (\<lambda>r. map_err SvExecuteRequest (execute_try_from r))
          execute_labels (\<lambda>r. exr_success (wo_response r)) execute_response_to_api
          (\<lambda>r ch. in_context SvExecute (coordinator_execute v a r ch)) a req h obs) req rows)"

definition format_handler ::
    "server_env \<Rightarrow> server_answers \<Rightarrow> api_format_request \<Rightarrow> host \<Rightarrow> histogram \<Rightarrow> row list \<Rightarrow> handled" where
  "format_handler v a req h obs rows = respond v ser_format_response
     (attempt_record_request (se_to_string v) EpFormat ser_format_request a
       (\<lambda>req. with_coordinator EpFormat (\<lambda>r. map_err SvFormatRequest (format_try_from r))
          format_labels (\<lambda>r. fmr_success (wo_response r)) format_response_to_api
          (\<lambda>r ch. in_context SvFormat (coordinator_format v a r ch)) a req h obs) req rows)"

definition clippy_handler ::
    "server_env \<Rightarrow> server_answers \<Rightarrow> api_clippy_request \<Rightarrow> host \<Rightarrow> histogram \<Rightarrow> row list \<Rightarrow> handled" where
  "clippy_handler v a req h obs rows = respond v ser_plain_response
     (attempt_record_request (se_to_string v) EpClippy ser_clippy_request a
       (\<lambda>req. with_coordinator EpClippy (\<lambda>r. map_err SvClippyRequest (clippy_try_from r))
          clippy_labels (\<lambda>r. clr_success (wo_response r)) clippy_response_to_api
          (\<lambda>r ch. in_context SvClippy (coordinator_clippy v a r ch)) a req h obs) req rows)"

definition miri_handler ::
    "server_env \<Rightarrow> server_answers \<Rightarrow> api_miri_request \<Rightarrow> host \<Rightarrow> histogram \<Rightarrow> row list \<Rightarrow> handled" where
  "miri_handler v a req h obs rows = respond v ser_plain_response
     (attempt_record_request (se_to_string v) EpMiri ser_miri_request a
       (\<lambda>req. with_coordinator EpMiri (\<lambda>r. map_err SvMiriRequest (miri_try_from r))
          miri_labels (\<lambda>r. mir_success (wo_response r)) miri_response_to_api
          (\<lambda>r ch. in_context SvMiri (coordinator_miri v a r ch)) a req h obs) req rows)"

definition macro_expansion_handler ::
    "server_env \<Rightarrow> server_answers \<Rightarrow> api_macro_expansion_request \<Rightarrow> host \<Rightarrow> histogram \<Rightarrow> row list \<Rightarrow> handled" where
  "macro_expansion_handler v a req h obs rows = respond v ser_plain_response
     (attempt_record_request (se_to_string v) EpMacroExpansion ser_macro_expansion_request a
       (\<lambda>req. with_coordinator EpMacroExpansion (\<lambda>r. map_err SvMacroExpansionRequest (macro_expansion_try_from r))
          macro_expansion_labels (\<lambda>r. mar_success (wo_response r)) macro_expansion_response_to_api
          (\<lambda>r ch. in_context SvMacroExpansion (coordinator_macro_expansion v a r ch)) a req h obs) req rows)"

text \<open>The routes of the seven endpoints.\<close>

fun serve :: "server_env \<Rightarrow> server_answers \<Rightarrow> api_request \<Rightarrow> host \<Rightarrow> histogram \<Rightarrow> row list \<Rightarrow> handled" where
  "serve v a (RqEvaluate r) = evaluate_handler v a r"
| "serve v a (RqCompile r) = compile_handler v a r"
| "serve v a (RqExecute r) = execute_handler v a r"
| "serve v a (RqFormat r) = format_handler v a r"
| "serve v a (RqClippy r) = clippy_handler v a r"
| "serve v a (RqMiri r) = miri_handler v a r"
| "serve v a (RqMacroExpansion r) = macro_expansion_handler v a r"

text \<open>\<open>Json::from_request\<close>: what axum's own extractor refuses becomes a JSON error.\<close>

definition json_from_request :: "(string, 't) result \<Rightarrow> (http_response, 't) result" where
  "json_from_request extracted =
     map_err (\<lambda>e. \<lparr>hr_status = 400, hr_body = ser_error_json (''Unable to deserialize request: '' @ e)\<rparr>) extracted"

subsection \<open>Lemmas\<close>

text \<open>How cargo ended, when it did.\<close>

definition run_success :: "(do_request_error, cargo_run) result \<Rightarrow> bool option" where
  "run_success run = (case run of
     Ok c \<Rightarrow> (case cn_task c of Ok (Ok r) \<Rightarrow> Some (ecr_success r) | _ \<Rightarrow> None) | Err _ \<Rightarrow> None)"

lemma container_success:
  "container_execute s = Ok e \<Longrightarrow> run_success s = Some (exr_success (wo_response e))"
  "container_compile d re dfs req job o' s = Ok c \<Longrightarrow> run_success s = Some (cpr_success (wo_response c))"
  "container_format freq reads s = Ok f \<Longrightarrow> run_success s = Some (fmr_success (wo_response f))"
  "container_clippy s = Ok l \<Longrightarrow> run_success s = Some (clr_success (wo_response l))"
  "container_miri s = Ok m \<Longrightarrow> run_success s = Some (mir_success (wo_response m))"
  "container_macro_expansion s = Ok x \<Longrightarrow> run_success s = Some (mar_success (wo_response x))"
  by (auto simp: run_success_def container_execute_def container_compile_def container_format_def
      container_clippy_def container_miri_def container_macro_expansion_def execute_task_def compile_task_def
      format_task_def clippy_task_def miri_task_def macro_expansion_task_def try_absorb_def
      try_absorb_stream_def result_iffs cargo_outcome_Ok)

lemma on_channel_accounted:
  "accounted ch \<Longrightarrow> fresh_permit start (snd ch) \<Longrightarrow> accounted (snd (on_channel arch start e channel run ch))"
  using select_channel_accounted [of "fst ch" "snd ch" start arch channel]
  by (cases ch) (auto simp: on_channel_def split: prod.splits)

lemmas coordinator_begin_defs = coordinator_begin_execute_def coordinator_begin_compile_def
  coordinator_begin_format_def coordinator_begin_clippy_def coordinator_begin_miri_def coordinator_begin_macro_expansion_def

text \<open>Whatever a request that was begun comes to, the containers stay accounted for.\<close>

lemma coordinator_begin_accounted:
  assumes "accounted ch" and "fresh_permit start (snd ch)"
  shows "accounted (snd (coordinator_begin_execute arch start re be ch))"
    and "accounted (snd (coordinator_begin_compile arch start rc bc ch))"
    and "accounted (snd (coordinator_begin_format arch start rf bf ch))"
    and "accounted (snd (coordinator_begin_clippy arch start rl bl ch))"
    and "accounted (snd (coordinator_begin_miri arch start rm bm ch))"
    and "accounted (snd (coordinator_begin_macro_expansion arch start rx bx ch))"
  unfolding coordinator_begin_defs by (rule on_channel_accounted [OF assms])+

lemma on_channel_Ok: "fst (on_channel arch start e channel run ch) = Ok r \<Longrightarrow> run = Ok r"
  by (auto simp: on_channel_def result_iffs split: prod.splits)

lemma in_context_simps [simp]: "snd (in_context c x) = snd x" "fst (in_context c x) = map_err c (fst x)"
  by (simp_all add: in_context_def split: prod.split)

lemmas coordinator_requests_def = coordinator_execute_def coordinator_compile_def coordinator_format_def
  coordinator_clippy_def coordinator_miri_def coordinator_macro_expansion_def

text \<open>After the shutdown of an accounted coordinator nothing is left.\<close>

definition all_killed :: "host \<Rightarrow> bool" where
  "all_killed h \<longleftrightarrow> h_tracked h = {} \<and> mset (h_killed h) = mset (h_started h) \<and> distinct (h_killed h)"

lemma shutdown_all_killed:
  assumes "accounted ch"
  shows "all_killed (snd (snd (shutdown polls finish ch)))"
proof -
  obtain c h where ch: "ch = (c, h)" by (cases ch)
  obtain r c1 h1 where i: "idle polls finish (c, h) = (r, c1, h1)" by (metis surj_pair)
  have "accounted (c1, h1)" using idle_accounted [of c h polls finish] assms i ch by simp
  from coordinator_drop_spec [OF this] show ?thesis
    using accounted_empty by (cases "coordinator_drop (c1, h1)") (auto simp: shutdown_def ch i all_killed_def)
qed


text \<open>Which outcome a request may be counted under.\<close>

definition outcome_fits :: "server_answers \<Rightarrow> metric_outcome \<Rightarrow> bool" where
  "outcome_fits a oc \<longleftrightarrow> (oc = ErrorTimeoutSoft \<longleftrightarrow> sn_timed_out a) \<and>
     (oc = Success \<longrightarrow> run_success (sn_run a) = Some True) \<and>
     (oc = ErrorUserCode \<longrightarrow> run_success (sn_run a) = Some False) \<and> oc \<noteq> OutcomeAbandoned"

text \<open>What was observed of a request with result \<open>r\<close>.\<close>

definition observed_well ::
    "server_answers \<Rightarrow> endpoint \<Rightarrow> bool \<Rightarrow> histogram \<Rightarrow> (server_error, 'r) result \<Rightarrow> histogram \<Rightarrow> bool" where
  "observed_well a ep ok obs r obs' \<longleftrightarrow>
     (if ok
      then \<exists>core oc. obs' = obs @ [(as_values (labels_complete ep core oc), sn_elapsed a)] \<and> outcome_fits a oc \<and>
         (is_ok r \<longrightarrow> oc = Success \<or> oc = ErrorUserCode) \<and>
         (is_err r \<and> (oc = Success \<or> oc = ErrorUserCode) \<longrightarrow> (\<exists>e. r = Err (SvShutdownCoordinator e)))
      else obs' = obs \<and> is_err r)"

lemma with_coordinator_spec:
  assumes wc: "with_coordinator ep try_into labels_of ok into f a req h obs = (r, ch, obs')"
    and h: "accounted (coordinator_build, h)"
    and acc: "\<And>q. accounted (snd (f q (coordinator_build, h)))"
    and ok: "\<And>q resp. fst (f q (coordinator_build, h)) = Ok resp \<Longrightarrow> run_success (sn_run a) = Some (ok resp)"
  shows "all_killed (snd ch) \<and> observed_well a ep (is_ok (try_into req)) obs r obs'"
proof (cases "try_into req")
  case (Inl e)
  obtain down ch1 where sh: "shutdown (sn_polls a) (sn_finish a) (coordinator_build, h) = (down, ch1)"
    by (metis surj_pair)
  have "all_killed (snd ch1)" using shutdown_all_killed [OF h, of "sn_polls a" "sn_finish a"] by (simp add: sh)
  with wc Inl sh show ?thesis
    by (cases down) (auto simp: with_coordinator_def observed_well_def)
next
  case (Inr q)
  obtain job ch1 where job: "f q (coordinator_build, h) = (job, ch1)" by (metis surj_pair)
  obtain down ch2 where sh: "shutdown (sn_polls a) (sn_finish a) ch1 = (down, ch2)" by (metis surj_pair)
  have "accounted ch1" using acc [of q] job by simp
  from shutdown_all_killed [OF this, of "sn_polls a" "sn_finish a"] have killed: "all_killed (snd ch2)"
    by (simp add: sh)
  define oc where "oc = (case with_timeout (sn_timed_out a) job of
      Ok (Ok r) \<Rightarrow> from_success (ok r) | Ok (Err _) \<Rightarrow> ErrorServer | Err _ \<Rightarrow> ErrorTimeoutSoft)"
  define resp where "resp = res_bind (map_err SvTimeout (with_timeout (sn_timed_out a) job)) (map_ok into)"
  have eqs: "r = res_bind (map_err SvShutdownCoordinator down) (\<lambda>_. resp)" "ch = ch2"
    "obs' = obs @ [(as_values (labels_complete ep (labels_of q) oc), sn_elapsed a)]"
    using wc Inr job sh
    by (simp_all add: with_coordinator_def oc_def resp_def record_metric_def record_metric_complete_def Let_def)
  have "outcome_fits a oc"
    using ok [of q] by (cases job)
      (auto simp: outcome_fits_def oc_def with_timeout_def from_success_def job split: if_splits)
  moreover have "is_ok r \<longrightarrow> is_ok resp" "is_err r \<and> is_ok resp \<longrightarrow> (\<exists>e. r = Err (SvShutdownCoordinator e))"
    using eqs(1) by (cases down; cases resp; auto)+
  moreover have "is_ok resp \<longleftrightarrow> oc = Success \<or> oc = ErrorUserCode"
    by (cases job) (auto simp: resp_def oc_def with_timeout_def from_success_def)
  ultimately show ?thesis using killed eqs(2,3) Inr by (auto simp: observed_well_def)
qed

text \<open>What a handler promises.\<close>

definition handled_well ::
    "server_env \<Rightarrow> server_answers \<Rightarrow> endpoint \<Rightarrow> json \<Rightarrow> bool \<Rightarrow> histogram \<Rightarrow> row list \<Rightarrow> handled \<Rightarrow> bool" where
  "handled_well v a ep body ok obs rows d \<longleftrightarrow>
     all_killed (hd_host d) \<and> (hr_status (hd_response d) = 200 \<or> hr_status (hd_response d) = 500) \<and>
     (if ok
      then \<exists>core oc. hd_observed d = obs @ [(as_values (labels_complete ep core oc), sn_elapsed a)] \<and> outcome_fits a oc \<and>
         (hr_status (hd_response d) = 200 \<longrightarrow> oc = Success \<or> oc = ErrorUserCode) \<and>
         (hr_status (hd_response d) = 500 \<and> (oc = Success \<or> oc = ErrorUserCode) \<longrightarrow>
            (\<exists>e. hd_response d = error_into_response (se_cleaned v) (SvShutdownCoordinator e)))
      else hd_observed d = obs \<and> hr_status (hd_response d) = 500) \<and>
     (case sn_insert a of
        Ok i \<Rightarrow>
          hd_rows d = (if sn_delivery a = NotSent then rows else rows @
            [\<lparr>row_id = i, row_category = ''http.'' @ endpoint_str ep,
              row_payload = (case se_to_string v body of Ok s \<Rightarrow> s | Err _ \<Rightarrow> ''<invalid JSON>''), row_how = None\<rparr>]) \<and>
          hd_ends d = (if sn_delivery a = Answered
            then [(i, if hr_status (hd_response d) = 200 then Complete else HowError)] else [])
      | Err _ \<Rightarrow> hd_rows d = rows \<and> hd_ends d = [])"

lemma into_response_status:
  "hr_status (into_response cleaned r) = (if is_ok r then 200 else 500)"
  by (cases r) (simp_all add: into_response_def error_into_response_def)

lemma handled_spec:
  assumes okb: "okb = is_ok (try_into req)" and h: "accounted (coordinator_build, h)"
    and acc: "\<And>q. accounted (snd (f q (coordinator_build, h)))"
    and ok: "\<And>q resp. fst (f q (coordinator_build, h)) = Ok resp \<Longrightarrow> run_success (sn_run a) = Some (ok resp)"
  shows "handled_well v a ep (ser req) okb obs rows
    (respond v ser_resp (attempt_record_request (se_to_string v) ep ser a
      (\<lambda>req. with_coordinator ep try_into labels_of ok into f a req h obs) req rows))"
proof -
  obtain r c1 h1 obs' where wc: "with_coordinator ep try_into labels_of ok into f a req h obs = (r, (c1, h1), obs')"
    by (metis surj_pair)
  have spec: "all_killed h1 \<and> observed_well a ep (is_ok (try_into req)) obs r obs'"
    using with_coordinator_spec [OF wc h] acc ok by simp
  define payload where "payload = (case se_to_string v (ser req) of Ok s \<Rightarrow> s | Err _ \<Rightarrow> ''<invalid JSON>'')"
  define d where "d = respond v ser_resp (attempt_record_request (se_to_string v) ep ser a
      (\<lambda>req. with_coordinator ep try_into labels_of ok into f a req h obs) req rows)"
  have d: "hd_response d = into_response (se_cleaned v) (map_ok ser_resp r)" "hd_host d = h1" "hd_observed d = obs'"
    by (simp_all add: d_def attempt_record_request_def respond_def wc complete_now_def Let_def split: prod.split)
  have rows: "case sn_insert a of
        Ok i \<Rightarrow> hd_rows d = (if sn_delivery a = NotSent then rows else rows @
            [\<lparr>row_id = i, row_category = ''http.'' @ endpoint_str ep, row_payload = payload, row_how = None\<rparr>]) \<and>
          hd_ends d = (if sn_delivery a = Answered then [(i, if is_ok r then Complete else HowError)] else [])
      | Err _ \<Rightarrow> hd_rows d = rows \<and> hd_ends d = []"
    by (cases "sn_insert a"; cases "sn_delivery a"; cases r)
      (simp_all add: d_def attempt_record_request_def respond_def wc complete_now_def handle_start_request_def
        db_start_request_def start_with_guard_def guard_drop_def payload_def Let_def)
  have status: "hr_status (hd_response d) = (if is_ok r then 200 else 500)"
    by (simp add: d(1) into_response_status)
  have err: "hd_response d = error_into_response (se_cleaned v) e" if "r = Err e" for e
    using that by (simp add: d(1) into_response_def)
  have "if okb then \<exists>core oc. hd_observed d = obs @ [(as_values (labels_complete ep core oc), sn_elapsed a)] \<and>
         outcome_fits a oc \<and>
         (hr_status (hd_response d) = 200 \<longrightarrow> oc = Success \<or> oc = ErrorUserCode) \<and>
         (hr_status (hd_response d) = 500 \<and> (oc = Success \<or> oc = ErrorUserCode) \<longrightarrow>
            (\<exists>e. hd_response d = error_into_response (se_cleaned v) (SvShutdownCoordinator e)))
      else hd_observed d = obs \<and> hr_status (hd_response d) = 500"
  proof (cases r)
    case (Inl e)
    with spec show ?thesis unfolding okb status d(3) observed_well_def using err [of e]
      by (auto split: if_splits; blast)
  next
    case (Inr w)
    with spec show ?thesis unfolding okb status d(3) observed_well_def by (simp split: if_splits)
  qed
  moreover have "all_killed (hd_host d)" using spec by (simp add: d(2))
  moreover have "is_ok r \<longleftrightarrow> hr_status (hd_response d) = 200" by (simp add: status)
  note rows = rows [unfolded this]
  moreover have "hr_status (hd_response d) = 200 \<or> hr_status (hd_response d) = 500" by (simp add: status)
  ultimately show ?thesis
    unfolding d_def [symmetric] handled_well_def payload_def [symmetric] using rows by (intro conjI)
qed

fun accepted :: "api_request \<Rightarrow> bool" where
  "accepted (RqEvaluate r) = is_ok (evaluate_try_from r)"
| "accepted (RqCompile r) = is_ok (compile_try_from r)"
| "accepted (RqExecute r) = is_ok (execute_try_from r)"
| "accepted (RqFormat r) = is_ok (format_try_from r)"
| "accepted (RqClippy r) = is_ok (clippy_try_from r)"
| "accepted (RqMiri r) = is_ok (miri_try_from r)"
| "accepted (RqMacroExpansion r) = is_ok (macro_expansion_try_from r)"

fun ser_request :: "api_request \<Rightarrow> json" where
  "ser_request (RqEvaluate r) = ser_evaluate_request r"
| "ser_request (RqCompile r) = ser_compile_request r"
| "ser_request (RqExecute r) = ser_execute_request r"
| "ser_request (RqFormat r) = ser_format_request r"
| "ser_request (RqClippy r) = ser_clippy_request r"
| "ser_request (RqMiri r) = ser_miri_request r"
| "ser_request (RqMacroExpansion r) = ser_macro_expansion_request r"

lemma serve_handled_well:
  "handled_well v a (has_endpoint rq) (ser_request rq) (accepted rq) obs rows (serve v a rq no_containers obs rows)"
proof -
  have h: "accounted (coordinator_build, no_containers)" using accounted_start by (simp add: no_containers_def)
  have fresh: "fresh_permit (sn_start a) no_containers"
    by (simp add: fresh_permit_def no_containers_def split: sum.splits)
  note acc = on_channel_accounted [OF h, unfolded snd_conv, OF fresh]
  note spec = handled_spec [OF _ h] and simps = coordinator_requests_def
  note acc = on_channel_accounted [OF h, unfolded snd_conv, OF fresh]
  show ?thesis
  proof (cases rq)
    case (RqEvaluate r)
    show ?thesis unfolding RqEvaluate has_endpoint.simps ser_request.simps serve.simps evaluate_handler_def accepted.simps
      by (rule spec) (auto simp: simps acc dest!: on_channel_Ok container_success)
  next
    case (RqCompile r)
    show ?thesis unfolding RqCompile has_endpoint.simps ser_request.simps serve.simps compile_handler_def accepted.simps
      by (rule spec) (auto simp: simps acc dest!: on_channel_Ok container_success)
  next
    case (RqExecute r)
    show ?thesis unfolding RqExecute has_endpoint.simps ser_request.simps serve.simps execute_handler_def accepted.simps
      by (rule spec) (auto simp: simps acc dest!: on_channel_Ok container_success)
  next
    case (RqFormat r)
    show ?thesis unfolding RqFormat has_endpoint.simps ser_request.simps serve.simps format_handler_def accepted.simps
      by (rule spec) (auto simp: simps acc dest!: on_channel_Ok container_success)
  next
    case (RqClippy r)
    show ?thesis unfolding RqClippy has_endpoint.simps ser_request.simps serve.simps clippy_handler_def accepted.simps
      by (rule spec) (auto simp: simps acc dest!: on_channel_Ok container_success)
  next
    case (RqMiri r)
    show ?thesis unfolding RqMiri has_endpoint.simps ser_request.simps serve.simps miri_handler_def accepted.simps
      by (rule spec) (auto simp: simps acc dest!: on_channel_Ok container_success)
  next
    case (RqMacroExpansion r)
    show ?thesis unfolding RqMacroExpansion has_endpoint.simps ser_request.simps serve.simps macro_expansion_handler_def
        accepted.simps
      by (rule spec) (auto simp: simps acc dest!: on_channel_Ok container_success)
  qed
qed

subsection \<open>Property\<close>


definition sample_answers :: server_answers where
  "sample_answers = \<lparr>sn_delivery = Answered, sn_insert = Ok 7, sn_start = sample_start ''0'',
     sn_run = Ok \<lparr>cn_task = Ok (Ok \<lparr>ecr_success = True, ecr_exit_detail = ''Exited with status 0''\<rparr>),
       cn_stdout = [''hello''], cn_stderr = []\<rparr>,
     sn_job = 0, sn_output = \<lparr>ra_demux_open = True, ra_acked = True, ra_worker_open = True, ra_message = None\<rparr>, sn_reads = [],
     sn_timed_out = False, sn_elapsed = 1,
     sn_polls = [(Stable, \<lparr>sh_kill = KillEnds (Ok ()), sh_task = Ok (Ok ())\<rparr>),
       (Beta, \<lparr>sh_kill = KillEnds (Ok ()), sh_task = Ok (Ok ())\<rparr>),
       (Nightly, \<lparr>sh_kill = KillEnds (Ok ()), sh_task = Ok (Ok ())\<rparr>)], sn_finish = [0, 1, 2]\<rparr>"

definition sample_env :: server_env where
  "sample_env = \<lparr>se_arch = ''linux/amd64'', se_demangle = (\<lambda>s. s),
     se_patterns = \<lparr>opcode_is_match = (\<lambda>_. False), label_decl_capture = (\<lambda>_. None), label_ref_captures = (\<lambda>_. []),
       data_is_match = (\<lambda>_. False), function_capture = (\<lambda>_. None), directive_is_match = (\<lambda>_. False),
       blank_is_match = (\<lambda>_. False)\<rparr>,
     se_dfs = (\<lambda>_ s. [s]), se_to_string = (\<lambda>_. Ok ''{}''), se_cleaned = (\<lambda>_. [''failed''])\<rparr>"

definition sample_execute :: api_request where
  "sample_execute = RqExecute \<lparr>ae_channel = ''stable'', ae_mode = ''debug'', ae_edition = ''2021'',
     ae_crate_type = ''bin'', ae_tests = False, ae_backtrace = False, ae_code = ApiSingle ''fn main() {}''\<rparr>"


end
