(* ===== verification/Server_Meta.thy ===== *)
theory Server_Meta
  imports Server_Axum
begin

text \<open>
  \<open>ui/src/server_axum.rs\<close>: the metadata endpoints with their time-stamped caching and the
  generators of the two caches, the gist endpoints, the metrics endpoints with their token, and the
  debugging endpoints.
\<close>

subsection \<open>Generators of the caches\<close>

text \<open>\<open>Coordinator::crates\<close>, and \<open>Coordinator::versions\<close> with the containers of its three channels
  started in some order.\<close>

definition coordinator_crates ::
    "string \<Rightarrow> start_answers \<Rightarrow> (container_crates_error, crate_info list) result \<Rightarrow>
     coordinator \<times> host \<Rightarrow> (crates_error, crate_info list) result \<times> coordinator \<times> host" where
  "coordinator_crates arch start crates ch =
     on_channel arch start CraStart Stable (map_err CraContainer crates) ch"

fun select_all ::
    "string \<Rightarrow> (channel \<times> start_answers) list \<Rightarrow> coordinator \<times> host \<Rightarrow>
     (channel \<times> (coordinator_error, unit) result) list \<times> coordinator \<times> host" where
  "select_all arch [] ch = ([], ch)"
| "select_all arch ((channel, start) # starts) ch =
     (case select_channel arch channel start ch of
        (container, ch) \<Rightarrow>
          (case select_all arch starts ch of
             (containers, ch) \<Rightarrow> ((channel, map_ok (\<lambda>_. ()) container) # containers, ch)))"

definition coordinator_versions_run ::
    "string \<Rightarrow> (channel \<times> start_answers) list \<Rightarrow>
     (channel \<Rightarrow> (container_versions_error, channel_versions) result) \<Rightarrow> nat list \<Rightarrow>
     coordinator \<times> host \<Rightarrow> (versions_error, versions) result \<times> coordinator \<times> host" where
  "coordinator_versions_run arch starts channel_versions order ch =
     (case select_all arch starts ch of
        (containers, ch) \<Rightarrow>
          (coordinator_versions
             (\<lambda>channel. map_ok (\<lambda>_. channel_versions channel) (the (map_of containers channel))) order, ch))"

text \<open>The closures of \<open>cache_crates_task\<close> and \<open>cache_versions_task\<close>: an early return drops the coordinator.\<close>

definition cache_generator ::
    "('e \<Rightarrow> 'f) \<Rightarrow> (coordinator_error \<Rightarrow> 'f) \<Rightarrow> ('t \<Rightarrow> 'u) \<Rightarrow> (channel \<times> shutdown_answers) list \<Rightarrow> nat list \<Rightarrow>
     (coordinator \<times> host \<Rightarrow> ('e, 't) result \<times> coordinator \<times> host) \<Rightarrow> host \<Rightarrow>
     ('f, 'u) result \<times> coordinator \<times> host" where
  "cache_generator failed not_shut_down into polls finish ask h =
     (case ask (coordinator_build, h) of
        (Err e, ch) \<Rightarrow> (Err (failed e), coordinator_drop ch)
      | (Ok v, ch) \<Rightarrow>
          (case shutdown polls finish ch of
             (Err e, ch) \<Rightarrow> (Err (not_shut_down e), ch)
           | (Ok _, ch) \<Rightarrow> (Ok (into v), ch)))"

definition cache_crates_generator ::
    "string \<Rightarrow> start_answers \<Rightarrow> (container_crates_error, crate_info list) result \<Rightarrow>
     (channel \<times> shutdown_answers) list \<Rightarrow> nat list \<Rightarrow> host \<Rightarrow>
     (cache_crates_error, crate_information list) result \<times> coordinator \<times> host" where
  "cache_crates_generator arch start crates polls finish =
     cache_generator CcCrates CcShutdown crates_to_api polls finish (coordinator_crates arch start crates)"

definition cache_versions_generator ::
    "string \<Rightarrow> (channel \<times> start_answers) list \<Rightarrow>
     (channel \<Rightarrow> (container_versions_error, channel_versions) result) \<Rightarrow> nat list \<Rightarrow>
     (channel \<times> shutdown_answers) list \<Rightarrow> nat list \<Rightarrow> host \<Rightarrow>
     (cache_versions_error, meta_versions_response) result \<times> coordinator \<times> host" where
  "cache_versions_generator arch starts channel_versions order polls finish =
     cache_generator CvsVersions CvsShutdown versions_to_api polls finish
       (coordinator_versions_run arch starts channel_versions order)"

subsection \<open>Time-stamped caching\<close>

text \<open>The response, not modified or fresh, with its tag and the seconds it may be kept.\<close>

record meta_response =
  mp_etag :: string
  mp_max_age :: nat
  mp_fresh :: "json option"

definition mp_status :: "meta_response \<Rightarrow> nat" where
  "mp_status r = (if mp_fresh r = None then 304 else 200)"

definition quote_char :: char where "quote_char = CHR 0x22"

text \<open>Stamps are milliseconds since the epoch; the tag has the seconds.\<close>

definition etag_of :: "nat \<Rightarrow> string" where
  "etag_of stamp = quote_char # ''pg-ts-'' @ nat_to_string (stamp div 1000) @ [quote_char]"

text \<open>The client's \<open>If-None-Match\<close> is the precondition of its tags, when it sent any.\<close>

definition apply_timestamped_caching ::
    "('t \<Rightarrow> json) \<Rightarrow> 't \<times> nat \<Rightarrow> (string \<Rightarrow> bool) option \<Rightarrow> meta_response" where
  "apply_timestamped_caching ser stamped if_none_match =
     (case stamped of (v, stamp) \<Rightarrow>
        (let etag = etag_of stamp;
             use_fresh = (case if_none_match of None \<Rightarrow> True | Some precondition_passes \<Rightarrow> precondition_passes etag)
         in \<lparr>mp_etag = etag, mp_max_age = sandbox_cache_time_to_live div 1000,
             mp_fresh = (if use_fresh then Some (ser v) else None)\<rparr>))"

definition ser_crate_information :: "crate_information \<Rightarrow> json" where
  "ser_crate_information c = JObject [(''name'', JString (cri_name c)), (''version'', JString (cri_version c)),
     (''id'', JString (cri_id c))]"

definition ser_meta_crates :: "crate_information list \<Rightarrow> json" where
  "ser_meta_crates cs = JObject [(''crates'', JArray (map ser_crate_information cs))]"

definition ser_meta_version :: "meta_version_response \<Rightarrow> json" where
  "ser_meta_version v = JObject [(''version'', JString (mvr_version v)), (''hash'', JString (mvr_hash v)),
     (''date'', JString (mvr_date v))]"

text \<open>An empty miri is left out.\<close>

definition ser_meta_channel_version :: "meta_channel_version_response \<Rightarrow> json" where
  "ser_meta_channel_version v = JObject ([(''rustc'', ser_meta_version (mcv_rustc v)),
     (''rustfmt'', ser_meta_version (mcv_rustfmt v)), (''clippy'', ser_meta_version (mcv_clippy v))] @
     (case mcv_miri v of None \<Rightarrow> [] | Some m \<Rightarrow> [(''miri'', ser_meta_version m)]))"

definition ser_meta_versions :: "meta_versions_response \<Rightarrow> json" where
  "ser_meta_versions v = JObject [(''stable'', ser_meta_channel_version (mvs_stable v)),
     (''beta'', ser_meta_channel_version (mvs_beta v)), (''nightly'', ser_meta_channel_version (mvs_nightly v))]"

definition meta_crates ::
    "(cache_crates_error cache_tx_error, crate_information list \<times> nat) result \<Rightarrow> (string \<Rightarrow> bool) option \<Rightarrow>
     f64 \<Rightarrow> histogram \<Rightarrow> (server_error, meta_response) result \<times> histogram" where
  "meta_crates got if_none_match elapsed obs =
     (case track_metric_no_request_async EpMetaCrates got elapsed obs of
        (value, obs) \<Rightarrow>
          (map_ok (\<lambda>v. apply_timestamped_caching ser_meta_crates v if_none_match) (map_err SvCrates value), obs))"

definition meta_versions ::
    "(cache_versions_error cache_tx_error, meta_versions_response \<times> nat) result \<Rightarrow> (string \<Rightarrow> bool) option \<Rightarrow>
     f64 \<Rightarrow> histogram \<Rightarrow> (server_error, meta_response) result \<times> histogram" where
  "meta_versions got if_none_match elapsed obs =
     (case track_metric_no_request_async EpMetaVersions got elapsed obs of
        (value, obs) \<Rightarrow>
          (map_ok (\<lambda>v. apply_timestamped_caching ser_meta_versions v if_none_match) (map_err SvVersions value), obs))"

subsection \<open>Gists\<close>

record meta_gist_response =
  mgr_id :: string
  mgr_url :: string
  mgr_code :: api_code

definition gist_file_of_api :: "api_code_file \<Rightarrow> gist_file" where
  "gist_file_of_api f = \<lparr>gf_name = acf_name f, gf_content = acf_content f\<rparr>"

definition gist_file_to_api :: "gist_file \<Rightarrow> api_code_file" where
  "gist_file_to_api f = \<lparr>acf_name = gf_name f, acf_content = gf_content f\<rparr>"

fun gist_code_of_api :: "api_code \<Rightarrow> gist_code" where
  "gist_code_of_api (ApiSingle c) = GistSingle c"
| "gist_code_of_api (ApiMultiple fs) = GistMultiple (map gist_file_of_api fs)"

fun gist_code_to_api :: "gist_code \<Rightarrow> api_code" where
  "gist_code_to_api (GistSingle c) = ApiSingle c"
| "gist_code_to_api (GistMultiple fs) = ApiMultiple (map gist_file_to_api fs)"

definition gist_to_api :: "gist \<Rightarrow> meta_gist_response" where
  "gist_to_api g = \<lparr>mgr_id = gist_id g, mgr_url = gist_url g, mgr_code = gist_code_to_api (gist_code_of g)\<rparr>"

definition must_get :: "string option \<Rightarrow> (server_error, string) result" where
  "must_get token = ok_or SvNoGithubToken token"

text \<open>GitHub: a client for a token, which sends files and gets gists.\<close>

record github =
  gb_client :: "string \<Rightarrow> (string, unit) result"
  gb_send :: "string \<Rightarrow> (string \<times> string) list \<Rightarrow> (string, github_gist) result"
  gb_get :: "string \<Rightarrow> string \<Rightarrow> (string, github_gist) result"

definition meta_gist_create ::
    "((char \<Rightarrow> bool) \<Rightarrow> string \<Rightarrow> string) \<Rightarrow> (string \<Rightarrow> bool) \<Rightarrow> (string \<Rightarrow> bytes) \<Rightarrow> (string, string) result \<Rightarrow>
     github \<Rightarrow> string option \<Rightarrow> api_code \<Rightarrow> (server_error, meta_gist_response) result" where
  "meta_gist_create penc reads_v1 pdec meta_text gh token code =
     res_bind (must_get token) (\<lambda>token.
     map_err SvGistCreation (map_ok gist_to_api
       (create_future penc reads_v1 pdec (gb_client gh token) meta_text (gb_send gh token) (gist_code_of_api code))))"

definition meta_gist_get ::
    "(string \<Rightarrow> bool) \<Rightarrow> (string \<Rightarrow> bytes) \<Rightarrow> github \<Rightarrow> string option \<Rightarrow> string \<Rightarrow>
     (server_error, meta_gist_response) result" where
  "meta_gist_get reads_v1 pdec gh token gist =
     res_bind (must_get token) (\<lambda>token.
     map_err SvGistLoading (map_ok gist_to_api
       (load_future reads_v1 pdec (gb_client gh token) (gb_get gh token) gist)))"

subsection \<open>Metrics endpoints\<close>

text \<open>\<open>MetricsAuthorization\<close>: without a token in the configuration everyone is let in; otherwise only the
  bearer of that token.\<close>

definition metrics_authorization :: "string option \<Rightarrow> string option \<Rightarrow> (nat \<times> string, unit) result" where
  "metrics_authorization expected bearer =
     (case expected of
        None \<Rightarrow> Ok ()
      | Some token \<Rightarrow>
          (case bearer of
             Some actual \<Rightarrow> if actual = token then Ok () else Err (401, ''Wrong credentials'')
           | None \<Rightarrow> Err (401, ''Wrong credentials'')))"

definition newline :: string where "newline = [CHR 0x0A]"

definition gauge_name :: "string \<Rightarrow> string" where
  "gauge_name n = ''playground_tokio_'' @ n @ ''_gauge''"

definition tokio_metrics :: "nat \<Rightarrow> nat \<Rightarrow> nat \<Rightarrow> string" where
  "tokio_metrics workers alive_tasks queue_depth =
     concat (map (\<lambda>(n, value). ''# TYPE '' @ gauge_name n @ '' gauge'' @ newline @
         gauge_name n @ '' '' @ nat_to_string value @ newline)
       [(''num_workers'', workers), (''num_alive_tasks'', alive_tasks), (''global_queue_depth'', queue_depth)])
     @ ''# EOF'' @ newline"

subsection \<open>Debugging endpoints\<close>

text \<open>\<open>WS_ERRORS\<close> counts each error; the counter of unavailable websockets goes up with it.\<close>

definition record_websocket_error :: "string \<Rightarrow> (string \<Rightarrow> nat) \<Rightarrow> (string \<Rightarrow> nat)" where
  "record_websocket_error e errors = errors(e := errors e + 1)"

definition nowebsocket :: "string \<Rightarrow> (string \<Rightarrow> nat) \<times> nat \<Rightarrow> (string \<Rightarrow> nat) \<times> nat" where
  "nowebsocket e s = (case s of (errors, unavailable) \<Rightarrow> (record_websocket_error e errors, unavailable + 1))"

text \<open>The tracked names in order, one in a line.\<close>

definition tracked_containers :: "string set \<Rightarrow> string" where
  "tracked_containers tracked = foldl (\<lambda>a s. a @ s @ newline) [] (sorted_list_of_set tracked)"

text \<open>\<open>rewrite_help_as_index\<close> on the path and query of a request.\<close>

definition rewrite_help_as_index :: "string \<times> string option \<Rightarrow> string \<times> string option" where
  "rewrite_help_as_index uri = (if fst uri = ''/help'' then (''/index.html'', None) else uri)"

subsection \<open>Lemmas\<close>

lemma etag_of_eq: "etag_of c = etag_of d \<longleftrightarrow> c div 1000 = d div 1000"
  by (simp add: etag_of_def nat_to_string_inj)

lemma apart_etags:
  assumes "apart A" and "(v, c) \<in> A" and "(w, d) \<in> A" and "etag_of c = etag_of d"
  shows "(v, c) = (w, d)"
proof -
  have "c div 1000 = d div 1000" using assms(4) by (simp add: etag_of_eq)
  then have "c < d + 1000" "d < c + 1000"
    using div_mult_mod_eq [of c 1000] div_mult_mod_eq [of d 1000] mod_less_divisor [of 1000 c] mod_less_divisor [of 1000 d]
    by linarith+
  moreover have "(v, c) = (w, d) \<or> c + 600000 \<le> d \<or> d + 600000 \<le> c"
    using assms(1-3) unfolding apart_def sandbox_cache_time_to_live_def by fastforce
  ultimately show ?thesis by linarith
qed

lemma select_all_accounted:
  "accounted ch \<Longrightarrow>
   enabled_run coordinator_enabled (coordinator_step arch) ch (map (\<lambda>(c, a). SelectChannel c a) starts) \<Longrightarrow>
   accounted (snd (select_all arch starts ch))"
proof (induction starts arbitrary: ch)
  case (Cons x starts)
  obtain c a where x: "x = (c, a)" by (cases x)
  obtain r ch1 where sel: "select_channel arch c a ch = (r, ch1)" by (metis surj_pair)
  have "accounted ch1"
    using coordinator_step_accounted [OF Cons.prems(1), of "SelectChannel c a" arch] Cons.prems(2) sel by (simp add: x)
  moreover have "enabled_run coordinator_enabled (coordinator_step arch) ch1 (map (\<lambda>(c, a). SelectChannel c a) starts)"
    using Cons.prems(2) sel by (simp add: x)
  ultimately have "accounted (snd (select_all arch starts ch1))" by (rule Cons.IH)
  then show ?case using sel by (cases "select_all arch starts ch1") (simp add: x)
qed simp

lemma cache_generator_all_killed:
  assumes "accounted (snd (ask (coordinator_build, no_containers)))"
  shows "all_killed (snd (snd (cache_generator failed down into polls finish ask no_containers)))"
proof -
  obtain r c h where ask: "ask (coordinator_build, no_containers) = (r, c, h)" by (metis surj_pair)
  with assms have acc: "accounted (c, h)" by simp
  have "all_killed (snd (coordinator_drop (c, h)))"
    using coordinator_drop_spec [OF acc] accounted_empty
    by (cases "coordinator_drop (c, h)") (auto simp: all_killed_def)
  moreover have "all_killed (snd (snd (shutdown polls finish (c, h))))" by (rule shutdown_all_killed [OF acc])
  ultimately show ?thesis by (auto simp: cache_generator_def ask split: sum.splits prod.splits)
qed

subsection \<open>Properties\<close>

text \<open>C36: a client that revalidates keeps nothing stale. When a client got an answer of the cache and asks
  again with its tag, it is told that nothing was modified exactly when the answer the cache gives
  now is the very answer it has; otherwise, and when it has no tag, it gets the current value.
  This is where the stamps of the cache and the tags of the endpoint meet: different answers are
  stamped a time to live apart, so their tags, which only have seconds, differ.\<close>

theorem not_modified_is_current:
  assumes "enabled_run cache_enabled cache_step (cache_start now) es"
    and "(Ok v, c) \<in> set (cst_answers (foldl cache_step (cache_start now) es))"
    and "(Ok w, d) \<in> set (cst_answers (foldl cache_step (cache_start now) es))"
  shows "(mp_status (apply_timestamped_caching ser (w, d) (Some (\<lambda>tag. tag \<notin> {etag_of c}))) = 304 \<longleftrightarrow> (w, d) = (v, c)) \<and>
    (mp_status (apply_timestamped_caching ser (w, d) (Some (\<lambda>tag. tag \<notin> {etag_of c}))) = 200 \<longrightarrow>
      mp_fresh (apply_timestamped_caching ser (w, d) (Some (\<lambda>tag. tag \<notin> {etag_of c}))) = Some (ser w)) \<and>
    mp_fresh (apply_timestamped_caching ser (w, d) None) = Some (ser w) \<and>
    mp_etag (apply_timestamped_caching ser (w, d) None) = etag_of d"
proof -
  have "(v, c) = (w, d)" if "etag_of c = etag_of d"
    using apart_etags [OF answers_apart [OF assms(1)] _ _ that] assms(2,3) by (simp add: good_def)
  then show ?thesis
    by (auto simp: apply_timestamped_caching_def mp_status_def Let_def split: if_splits)
qed

theorem not_modified_is_current_witness:
  "mp_status (apply_timestamped_caching (\<lambda>n. JInt (int n)) (7, 150) (Some (\<lambda>tag. tag \<notin> {etag_of 150}))) = 304"
proof -
  have run: "enabled_run cache_enabled cache_step (cache_start 0) sample_cache_run"
    by (simp add: sample_cache_run_def cache_enabled_def cache_start_def cache_new_def cache_build_def
        try_combine_with_previous_def Let_def sandbox_cache_time_to_live_def sandbox_cache_initial_delay_def)
  have "(Ok 7, 150) \<in> set (cst_answers (foldl cache_step (cache_start 0) sample_cache_run))"
    by (simp add: sample_cache_run_def cache_start_def cache_new_def cache_build_def stamped_value_def
        try_combine_with_previous_def Let_def sandbox_cache_time_to_live_def)
  from not_modified_is_current [OF run this this] show ?thesis by blast
qed

text \<open>Renewing the caches leaks no container. When a generator of the crates or of the versions is
  done, with a value or with any error, every container it started was killed once and none is
  tracked; and it has a value only when the coordinator gave one.\<close>

theorem cache_generators_clean_up:
  assumes "enabled_run coordinator_enabled (coordinator_step arch) (coordinator_build, no_containers)
      (map (\<lambda>(c, a). SelectChannel c a) starts)"
  shows "(case cache_crates_generator arch start crates polls finish no_containers of (r, c, h) \<Rightarrow>
      h_tracked h = {} \<and> mset (h_killed h) = mset (h_started h) \<and> distinct (h_killed h) \<and>
      (\<forall>v. r = Ok v \<longrightarrow> (\<exists>cs. crates = Ok cs \<and> v = crates_to_api cs))) \<and>
    (case cache_versions_generator arch starts answers order polls finish no_containers of (r, c, h) \<Rightarrow>
      h_tracked h = {} \<and> mset (h_killed h) = mset (h_started h) \<and> distinct (h_killed h))"
proof -
  have acc: "accounted (coordinator_build, no_containers)" using accounted_start by (simp add: no_containers_def)
  have fresh: "fresh_permit start no_containers" by (simp add: fresh_permit_def no_containers_def split: sum.splits)
  have "accounted (snd (coordinator_crates arch start crates (coordinator_build, no_containers)))"
    using on_channel_accounted [OF acc] fresh by (simp add: coordinator_crates_def)
  from cache_generator_all_killed [where ask = "coordinator_crates arch start crates", OF this]
  have "all_killed (snd (snd (cache_crates_generator arch start crates polls finish no_containers)))"
    by (simp add: cache_crates_generator_def)
  moreover have "\<exists>cs. crates = Ok cs \<and> v = crates_to_api cs"
    if "fst (cache_crates_generator arch start crates polls finish no_containers) = Ok v" for v
    using that by (auto simp: cache_crates_generator_def cache_generator_def coordinator_crates_def on_channel_def
        result_iffs split: sum.splits prod.splits)
  moreover have "accounted (snd (coordinator_versions_run arch starts answers order (coordinator_build, no_containers)))"
    using select_all_accounted [OF acc assms]
    by (cases "select_all arch starts (coordinator_build, no_containers)") (simp add: coordinator_versions_run_def)
  from cache_generator_all_killed [where ask = "coordinator_versions_run arch starts answers order", OF this]
  have "all_killed (snd (snd (cache_versions_generator arch starts answers order polls finish no_containers)))"
    by (simp add: cache_versions_generator_def)
  ultimately show ?thesis by (auto simp: all_killed_def split: prod.split)
qed

theorem cache_generators_clean_up_witness:
  "h_tracked (snd (snd (cache_versions_generator ''linux/amd64''
      [(Beta, sample_start ''0''), (Stable, (sample_start ''1'')\<lparr>sa_stdin := False\<rparr>), (Nightly, sample_start ''2'')]
      (\<lambda>_. Err (CvRustcMissing)) [1, 0, 2] [] [] no_containers))) = {}"
proof -
  have "enabled_run coordinator_enabled (coordinator_step ''linux/amd64'') (coordinator_build, no_containers)
      (map (\<lambda>(c, a). SelectChannel c a)
        [(Beta, sample_start ''0''), (Stable, (sample_start ''1'')\<lparr>sa_stdin := False\<rparr>), (Nightly, sample_start ''2'')])"
    by code_simp
  from cache_generators_clean_up [OF this, where start = "sample_start ''3''" and crates = "Ok []" and polls = "[]" and finish = "[]"
        and answers = "\<lambda>_. Err CvRustcMissing" and order = "[1, 0, 2]"]
  show ?thesis by (auto split: prod.splits)
qed

end
