(* ===== verification/Ws_Execute.thy ===== *)
theory Ws_Execute
  imports Server_Axum "HOL-Library.Sublist"
begin

text \<open>
  \<open>ui/src/server_axum/websocket.rs\<close>: the messages of the websocket and one execution on it. The
  execution streams between three parties: the session, which takes the responses, the client's
  stdin, and the coordinator's running command.
\<close>

subsection \<open>Messages\<close>

record ws_meta =
  sequence_number :: int

definition create_server_meta :: ws_meta where
  "create_server_meta = \<lparr>sequence_number = - 1\<rparr>"

text \<open>The code of a request has the shape of the HTTP API's.\<close>

type_synonym ws_code = api_code

record ws_execute_request =
  wq_channel :: string
  wq_mode :: string
  wq_edition :: string
  wq_crate_type :: string
  wq_tests :: bool
  wq_code :: ws_code
  wq_backtrace :: bool

datatype ws_message_request =
    WsExecuteRequest ws_execute_request ws_meta
  | WsExecuteStdin string ws_meta
  | WsExecuteStdinClose ws_meta
  | WsExecuteKill ws_meta

datatype message_response =
    MrError string ws_meta
  | MrFeatureFlags "f64 option" ws_meta
  | MrExecuteBegin ws_meta
  | MrExecuteStdout string ws_meta
  | MrExecuteStderr string ws_meta
  | MrExecuteStatus execute_status ws_meta
  | MrExecuteEnd bool string ws_meta

fun response_meta :: "message_response \<Rightarrow> ws_meta" where
  "response_meta (MrError _ m) = m"
| "response_meta (MrFeatureFlags _ m) = m"
| "response_meta (MrExecuteBegin m) = m"
| "response_meta (MrExecuteStdout _ m) = m"
| "response_meta (MrExecuteStderr _ m) = m"
| "response_meta (MrExecuteStatus _ m) = m"
| "response_meta (MrExecuteEnd _ _ m) = m"

text \<open>
  Reading an enum with \<open>#[serde(tag = "type")]\<close>: the tag is a field of the object, which must not
  repeat, or the first element of an array; the variant reads the rest.
\<close>

definition tagged :: "json \<Rightarrow> (string \<times> json) option" where
  "tagged j = (case j of
     JObject kvs \<Rightarrow>
       (case filter (\<lambda>kv. fst kv = ''type'') kvs of
          [kv] \<Rightarrow> map_option (\<lambda>t. (t, JObject (filter (\<lambda>kv. fst kv \<noteq> ''type'') kvs))) (js_string (snd kv))
        | _ \<Rightarrow> None)
   | JArray (t # vs) \<Rightarrow> map_option (\<lambda>t. (t, JArray vs)) (js_string t)
   | _ \<Rightarrow> None)"

definition de_meta :: "json \<Rightarrow> ws_meta option" where
  "de_meta j = Option.bind (struct_source [''sequenceNumber''] j) (\<lambda>s.
     Option.bind (field s ''sequenceNumber'' js_i64) (\<lambda>n. Some \<lparr>sequence_number = n\<rparr>))"

definition ser_meta :: "ws_meta \<Rightarrow> json" where
  "ser_meta m = JObject [(''sequenceNumber'', JInt (sequence_number m))]"

definition de_ws_execute_request :: "json \<Rightarrow> ws_execute_request option" where
  "de_ws_execute_request j = Option.bind (struct_source [''channel'', ''mode'', ''edition'', ''crateType'',
       ''tests'', ''code'', ''backtrace''] j) (\<lambda>s.
     Option.bind (field s ''channel'' js_string) (\<lambda>channel.
     Option.bind (field s ''mode'' js_string) (\<lambda>mode.
     Option.bind (field s ''edition'' js_string) (\<lambda>edition.
     Option.bind (field s ''crateType'' js_string) (\<lambda>crate_type.
     Option.bind (field s ''tests'' js_bool) (\<lambda>tests.
     Option.bind (field s ''code'' de_code) (\<lambda>code.
     Option.bind (field s ''backtrace'' js_bool) (\<lambda>backtrace.
     Some \<lparr>wq_channel = channel, wq_mode = mode, wq_edition = edition, wq_crate_type = crate_type,
       wq_tests = tests, wq_code = code, wq_backtrace = backtrace\<rparr>))))))))"

definition de_ws_message_request :: "json \<Rightarrow> ws_message_request option" where
  "de_ws_message_request j = Option.bind (tagged j) (\<lambda>(tag, content).
     if tag = ''output/execute/wsExecuteRequest'' then
       Option.bind (struct_source [''payload'', ''meta''] content) (\<lambda>s.
       Option.bind (field s ''payload'' de_ws_execute_request) (\<lambda>payload.
       Option.bind (field s ''meta'' de_meta) (\<lambda>m. Some (WsExecuteRequest payload m))))
     else if tag = ''output/execute/wsExecuteStdin'' then
       Option.bind (struct_source [''payload'', ''meta''] content) (\<lambda>s.
       Option.bind (field s ''payload'' js_string) (\<lambda>payload.
       Option.bind (field s ''meta'' de_meta) (\<lambda>m. Some (WsExecuteStdin payload m))))
     else if tag = ''output/execute/wsExecuteStdinClose'' then
       Option.bind (struct_source [''meta''] content) (\<lambda>s.
       Option.bind (field s ''meta'' de_meta) (\<lambda>m. Some (WsExecuteStdinClose m)))
     else if tag = ''output/execute/wsExecuteKill'' then
       Option.bind (struct_source [''meta''] content) (\<lambda>s.
       Option.bind (field s ''meta'' de_meta) (\<lambda>m. Some (WsExecuteKill m)))
     else None)"

text \<open>\<open>HandshakeMessage\<close>: whether the client accepts.\<close>

definition de_connected :: "json \<Rightarrow> bool option" where
  "de_connected j = Option.bind (struct_source [''iAcceptThisIsAnUnsupportedApi''] j) (\<lambda>s.
     field s ''iAcceptThisIsAnUnsupportedApi'' js_bool)"

definition de_handshake :: "json \<Rightarrow> bool option" where
  "de_handshake j = Option.bind (tagged j) (\<lambda>(tag, content).
     if tag = ''websocket/connected'' then
       Option.bind (struct_source [''payload'', ''meta''] content) (\<lambda>s.
       Option.bind (field s ''payload'' de_connected) (\<lambda>accepts.
       Option.bind (field s ''meta'' de_meta) (\<lambda>_. Some accepts)))
     else None)"

definition ser_execute_status :: "execute_status \<Rightarrow> json" where
  "ser_execute_status s = JObject [(''residentSetSizeBytes'', JInt (uint (exs_resident_set_size_bytes s))),
     (''totalTimeSecs'', JFloat (exs_total_time_secs s))]"

fun ser_message_response :: "message_response \<Rightarrow> json" where
  "ser_message_response (MrError e m) = JObject [(''type'', JString ''websocket/error''),
     (''payload'', JObject [(''error'', JString e)]), (''meta'', ser_meta m)]"
| "ser_message_response (MrFeatureFlags threshold m) = JObject [(''type'', JString ''featureFlags''),
     (''payload'', JObject [(''multifileThreshold'', ser_option JFloat threshold)]), (''meta'', ser_meta m)]"
| "ser_message_response (MrExecuteBegin m) = JObject [(''type'', JString ''output/execute/wsExecuteBegin''),
     (''meta'', ser_meta m)]"
| "ser_message_response (MrExecuteStdout payload m) = JObject [(''type'', JString ''output/execute/wsExecuteStdout''),
     (''payload'', JString payload), (''meta'', ser_meta m)]"
| "ser_message_response (MrExecuteStderr payload m) = JObject [(''type'', JString ''output/execute/wsExecuteStderr''),
     (''payload'', JString payload), (''meta'', ser_meta m)]"
| "ser_message_response (MrExecuteStatus status m) = JObject [(''type'', JString ''output/execute/wsExecuteStatus''),
     (''payload'', ser_execute_status status), (''meta'', ser_meta m)]"
| "ser_message_response (MrExecuteEnd success detail m) = JObject [(''type'', JString ''output/execute/wsExecuteEnd''),
     (''payload'', JObject [(''success'', JBool success), (''exitDetail'', JString detail)]), (''meta'', ser_meta m)]"

subsection \<open>Requests\<close>

datatype execute_request_parse_error =
    WpChannel parse_channel_error | WpCrateType parse_crate_type_error | WpMode parse_mode_error
  | WpEdition parse_edition_error

definition ws_execute_try_from :: "ws_execute_request \<Rightarrow> (execute_request_parse_error, execute_request) result" where
  "ws_execute_try_from r =
     res_bind (map_err WpChannel (parse_channel (wq_channel r))) (\<lambda>channel.
     res_bind (map_err WpMode (parse_mode (wq_mode r))) (\<lambda>mode.
     res_bind (map_err WpEdition (parse_edition (wq_edition r))) (\<lambda>edition.
     res_bind (map_err WpCrateType (parse_crate_type (wq_crate_type r))) (\<lambda>crate_type.
     Ok \<lparr>er_channel = channel, er_mode = mode, er_edition = edition, er_crate_type = crate_type,
         er_tests = wq_tests r, er_backtrace = wq_backtrace r, er_code = code_of_api (wq_code r)\<rparr>))))"

datatype ws_execute_error =
    WeBadRequest execute_request_parse_error
  | WeBegin execute_error
  | WeEnd execute_error
  | WeStdin send_error

datatype 'a completed_or_abandoned = Abandoned | Completed 'a

subsection \<open>\<open>handle_execute_inner\<close>\<close>

text \<open>Where the function is: in its loop, draining what is left of one of the outputs, or returned.\<close>

type_synonym ended = "(execute_error, execute_response) result"

datatype ws_phase =
    WsRunning
  | WsDrainStdout ended
  | WsDrainStderr ended
  | WsDone "(ws_execute_error, metric_outcome completed_or_abandoned) result"

text \<open>
  \<open>wr_open\<close> is whether the session still takes responses, \<open>wr_sent\<close> what it took; \<open>wr_stdin\<close> is what
  was passed to the command, and \<open>wr_stdin_open\<close> is \<open>stdin_tx.is_some()\<close>.
\<close>

record ws_run =
  wr_meta :: ws_meta
  wr_phase :: ws_phase
  wr_open :: bool
  wr_sent :: "message_response list"
  wr_stdin_open :: bool
  wr_stdin :: "string list"
  wr_reported :: bool

text \<open>A send with \<open>abandon_if_closed\<close>.\<close>

definition ws_send :: "message_response \<Rightarrow> ws_run \<Rightarrow> ws_run" where
  "ws_send m s = (if wr_open s then s\<lparr>wr_sent := wr_sent s @ [m]\<rparr> else s\<lparr>wr_phase := WsDone (Ok Abandoned)\<rparr>)"

definition ws_begin :: "ws_meta \<Rightarrow> bool \<Rightarrow> (execute_error, unit) result \<Rightarrow> ws_run" where
  "ws_begin m is_open begun =
     (let s = \<lparr>wr_meta = m, wr_phase = WsRunning, wr_open = is_open, wr_sent = [], wr_stdin_open = True,
                wr_stdin = [], wr_reported = False\<rparr>
      in case begun of
           Err e \<Rightarrow> s\<lparr>wr_phase := WsDone (Err (WeBegin e))\<rparr>
         | Ok _ \<Rightarrow> ws_send (MrExecuteBegin m) s)"

text \<open>After the outputs are drained.\<close>

definition ws_finish :: "ended \<Rightarrow> ws_run \<Rightarrow> ws_run" where
  "ws_finish status s =
     (case status of
        Err e \<Rightarrow> s\<lparr>wr_phase := WsDone (Err (WeEnd e))\<rparr>
      | Ok r \<Rightarrow>
          (let outcome = from_success (exr_success r);
               s = ws_send (MrExecuteEnd (exr_success r) (exr_exit_detail r) (wr_meta s)) s
           in if wr_open s then s\<lparr>wr_phase := WsDone (Ok (Completed outcome))\<rparr> else s))"

text \<open>
  The events: the session goes away; the command's task ends; stdin arrives, with whether the
  command took it, or is closed; output and status arrive; draining finds an element or nothing.
\<close>

datatype ws_event =
    WxSessionGone
  | WxTask ended
  | WxStdin "string option" bool
  | WxStdout string
  | WxStderr string
  | WxStatus execute_status
  | WxDrainedStdout "string option"
  | WxDrainedStderr "string option"

fun ws_step :: "ws_run \<Rightarrow> ws_event \<Rightarrow> ws_run" where
  "ws_step s WxSessionGone = s\<lparr>wr_open := False\<rparr>"
| "ws_step s (WxTask response) = s\<lparr>wr_phase := WsDrainStdout response\<rparr>"
| "ws_step s (WxStdin (Some stdin) sent) =
     (if sent then s\<lparr>wr_stdin := wr_stdin s @ [stdin]\<rparr> else s\<lparr>wr_phase := WsDone (Err (WeStdin ()))\<rparr>)"
| "ws_step s (WxStdin None _) = s\<lparr>wr_stdin_open := False\<rparr>"
| "ws_step s (WxStdout payload) = ws_send (MrExecuteStdout payload (wr_meta s)) s"
| "ws_step s (WxStderr payload) = ws_send (MrExecuteStderr payload (wr_meta s)) s"
| "ws_step s (WxStatus status) =
     ws_send (MrExecuteStatus status (wr_meta s))
       (s\<lparr>wr_reported := wr_reported s \<or> 60 < exs_total_time_secs status\<rparr>)"
| "ws_step s (WxDrainedStdout (Some payload)) = ws_send (MrExecuteStdout payload (wr_meta s)) s"
| "ws_step s (WxDrainedStdout None) =
     (case wr_phase s of WsDrainStdout r \<Rightarrow> s\<lparr>wr_phase := WsDrainStderr r\<rparr> | _ \<Rightarrow> s)"
| "ws_step s (WxDrainedStderr (Some payload)) = ws_send (MrExecuteStderr payload (wr_meta s)) s"
| "ws_step s (WxDrainedStderr None) = (case wr_phase s of WsDrainStderr r \<Rightarrow> ws_finish r s | _ \<Rightarrow> s)"

fun is_done :: "ws_phase \<Rightarrow> bool" where
  "is_done (WsDone _) = True" | "is_done _ = False"

fun ws_enabled :: "ws_run \<Rightarrow> ws_event \<Rightarrow> bool" where
  "ws_enabled s WxSessionGone = (\<not> is_done (wr_phase s))"
| "ws_enabled s (WxStdin _ _) = (wr_phase s = WsRunning \<and> wr_stdin_open s)"
| "ws_enabled s (WxDrainedStdout _) = (\<exists>r. wr_phase s = WsDrainStdout r)"
| "ws_enabled s (WxDrainedStderr _) = (\<exists>r. wr_phase s = WsDrainStderr r)"
| "ws_enabled s _ = (wr_phase s = WsRunning)"

subsection \<open>\<open>handle_execute\<close>\<close>

definition ws_outcome :: "(ws_execute_error, metric_outcome completed_or_abandoned) result \<Rightarrow> metric_outcome" where
  "ws_outcome v = (case v of Ok Abandoned \<Rightarrow> OutcomeAbandoned | Ok (Completed oc) \<Rightarrow> oc | Err _ \<Rightarrow> ErrorServer)"

definition ws_handle_execute ::
    "ws_execute_request \<Rightarrow> (execute_request \<Rightarrow> (ws_execute_error, metric_outcome completed_or_abandoned) result) \<Rightarrow>
     f64 \<Rightarrow> histogram \<Rightarrow> (ws_execute_error, unit) result \<times> histogram" where
  "ws_handle_execute req inner elapsed obs =
     (case map_err WeBadRequest (ws_execute_try_from req) of
        Err e \<Rightarrow> (Err e, obs)
      | Ok req \<Rightarrow>
          (let v = inner req
           in (map_ok (\<lambda>_. ()) v, record_metric EpExecute (execute_labels req) (ws_outcome v) elapsed obs)))"

subsection \<open>Lemmas\<close>

text \<open>What the client is owed for an event.\<close>

fun body :: "ws_meta \<Rightarrow> ws_event \<Rightarrow> message_response list" where
  "body m (WxStdout payload) = [MrExecuteStdout payload m]"
| "body m (WxStderr payload) = [MrExecuteStderr payload m]"
| "body m (WxStatus status) = [MrExecuteStatus status m]"
| "body m (WxDrainedStdout (Some payload)) = [MrExecuteStdout payload m]"
| "body m (WxDrainedStderr (Some payload)) = [MrExecuteStderr payload m]"
| "body m e = []"

definition bodies :: "ws_meta \<Rightarrow> ws_event list \<Rightarrow> message_response list" where
  "bodies m es = concat (map (body m) es)"

fun passed :: "ws_event \<Rightarrow> string list" where
  "passed (WxStdin (Some stdin) True) = [stdin]" | "passed e = []"

fun task_end :: "ws_event list \<Rightarrow> ended option" where
  "task_end [] = None"
| "task_end (WxTask r # es) = Some r"
| "task_end (e # es) = task_end es"

lemma bodies_snoc [simp]: "bodies m (es @ [e]) = bodies m es @ body m e" "bodies m [] = []"
  by (simp_all add: bodies_def)

lemma task_end_snoc: "task_end (es @ [e]) = (case task_end es of Some r \<Rightarrow> Some r
    | None \<Rightarrow> (case e of WxTask r \<Rightarrow> Some r | _ \<Rightarrow> None))"
  by (induction es rule: task_end.induct) (simp_all split: ws_event.split)

text \<open>The state after the events \<open>es\<close>.\<close>

fun ws_fits :: "ws_meta \<Rightarrow> ws_event list \<Rightarrow> message_response list \<Rightarrow> bool \<Rightarrow> ws_phase \<Rightarrow> bool" where
  "ws_fits m es sent is_open WsRunning = (task_end es = None \<and> sent = MrExecuteBegin m # bodies m es)"
| "ws_fits m es sent is_open (WsDrainStdout r) = (task_end es = Some r \<and> sent = MrExecuteBegin m # bodies m es)"
| "ws_fits m es sent is_open (WsDrainStderr r) = (task_end es = Some r \<and> sent = MrExecuteBegin m # bodies m es)"
| "ws_fits m es sent is_open (WsDone (Ok Abandoned)) =
     (\<not> is_open \<and> prefix sent (MrExecuteBegin m # bodies m es))"
| "ws_fits m es sent is_open (WsDone (Ok (Completed oc))) =
     (\<exists>r. task_end es = Some (Ok r) \<and> oc = from_success (exr_success r) \<and>
        sent = MrExecuteBegin m # bodies m es @ [MrExecuteEnd (exr_success r) (exr_exit_detail r) m])"
| "ws_fits m es sent is_open (WsDone (Err (WeEnd e))) =
     (task_end es = Some (Err e) \<and> sent = MrExecuteBegin m # bodies m es)"
| "ws_fits m es sent is_open (WsDone (Err (WeStdin e))) =
     (task_end es = None \<and> sent = MrExecuteBegin m # bodies m es)"
| "ws_fits m es sent is_open (WsDone (Err e)) = False"

definition ws_inv :: "ws_meta \<Rightarrow> ws_event list \<Rightarrow> ws_run \<Rightarrow> bool" where
  "ws_inv m es s \<longleftrightarrow> wr_meta s = m \<and> ws_fits m es (wr_sent s) (wr_open s) (wr_phase s)"

lemma ws_send_inv:
  assumes "ws_inv m es s" and "\<not> is_done (wr_phase s)" and "body m e = [x]" and "task_end (es @ [e]) = task_end es"
  shows "ws_inv m (es @ [e]) (ws_send x s)"
  using assms by (cases "wr_phase s") (auto simp: ws_inv_def ws_send_def prefix_def)

lemma ws_step_inv:
  assumes inv: "ws_inv m es s" and en: "ws_enabled s e"
  shows "ws_inv m (es @ [e]) (ws_step s e)"
proof -
  have m: "wr_meta s = m" using inv by (simp add: ws_inv_def)
  have quiet: "task_end (es @ [e]) = task_end es" if "\<forall>r. e \<noteq> WxTask r"
    using that by (cases e) (auto simp: task_end_snoc split: option.split)
  have send: "ws_inv m (es @ [e]) (ws_send x s)" if "\<not> is_done (wr_phase s)" "body m e = [x]" for x
    using ws_send_inv [OF inv that] quiet that(2) by (cases e) auto
  show ?thesis
  proof (cases e)
    case WxSessionGone
    with inv en quiet show ?thesis by (cases "wr_phase s") (auto simp: ws_inv_def)
  next
    case (WxTask r)
    with inv en show ?thesis by (simp add: ws_inv_def task_end_snoc)
  next
    case (WxStdin stdin sent)
    with inv en quiet show ?thesis by (cases stdin) (auto simp: ws_inv_def)
  next
    case (WxStatus status)
    have "ws_inv m es (s\<lparr>wr_reported := wr_reported s \<or> 60 < exs_total_time_secs status\<rparr>)"
      using inv by (simp add: ws_inv_def)
    from ws_send_inv [OF this, of e] show ?thesis using en quiet m by (simp add: WxStatus)
  next
    case (WxDrainedStdout payload)
    with inv en quiet send show ?thesis by (cases payload) (auto simp: ws_inv_def m)
  next
    case (WxDrainedStderr payload)
    then obtain r where r: "wr_phase s = WsDrainStderr r" using en by auto
    show ?thesis
    proof (cases payload)
      case None
      with inv quiet r WxDrainedStderr show ?thesis
        by (cases r) (auto simp: ws_inv_def ws_finish_def ws_send_def Let_def m prefix_def)
    next
      case (Some p)
      with send r m show ?thesis by (simp add: WxDrainedStderr)
    qed
  qed (use en send m in simp_all)
qed

lemma ws_run_inv:
  "ws_inv m es s \<Longrightarrow> enabled_run ws_enabled ws_step s fs \<Longrightarrow> ws_inv m (es @ fs) (foldl ws_step s fs)"
proof (induction fs arbitrary: es s)
  case (Cons e fs)
  from Cons.IH [OF ws_step_inv [OF Cons.prems(1), of e]] Cons.prems(2) show ?case by simp
qed simp

lemma ws_stdin_run:
  "enabled_run ws_enabled ws_step s es \<Longrightarrow> wr_stdin (foldl ws_step s es) = wr_stdin s @ concat (map passed es)"
proof (induction es arbitrary: s)
  case (Cons e es)
  have "wr_stdin (ws_step s e) = wr_stdin s @ passed e"
    by (cases "(s, e)" rule: ws_step.cases)
      (auto simp: ws_send_def ws_finish_def Let_def split: ws_phase.splits sum.splits if_splits)
  with Cons show ?case by simp
qed simp

lemma ws_stdin_closed:
  "enabled_run ws_enabled ws_step s es \<Longrightarrow> \<not> wr_stdin_open s \<Longrightarrow> WxStdin i b \<notin> set es"
proof (induction es arbitrary: s)
  case (Cons e es)
  have "\<not> wr_stdin_open (ws_step s e)" using Cons.prems(2)
    by (cases "(s, e)" rule: ws_step.cases)
      (auto simp: ws_send_def ws_finish_def Let_def split: ws_phase.splits sum.splits if_splits)
  with Cons show ?case by auto
qed simp

text \<open>Draining what is left of the outputs.\<close>

definition drain :: "string list \<Rightarrow> string list \<Rightarrow> ws_event list" where
  "drain outs errs = map (\<lambda>p. WxDrainedStdout (Some p)) outs @ [WxDrainedStdout None] @
     map (\<lambda>p. WxDrainedStderr (Some p)) errs @ [WxDrainedStderr None]"

lemma drain_stdout:
  "wr_open s \<Longrightarrow> wr_phase s = WsDrainStdout r \<Longrightarrow>
   enabled_run ws_enabled ws_step s (map (\<lambda>p. WxDrainedStdout (Some p)) outs) \<and>
   foldl ws_step s (map (\<lambda>p. WxDrainedStdout (Some p)) outs) =
     s\<lparr>wr_sent := wr_sent s @ map (\<lambda>p. MrExecuteStdout p (wr_meta s)) outs\<rparr>"
  by (induction outs arbitrary: s) (simp_all add: ws_send_def)

lemma drain_stderr:
  "wr_open s \<Longrightarrow> wr_phase s = WsDrainStderr r \<Longrightarrow>
   enabled_run ws_enabled ws_step s (map (\<lambda>p. WxDrainedStderr (Some p)) errs) \<and>
   foldl ws_step s (map (\<lambda>p. WxDrainedStderr (Some p)) errs) =
     s\<lparr>wr_sent := wr_sent s @ map (\<lambda>p. MrExecuteStderr p (wr_meta s)) errs\<rparr>"
  by (induction errs arbitrary: s) (simp_all add: ws_send_def)

subsection \<open>Properties\<close>

lemma bodies_meta:
  assumes "x \<in> set (bodies m es)"
  shows "response_meta x = m"
proof -
  from assms obtain e where "x \<in> set (body m e)" by (auto simp: bodies_def)
  then show ?thesis by (cases "(m, e)" rule: body.cases) auto
qed

text \<open>Only the end of the session closes its channel of responses.\<close>

lemma ws_open_step: "WxSessionGone \<noteq> e \<Longrightarrow> wr_open (ws_step t e) = wr_open t"
  by (cases "(t, e)" rule: ws_step.cases)
    (auto simp: ws_send_def ws_finish_def Let_def split: ws_phase.splits sum.splits if_splits)

lemma ws_open_run: "WxSessionGone \<notin> set es \<Longrightarrow> wr_open (foldl ws_step t es) = wr_open t"
  by (induction es arbitrary: t) (simp_all add: ws_open_step del: ws_step.simps)

text \<open>C31: an execution on the websocket streams faithfully. Whatever the order of events, the session is
  sent the beginning and then exactly one message for each output and status event, in the order of
  the events, all with the meta of the request; the end is sent last, exactly when the command's
  task ended with a response and the session took everything, with that response; an execution that
  is not abandoned has left out nothing. The command gets the client's stdin in order, and nothing
  after it was closed.\<close>

theorem ws_execute_streams:
  assumes "enabled_run ws_enabled ws_step (ws_begin m True (Ok ())) es"
  shows "case foldl ws_step (ws_begin m True (Ok ())) es of s \<Rightarrow>
    (\<forall>x \<in> set (wr_sent s). response_meta x = m) \<and>
    (case wr_phase s of
       WsDone (Ok (Completed oc)) \<Rightarrow> \<exists>r. task_end es = Some (Ok r) \<and> oc = from_success (exr_success r) \<and>
         wr_sent s = MrExecuteBegin m # bodies m es @ [MrExecuteEnd (exr_success r) (exr_exit_detail r) m]
     | WsDone (Ok Abandoned) \<Rightarrow> WxSessionGone \<in> set es \<and> prefix (wr_sent s) (MrExecuteBegin m # bodies m es)
     | _ \<Rightarrow> wr_sent s = MrExecuteBegin m # bodies m es) \<and>
    wr_stdin s = concat (map passed es) \<and>
    (\<forall>as bs b. es = as @ WxStdin None b # bs \<longrightarrow> (\<forall>i b. WxStdin i b \<notin> set bs))"
proof -
  define s0 where "s0 = ws_begin m True (Ok () :: (execute_error, unit) result)"
  define s where "s = foldl ws_step s0 es"
  note run = assms [folded s0_def]
  have "ws_inv m [] s0" by (simp add: s0_def ws_begin_def ws_send_def ws_inv_def Let_def)
  from ws_run_inv [OF this run] have inv: "ws_inv m es s" by (simp add: s_def)
  have "set (wr_sent s) \<subseteq> insert (MrExecuteBegin m) (set (bodies m es)) \<union> {x. response_meta x = m}"
    using inv unfolding ws_inv_def
    by (cases "(m, es, wr_sent s, wr_open s, wr_phase s)" rule: ws_fits.cases)
      (auto dest!: set_mono_prefix)
  then have "\<forall>x \<in> set (wr_sent s). response_meta x = m" using bodies_meta by fastforce
  moreover have "wr_open s" if "WxSessionGone \<notin> set es"
    using ws_open_run [OF that] by (simp add: s_def s0_def ws_begin_def ws_send_def Let_def)
  then have "case wr_phase s of
       WsDone (Ok (Completed oc)) \<Rightarrow> \<exists>r. task_end es = Some (Ok r) \<and> oc = from_success (exr_success r) \<and>
         wr_sent s = MrExecuteBegin m # bodies m es @ [MrExecuteEnd (exr_success r) (exr_exit_detail r) m]
     | WsDone (Ok Abandoned) \<Rightarrow> WxSessionGone \<in> set es \<and> prefix (wr_sent s) (MrExecuteBegin m # bodies m es)
     | _ \<Rightarrow> wr_sent s = MrExecuteBegin m # bodies m es"
    using inv unfolding ws_inv_def
    by (cases "(m, es, wr_sent s, wr_open s, wr_phase s)" rule: ws_fits.cases) auto
  moreover have "wr_stdin s = concat (map passed es)"
    using ws_stdin_run [OF run] by (simp add: s_def s0_def ws_begin_def ws_send_def Let_def)
  moreover have "WxStdin i b' \<notin> set bs" if es: "es = as @ WxStdin None b # bs" for as bs b i b'
    using run unfolding es by (auto simp: enabled_run_append dest!: ws_stdin_closed)
  ultimately show ?thesis unfolding s0_def [symmetric] s_def [symmetric] by (intro conjI allI impI) blast+
qed

definition sample_ws_run :: "ws_event list" where
  "sample_ws_run = [WxStdout ''a'', WxStdin (Some ''x'') True, WxStderr ''b'', WxStdin None True,
     WxTask (Ok \<lparr>exr_success = True, exr_exit_detail = ''Exited with status 0''\<rparr>), WxDrainedStdout (Some ''c''),
     WxDrainedStdout None, WxDrainedStderr None]"

theorem ws_execute_streams_witness:
  "wr_stdin (foldl ws_step (ws_begin \<lparr>sequence_number = 3\<rparr> True (Ok ())) sample_ws_run) = [''x'']"
proof -
  have "enabled_run ws_enabled ws_step (ws_begin \<lparr>sequence_number = 3\<rparr> True (Ok ())) sample_ws_run"
    by (simp add: sample_ws_run_def ws_begin_def ws_send_def)
  from ws_execute_streams [OF this] show ?thesis by (simp add: sample_ws_run_def)
qed



end
