(* ===== verification/Ws_Session.thy ===== *)
theory Ws_Session
  imports Ws_Execute
begin

text \<open>
  \<open>ui/src/server_axum/websocket.rs\<close>: the session of one websocket, \<open>handle_core\<close> with
  \<open>handle_msg\<close> and the \<open>CoordinatorManager\<close>. The loop and the executions it spawned run
  interleaved; they share the channel of responses, which holds three, and a channel of stdin for
  each execution, which holds eight. A send of the loop that finds a channel full suspends the
  loop, so the pending send is part of the state. The semaphore of the manager has no state of its
  own here: an execution without its permit is a live one that does nothing yet. What an execution
  does between its sends is \<open>Ws_Execute\<close>; the row it has in the request log is \<open>Request_Db\<close>.
\<close>

subsection \<open>Errors\<close>

datatype coordinator_manager_error =
    CmOutstandingCoordinatorIdle
  | CmIdleError coordinator_error
  | CmOutstandingCoordinatorShutdown
  | CmShutdownError coordinator_error

datatype ws_error =
    EwDeserialization
  | EwTaskPanic string
  | EwSpawn coordinator_manager_error
  | EwIdle coordinator_manager_error
  | EwExecute ws_execute_error
  | EwStdin send_error

type_synonym tagged_error = "ws_error \<times> ws_meta option"
type_synonym response = "(tagged_error, message_response) result"

definition error_to_response :: "(ws_error \<Rightarrow> string list) \<Rightarrow> tagged_error \<Rightarrow> message_response" where
  "error_to_response cleaned tagged_error =
     (case tagged_error of (e, m) \<Rightarrow>
        MrError (join_messages (cleaned e)) (case m of None \<Rightarrow> create_server_meta | Some m \<Rightarrow> m))"

definition last_chance_error :: string where
  \<open>last_chance_error = ''{ "type": "WEBSOCKET_ERROR", "error": "Unable to serialize JSON" }''\<close>

definition response_to_message :: "(json \<Rightarrow> (string, string) result) \<Rightarrow> message_response \<Rightarrow> string" where
  "response_to_message to_string r =
     (case to_string (ser_message_response r) of Ok t \<Rightarrow> t | Err _ \<Rightarrow> last_chance_error)"

text \<open>\<open>connect_handshake\<close>: the first message is read as JSON, and sent back when the client accepts.\<close>

definition connect_handshake :: "json option \<Rightarrow> bool \<Rightarrow> bool" where
  "connect_handshake received sent = (Option.bind received de_handshake = Some True \<and> sent)"

subsection \<open>State\<close>

text \<open>
  An execution of the \<open>JoinSet\<close>: its future is alive, and with it its clone of the coordinator and
  the receiver of its stdin; or it is over with a result that is not joined yet; or it was joined.
\<close>

type_synonym task_result = "(join_error, (tagged_error, unit) result) result"

datatype ws_task = TaskLive | TaskOver task_result | TaskJoined

datatype pending_send = PendTx response | PendStdin nat string ws_meta

text \<open>
  Executions are numbered as they are spawned. \<open>ses_active\<close> has, for a sequence number, the
  execution whose token it guards and whether the sender of its stdin is there; \<open>ses_cancelled\<close> are
  the executions whose token was cancelled, \<open>ses_aborted\<close> those that were told to abort.
\<close>

record session =
  ses_rx :: "response list"
  ses_out :: "message_response list"
  ses_active :: "int \<rightharpoonup> nat \<times> bool"
  ses_cancelled :: "nat set"
  ses_tasks :: "ws_task list"
  ses_abort :: "nat option"
  ses_aborted :: "nat set"
  ses_stdin :: "string list list"
  ses_wait :: "pending_send option"
  ses_idle_armed :: bool
  ses_ended :: bool
  ses_incoming :: nat
  ses_outgoing :: "bool list"
  ses_errors :: "string \<Rightarrow> nat"
  ses_coordinator :: "coordinator \<times> host"

definition tx_capacity :: nat where "tx_capacity = 3"
definition stdin_capacity :: nat where "stdin_capacity = 8"

text \<open>The session after the handshake: the feature flags are queued, the coordinator is built.\<close>

definition session_start :: "f64 option \<Rightarrow> session" where
  "session_start threshold = \<lparr>ses_rx = [Ok (MrFeatureFlags threshold create_server_meta)], ses_out = [],
     ses_active = Map.empty, ses_cancelled = {}, ses_tasks = [], ses_abort = None, ses_aborted = {},
     ses_stdin = [], ses_wait = None, ses_idle_armed = False, ses_ended = False, ses_incoming = 0,
     ses_outgoing = [], ses_errors = (\<lambda>_. 0), ses_coordinator = (coordinator_build, no_containers)\<rparr>"

text \<open>Without a handshake in time there is no session.\<close>

definition accept_session :: "(json option \<times> bool) option \<Rightarrow> f64 option \<Rightarrow> session option" where
  "accept_session handshake threshold =
     (if (case handshake of None \<Rightarrow> False | Some (received, sent) \<Rightarrow> connect_handshake received sent)
      then Some (session_start threshold) else None)"

subsection \<open>\<open>CoordinatorManager\<close>\<close>

definition manager_is_empty :: "session \<Rightarrow> bool" where
  "manager_is_empty s = list_all (\<lambda>t. t = TaskJoined) (ses_tasks s)"

text \<open>\<open>spawn\<close>: the execution before it of the one kind is told to abort.\<close>

definition manager_spawn :: "session \<Rightarrow> (coordinator_manager_error, unit) result \<times> session" where
  "manager_spawn s =
     (Ok (), s\<lparr>ses_tasks := ses_tasks s @ [TaskLive], ses_stdin := ses_stdin s @ [[]],
        ses_abort := Some (length (ses_tasks s)),
        ses_aborted := (case ses_abort s of None \<Rightarrow> ses_aborted s | Some old \<Rightarrow> insert old (ses_aborted s))\<rparr>)"

text \<open>\<open>idle\<close>: the coordinator is only there alone when no execution holds its clone.\<close>

definition manager_idle ::
    "(channel \<times> shutdown_answers) list \<Rightarrow> nat list \<Rightarrow> session \<Rightarrow>
     (coordinator_manager_error, unit) result \<times> session" where
  "manager_idle polls finish s =
     (if TaskLive \<in> set (ses_tasks s) then (Err CmOutstandingCoordinatorIdle, s)
      else case idle polls finish (ses_coordinator s) of
        (r, ch) \<Rightarrow> (map_err CmIdleError r, s\<lparr>ses_coordinator := ch\<rparr>))"

text \<open>\<open>shutdown\<close>: the \<open>JoinSet\<close> aborts its tasks and waits for them.\<close>

definition tasks_shutdown :: "session \<Rightarrow> session" where
  "tasks_shutdown s = s\<lparr>ses_tasks := map (\<lambda>_. TaskJoined) (ses_tasks s)\<rparr>"

definition manager_shutdown ::
    "(channel \<times> shutdown_answers) list \<Rightarrow> nat list \<Rightarrow> session \<Rightarrow>
     (coordinator_manager_error, unit) result \<times> session" where
  "manager_shutdown polls finish s =
     (let s = tasks_shutdown s
      in if TaskLive \<in> set (ses_tasks s) then (Err CmOutstandingCoordinatorShutdown, s)
         else case shutdown polls finish (ses_coordinator s) of
           (r, ch) \<Rightarrow> (map_err CmShutdownError r, s\<lparr>ses_coordinator := ch\<rparr>))"

subsection \<open>\<open>handle_msg\<close>\<close>

text \<open>Dropping the guard of an entry cancels its token.\<close>

definition drop_guard_of :: "(nat \<times> bool) option \<Rightarrow> session \<Rightarrow> session" where
  "drop_guard_of entry s =
     (case entry of None \<Rightarrow> s | Some (i, _) \<Rightarrow> s\<lparr>ses_cancelled := insert i (ses_cancelled s)\<rparr>)"

definition loop_send :: "response \<Rightarrow> session \<Rightarrow> session" where
  "loop_send r s = s\<lparr>ses_wait := Some (PendTx r)\<rparr>"

fun handle_msg :: "ws_message_request option \<Rightarrow> session \<Rightarrow> session" where
  "handle_msg (Some (WsExecuteRequest payload m)) s =
     (let old = ses_active s (sequence_number m);
          s = s\<lparr>ses_active := (ses_active s)(sequence_number m \<mapsto> (length (ses_tasks s), True))\<rparr>;
          s = drop_guard_of old s
      in case manager_spawn s of
           (Ok _, s) \<Rightarrow> s
         | (Err e, s) \<Rightarrow> loop_send (Err (EwSpawn e, Some m)) s)"
| "handle_msg (Some (WsExecuteStdin payload m)) s =
     (case ses_active s (sequence_number m) of
        Some (i, True) \<Rightarrow> s\<lparr>ses_wait := Some (PendStdin i payload m)\<rparr>
      | _ \<Rightarrow> s)"
| "handle_msg (Some (WsExecuteStdinClose m)) s =
     (case ses_active s (sequence_number m) of
        None \<Rightarrow> s
      | Some (i, _) \<Rightarrow> s\<lparr>ses_active := (ses_active s)(sequence_number m \<mapsto> (i, False))\<rparr>)"
| "handle_msg (Some (WsExecuteKill m)) s =
     drop_guard_of (ses_active s (sequence_number m))
       (s\<lparr>ses_active := (ses_active s)(sequence_number m := None)\<rparr>)"
| "handle_msg None s = loop_send (Err (EwDeserialization, None)) s"

subsection \<open>\<open>handle_core\<close>\<close>

datatype incoming = InText "json option" | InOther | InError string

datatype idle_answer =
    IdleEnds "(channel \<times> shutdown_answers) list" "nat list"
  | IdleTimesOut "(channel \<times> shutdown_answers) list"

text \<open>
  The events of the loop; the completion of a pending send; and what the executions do: send a
  response, take stdin, start a container, end, be dropped after they were told to abort, panic.
\<close>

datatype session_event =
    SeRequest "incoming option"
  | SeResponse bool
  | SeTask nat
  | SeGarbageCollection
  | SeIdleTimeout idle_answer
  | SeIdleRequest idle_answer
  | SeSessionTimeout
  | SeResume
  | TkSend nat message_response
  | TkStdin nat
  | TkSelect nat channel start_answers
  | TkDone nat "(tagged_error, unit) result"
  | TkDropped nat
  | TkPanic nat string

fun handle_request :: "incoming option \<Rightarrow> session \<Rightarrow> session" where
  "handle_request None s = s\<lparr>ses_ended := True\<rparr>"
| "handle_request (Some (InText txt)) s = handle_msg (Option.bind txt de_ws_message_request) s"
| "handle_request (Some InOther) s = s"
| "handle_request (Some (InError e)) s = s\<lparr>ses_errors := (ses_errors s)(e := ses_errors s e + 1)\<rparr>"

definition handle_response :: "(ws_error \<Rightarrow> string list) \<Rightarrow> bool \<Rightarrow> session \<Rightarrow> session" where
  "handle_response cleaned sent s =
     (case ses_rx s of
        [] \<Rightarrow> s
      | r # rest \<Rightarrow>
          (let s = s\<lparr>ses_rx := rest\<rparr>;
               resp = (case r of Ok m \<Rightarrow> m | Err e \<Rightarrow> error_to_response cleaned e)
           in if sent then s\<lparr>ses_out := ses_out s @ [resp], ses_outgoing := ses_outgoing s @ [is_ok r]\<rparr>
              else s\<lparr>ses_ended := True\<rparr>))"

definition handle_task :: "nat \<Rightarrow> session \<Rightarrow> session" where
  "handle_task i s =
     (case ses_tasks s ! i of
        TaskOver r \<Rightarrow>
          (let s = s\<lparr>ses_tasks := (ses_tasks s)[i := TaskJoined]\<rparr>;
               s = (if manager_is_empty s then s\<lparr>ses_idle_armed := True\<rparr> else s)
           in case r of
                Ok (Ok _) \<Rightarrow> s
              | Ok (Err e) \<Rightarrow> loop_send (Err e) s
              | Err JoinCancelled \<Rightarrow> s
              | Err (JoinPanic text) \<Rightarrow> loop_send (Err (EwTaskPanic text, None)) s)
      | _ \<Rightarrow> s)"

text \<open>The garbage collection keeps the entries whose sender of stdin is there and not closed; the sender is
  closed when the execution, which has the receiver, is over.\<close>

definition gc_keeps :: "session \<Rightarrow> nat \<times> bool \<Rightarrow> bool" where
  "gc_keeps s entry = (case entry of (i, stdin) \<Rightarrow> stdin \<and> ses_tasks s ! i = TaskLive)"

definition garbage_collection :: "session \<Rightarrow> session" where
  "garbage_collection s =
     s\<lparr>ses_active := retain (gc_keeps s) (ses_active s),
       ses_cancelled := ses_cancelled s \<union> {i. \<exists>n b. ses_active s n = Some (i, b) \<and> \<not> gc_keeps s (i, b)}\<rparr>"

definition handle_idle :: "idle_answer \<Rightarrow> session \<Rightarrow> session" where
  "handle_idle a s =
     (case a of
        IdleEnds polls finish \<Rightarrow>
          (case manager_idle polls finish s of
             (Ok _, s) \<Rightarrow> s
           | (Err e, s) \<Rightarrow> loop_send (Err (EwIdle e, None)) s)
      | IdleTimesOut polls \<Rightarrow>
          s\<lparr>ses_coordinator := snd (idle polls [] (ses_coordinator s)), ses_ended := True\<rparr>)"

text \<open>A pending send goes through: the response is queued; the stdin is queued, or its execution is gone
  and that is reported.\<close>

definition handle_resume :: "session \<Rightarrow> session" where
  "handle_resume s =
     (case ses_wait s of
        None \<Rightarrow> s
      | Some (PendTx r) \<Rightarrow> s\<lparr>ses_rx := ses_rx s @ [r], ses_wait := None\<rparr>
      | Some (PendStdin i payload m) \<Rightarrow>
          (if ses_tasks s ! i = TaskLive
           then s\<lparr>ses_stdin := (ses_stdin s)[i := ses_stdin s ! i @ [payload]], ses_wait := None\<rparr>
           else loop_send (Err (EwStdin (), Some m)) s))"

fun session_step :: "string \<Rightarrow> (ws_error \<Rightarrow> string list) \<Rightarrow> session \<Rightarrow> session_event \<Rightarrow> session" where
  "session_step arch cleaned s (SeRequest request) = handle_request request (s\<lparr>ses_incoming := ses_incoming s + 1\<rparr>)"
| "session_step arch cleaned s (SeResponse sent) = handle_response cleaned sent s"
| "session_step arch cleaned s (SeTask i) = handle_task i s"
| "session_step arch cleaned s SeGarbageCollection = garbage_collection s"
| "session_step arch cleaned s (SeIdleTimeout a) = handle_idle a (s\<lparr>ses_idle_armed := False\<rparr>)"
| "session_step arch cleaned s (SeIdleRequest a) = handle_idle a s"
| "session_step arch cleaned s SeSessionTimeout = s\<lparr>ses_ended := True\<rparr>"
| "session_step arch cleaned s SeResume = handle_resume s"
| "session_step arch cleaned s (TkSend i m) = s\<lparr>ses_rx := ses_rx s @ [Ok m]\<rparr>"
| "session_step arch cleaned s (TkStdin i) = s\<lparr>ses_stdin := (ses_stdin s)[i := tl (ses_stdin s ! i)]\<rparr>"
| "session_step arch cleaned s (TkSelect i channel start) =
     s\<lparr>ses_coordinator := snd (select_channel arch channel start (ses_coordinator s))\<rparr>"
| "session_step arch cleaned s (TkDone i r) = s\<lparr>ses_tasks := (ses_tasks s)[i := TaskOver (Ok r)]\<rparr>"
| "session_step arch cleaned s (TkDropped i) = s\<lparr>ses_tasks := (ses_tasks s)[i := TaskOver (Err JoinCancelled)]\<rparr>"
| "session_step arch cleaned s (TkPanic i text) = s\<lparr>ses_tasks := (ses_tasks s)[i := TaskOver (Err (JoinPanic text))]\<rparr>"

definition loop_ready :: "session \<Rightarrow> bool" where
  "loop_ready s \<longleftrightarrow> \<not> ses_ended s \<and> ses_wait s = None"

definition live_task :: "session \<Rightarrow> nat \<Rightarrow> bool" where
  "live_task s i \<longleftrightarrow> i < length (ses_tasks s) \<and> ses_tasks s ! i = TaskLive"

definition over_task :: "session \<Rightarrow> nat \<Rightarrow> bool" where
  "over_task s i \<longleftrightarrow> i < length (ses_tasks s) \<and> (case ses_tasks s ! i of TaskOver _ \<Rightarrow> True | _ \<Rightarrow> False)"

definition send_ready :: "session \<Rightarrow> bool" where
  "send_ready s = (case ses_wait s of
     None \<Rightarrow> False
   | Some (PendTx r) \<Rightarrow> length (ses_rx s) < tx_capacity
   | Some (PendStdin i payload m) \<Rightarrow> ses_tasks s ! i \<noteq> TaskLive \<or> length (ses_stdin s ! i) < stdin_capacity)"

text \<open>The limits hand out names that are not in use. An execution ends as \<open>handle_execute\<close> does, its error in
  context and with its meta.\<close>

fun execution_result :: "(tagged_error, unit) result \<Rightarrow> bool" where
  "execution_result (Ok _) = True"
| "execution_result (Err (EwExecute _, Some _)) = True"
| "execution_result _ = False"

fun session_enabled :: "session \<Rightarrow> session_event \<Rightarrow> bool" where
  "session_enabled s (SeRequest _) = loop_ready s"
| "session_enabled s (SeResponse _) = (loop_ready s \<and> ses_rx s \<noteq> [])"
| "session_enabled s (SeTask i) = (loop_ready s \<and> over_task s i)"
| "session_enabled s SeGarbageCollection = loop_ready s"
| "session_enabled s (SeIdleTimeout _) = (loop_ready s \<and> ses_idle_armed s \<and> manager_is_empty s)"
| "session_enabled s (SeIdleRequest _) = (loop_ready s \<and> manager_is_empty s)"
| "session_enabled s SeSessionTimeout = loop_ready s"
| "session_enabled s SeResume = (\<not> ses_ended s \<and> send_ready s)"
| "session_enabled s (TkSend i _) = (\<not> ses_ended s \<and> live_task s i \<and> length (ses_rx s) < tx_capacity)"
| "session_enabled s (TkStdin i) = (live_task s i \<and> ses_stdin s ! i \<noteq> [])"
| "session_enabled s (TkSelect i _ start) = (live_task s i \<and> fresh_permit start (snd (ses_coordinator s)))"
| "session_enabled s (TkDone i r) = (live_task s i \<and> execution_result r)"
| "session_enabled s (TkDropped i) = (live_task s i \<and> i \<in> ses_aborted s)"
| "session_enabled s (TkPanic i _) = live_task s i"

text \<open>How the session is left: the shutdown ends, or times out, or the overall timeout of \<open>handle\<close> drops
  everything where it is.\<close>

datatype session_end =
    ShutdownEnds "(channel \<times> shutdown_answers) list" "nat list"
  | ShutdownTimesOut "(channel \<times> shutdown_answers) list"
  | OverallTimeout

definition leave_session :: "session_end \<Rightarrow> session \<Rightarrow> session" where
  "leave_session e s =
     (case e of
        ShutdownEnds polls finish \<Rightarrow> snd (manager_shutdown polls finish s)
      | ShutdownTimesOut polls \<Rightarrow>
          (let s = tasks_shutdown s
           in s\<lparr>ses_coordinator := coordinator_drop (snd (idle polls [] (ses_coordinator s)))\<rparr>)
      | OverallTimeout \<Rightarrow>
          (let s = tasks_shutdown s in s\<lparr>ses_coordinator := coordinator_drop (ses_coordinator s)\<rparr>))"

subsection \<open>Invariant\<close>

text \<open>A response that does not report that the coordinator is still referenced or could not be used.\<close>

fun calm :: "response \<Rightarrow> bool" where
  "calm (Err (EwIdle CmOutstandingCoordinatorIdle, _)) = False"
| "calm (Err (EwSpawn _, _)) = False"
| "calm _ = True"

fun calm_task :: "ws_task \<Rightarrow> bool" where
  "calm_task (TaskOver (Ok r)) = execution_result r" | "calm_task _ = True"

fun calm_wait :: "pending_send option \<Rightarrow> bool" where
  "calm_wait (Some (PendTx r)) = calm r" | "calm_wait _ = True"

fun wait_ok :: "nat \<Rightarrow> pending_send option \<Rightarrow> bool" where
  "wait_ok n (Some (PendStdin i _ _)) = (i < n)" | "wait_ok n _ = True"

text \<open>All executions but the last were told to abort.\<close>

definition one_kind :: "session \<Rightarrow> bool" where
  "one_kind s \<longleftrightarrow> ses_aborted s = {..< length (ses_tasks s) - 1} \<and>
     ses_abort s = (if ses_tasks s = [] then None else Some (length (ses_tasks s) - 1))"

definition bounded :: "session \<Rightarrow> bool" where
  "bounded s \<longleftrightarrow> length (ses_rx s) \<le> tx_capacity \<and> length (ses_stdin s) = length (ses_tasks s) \<and>
     (\<forall>q \<in> set (ses_stdin s). length q \<le> stdin_capacity) \<and> wait_ok (length (ses_tasks s)) (ses_wait s)"

definition calm_session :: "session \<Rightarrow> bool" where
  "calm_session s \<longleftrightarrow> list_all calm (ses_rx s) \<and> list_all calm_task (ses_tasks s) \<and> calm_wait (ses_wait s)"

definition tokens_ok :: "(int \<rightharpoonup> nat \<times> bool) \<Rightarrow> nat set \<Rightarrow> nat \<Rightarrow> bool" where
  "tokens_ok active cancelled n \<longleftrightarrow>
     (\<forall>k i b. active k = Some (i, b) \<longrightarrow> i < n \<and> i \<notin> cancelled) \<and>
     (\<forall>k l i b c. active k = Some (i, b) \<longrightarrow> active l = Some (i, c) \<longrightarrow> k = l) \<and>
     (\<forall>i \<in> cancelled. i < n)"

definition guarded_by :: "(nat \<times> bool) option \<Rightarrow> nat set" where
  "guarded_by entry = (case entry of None \<Rightarrow> {} | Some (i, _) \<Rightarrow> {i})"

lemma tokens_insert: "tokens_ok active cancelled n \<Longrightarrow>
    tokens_ok (active(k \<mapsto> (n, True))) (cancelled \<union> guarded_by (active k)) (Suc n)"
  unfolding tokens_ok_def guarded_by_def
  by (intro conjI allI impI ballI) (auto simp: less_Suc_eq split: option.splits if_splits)

lemma tokens_remove: "tokens_ok active cancelled n \<Longrightarrow>
    tokens_ok (active(k := None)) (cancelled \<union> guarded_by (active k)) n"
  unfolding tokens_ok_def guarded_by_def
  by (intro conjI allI impI ballI) (auto split: option.splits if_splits)

lemma tokens_close: "tokens_ok active cancelled n \<Longrightarrow> active k = Some (i, b) \<Longrightarrow>
    tokens_ok (active(k \<mapsto> (i, False))) cancelled n"
  unfolding tokens_ok_def by (intro conjI allI impI ballI) (auto split: if_splits)

lemma tokens_retain: "tokens_ok active cancelled n \<Longrightarrow>
    tokens_ok (retain p active) (cancelled \<union> {i. \<exists>n b. active n = Some (i, b) \<and> \<not> p (i, b)}) n"
  unfolding tokens_ok_def retain_def
  by (intro conjI allI impI ballI; auto split: option.splits if_splits; metis option.inject prod.inject)

definition session_inv :: "session \<Rightarrow> bool" where
  "session_inv s \<longleftrightarrow> one_kind s \<and> bounded s \<and> calm_session s \<and>
     tokens_ok (ses_active s) (ses_cancelled s) (length (ses_tasks s)) \<and> accounted (ses_coordinator s)"

lemma live_list: "TaskLive \<in> set (ses_tasks s) \<longleftrightarrow> (\<exists>i. live_task s i)"
  by (auto simp: live_task_def in_set_conv_nth)

lemma empty_not_live: "manager_is_empty s \<Longrightarrow> TaskLive \<notin> set (ses_tasks s)"
  by (auto simp: manager_is_empty_def list_all_iff)

lemma calm_execution: "execution_result (Err e) \<Longrightarrow> calm (Err e)"
  by (cases e) (auto elim!: execution_result.elims)

text \<open>The parts of the invariant on the fields they depend on.\<close>

definition base_inv :: "response list \<Rightarrow> ws_task list \<Rightarrow> nat option \<Rightarrow> nat set \<Rightarrow> string list list \<Rightarrow> pending_send option \<Rightarrow> bool" where
  "base_inv rx tasks ab aborted stdin wait \<longleftrightarrow>
     aborted = {..< length tasks - 1} \<and> ab = (if tasks = [] then None else Some (length tasks - 1)) \<and>
     length rx \<le> tx_capacity \<and> length stdin = length tasks \<and> (\<forall>q \<in> set stdin. length q \<le> stdin_capacity) \<and>
     wait_ok (length tasks) wait \<and> list_all calm rx \<and> list_all calm_task tasks \<and> calm_wait wait"

lemma session_inv_iff: "session_inv s \<longleftrightarrow>
    base_inv (ses_rx s) (ses_tasks s) (ses_abort s) (ses_aborted s) (ses_stdin s) (ses_wait s) \<and>
    tokens_ok (ses_active s) (ses_cancelled s) (length (ses_tasks s)) \<and> accounted (ses_coordinator s)"
  by (auto simp: session_inv_def base_inv_def one_kind_def bounded_def calm_session_def)

lemma base_spawn: "base_inv rx tasks ab aborted stdin None \<Longrightarrow>
    base_inv rx (tasks @ [TaskLive]) (Some (length tasks))
      (case ab of None \<Rightarrow> aborted | Some old \<Rightarrow> insert old aborted) (stdin @ [[]]) None"
  by (cases "length tasks") (auto simp: base_inv_def stdin_capacity_def)

lemma base_wait: "base_inv rx tasks ab aborted stdin w \<Longrightarrow> wait_ok (length tasks) w' \<Longrightarrow> calm_wait w' \<Longrightarrow>
    base_inv rx tasks ab aborted stdin w'"
  by (simp add: base_inv_def)

lemma base_task: "base_inv rx tasks ab aborted stdin w \<Longrightarrow> calm_task t \<Longrightarrow>
    base_inv rx (tasks[i := t]) ab aborted stdin w"
  by (cases "i < length tasks") (auto simp: base_inv_def list_all_length nth_list_update)

lemma base_rx: "base_inv rx tasks ab aborted stdin w \<Longrightarrow> length rx < tx_capacity \<Longrightarrow> calm r \<Longrightarrow>
    base_inv (rx @ [r]) tasks ab aborted stdin w"
  "base_inv (r # rx) tasks ab aborted stdin w \<Longrightarrow> base_inv rx tasks ab aborted stdin w"
  by (simp_all add: base_inv_def)

lemma base_stdin: "base_inv rx tasks ab aborted stdin w \<Longrightarrow> length q \<le> stdin_capacity \<Longrightarrow>
    base_inv rx tasks ab aborted (stdin[i := q]) w"
  by (auto simp: base_inv_def dest!: set_update_subset_insert [THEN subsetD])

lemma drop_guard_fields: "drop_guard_of entry s = s\<lparr>ses_cancelled := ses_cancelled s \<union> guarded_by entry\<rparr>"
  by (auto simp: drop_guard_of_def guarded_by_def split: option.splits)

lemma session_wait_inv: "session_inv s \<Longrightarrow> wait_ok (length (ses_tasks s)) w \<Longrightarrow> calm_wait w \<Longrightarrow>
    session_inv (s\<lparr>ses_wait := w\<rparr>)"
  by (auto simp: session_inv_iff intro: base_wait)

lemma loop_send_inv: "session_inv s \<Longrightarrow> calm r \<Longrightarrow> session_inv (loop_send r s)"
  by (simp add: loop_send_def session_wait_inv)

lemma handle_msg_inv:
  assumes inv: "session_inv s" and none: "ses_wait s = None"
  shows "session_inv (handle_msg m s)"
proof -
  note base = inv [unfolded session_inv_iff, THEN conjunct1] and rest = inv [unfolded session_inv_iff, THEN conjunct2]
  show ?thesis
  proof (cases m)
    case None
    then show ?thesis using loop_send_inv [OF inv] by simp
  next
    case (Some r)
    show ?thesis
    proof (cases r)
      case (WsExecuteRequest payload m')
      then show ?thesis
        using Some base_spawn [OF base [unfolded none]] tokens_insert rest none
        by (simp add: session_inv_iff drop_guard_fields manager_spawn_def Let_def cong: option.case_cong)
    next
      case (WsExecuteStdin payload m')
      have "session_inv (s\<lparr>ses_wait := Some (PendStdin i payload m')\<rparr>)"
        if "ses_active s (sequence_number m') = Some (i, b)" for i b
        by (rule session_wait_inv [OF inv]) (use rest that in \<open>auto simp: tokens_ok_def\<close>)
      then show ?thesis using Some WsExecuteStdin inv by (auto split: option.splits bool.splits)
    next
      case (WsExecuteStdinClose m')
      then show ?thesis using Some inv rest tokens_close by (auto simp: session_inv_iff split: option.splits)
    next
      case (WsExecuteKill m')
      then show ?thesis using Some inv rest tokens_remove by (simp add: session_inv_iff drop_guard_fields)
    qed
  qed
qed

lemma handle_request_inv:
  "session_inv s \<Longrightarrow> ses_wait s = None \<Longrightarrow> session_inv (handle_request r s)"
  by (cases "(r, s)" rule: handle_request.cases) (simp_all add: handle_msg_inv, simp_all add: session_inv_iff)

lemma handle_response_inv: "session_inv s \<Longrightarrow> session_inv (handle_response cleaned sent s)"
  by (auto simp: handle_response_def session_inv_iff Let_def dest: base_rx(2) split: list.split)

lemma handle_task_inv:
  assumes inv: "session_inv s" and over: "over_task s i"
  shows "session_inv (handle_task i s)"
proof -
  from over obtain r where r: "ses_tasks s ! i = TaskOver r" "i < length (ses_tasks s)"
    by (auto simp: over_task_def split: ws_task.splits)
  define s1 where "s1 = s\<lparr>ses_tasks := (ses_tasks s)[i := TaskJoined]\<rparr>"
  define s2 where "s2 = (if manager_is_empty s1 then s1\<lparr>ses_idle_armed := True\<rparr> else s1)"
  have s2: "session_inv s2"
    using inv base_task [of _ "ses_tasks s" _ _ _ _ TaskJoined] by (simp add: session_inv_iff s1_def s2_def)
  have calm: "calm_task (TaskOver r)"
    using inv r by (auto simp: session_inv_iff base_inv_def list_all_length)
  have send: "session_inv (loop_send x s2)" if "calm x" for x
    using loop_send_inv [OF s2 that] .
  have "handle_task i s = (case r of Ok (Ok _) \<Rightarrow> s2 | Ok (Err e) \<Rightarrow> loop_send (Err e) s2
      | Err JoinCancelled \<Rightarrow> s2 | Err (JoinPanic text) \<Rightarrow> loop_send (Err (EwTaskPanic text, None)) s2)"
    unfolding handle_task_def r ws_task.case Let_def s1_def [symmetric] s2_def [symmetric] ..
  then show ?thesis using s2 send calm calm_execution
    by (cases r) (auto split: sum.splits join_error.splits)
qed

lemma garbage_collection_inv: "session_inv s \<Longrightarrow> session_inv (garbage_collection s)"
  by (simp add: session_inv_iff garbage_collection_def tokens_retain)

lemma handle_idle_inv:
  assumes inv: "session_inv s" and empty: "manager_is_empty s"
  shows "session_inv (handle_idle a s)"
proof -
  obtain c h where ch: "ses_coordinator s = (c, h)" by (cases "ses_coordinator s")
  have acc: "accounted (snd (idle polls finish (ses_coordinator s)))" for polls finish
    using inv idle_accounted ch by (simp add: session_inv_iff)
  show ?thesis
  proof (cases a)
    case (IdleEnds polls finish)
    obtain r ch1 where idle: "idle polls finish (ses_coordinator s) = (r, ch1)" by (metis surj_pair)
    then have "session_inv (s\<lparr>ses_coordinator := ch1\<rparr>)" using inv acc [of polls finish] by (simp add: session_inv_iff)
    moreover from this have "session_inv (loop_send (Err (EwIdle (CmIdleError e), None)) (s\<lparr>ses_coordinator := ch1\<rparr>))" for e
      by (rule loop_send_inv) simp
    ultimately show ?thesis
      using empty_not_live [OF empty] by (cases r) (simp_all add: handle_idle_def IdleEnds manager_idle_def idle)
  qed (use inv acc in \<open>simp add: handle_idle_def session_inv_iff\<close>)
qed

lemma handle_resume_inv:
  assumes inv: "session_inv s" and ready: "send_ready s"
  shows "session_inv (handle_resume s)"
proof -
  note base = inv [unfolded session_inv_iff, THEN conjunct1] and rest = inv [unfolded session_inv_iff, THEN conjunct2]
  show ?thesis
  proof (cases "ses_wait s")
    case (Some w)
    then show ?thesis
    proof (cases w)
      case (PendTx r)
      have "calm r" using base Some PendTx by (simp add: base_inv_def)
      moreover have "length (ses_rx s) < tx_capacity" using ready Some PendTx by (simp add: send_ready_def)
      ultimately have "base_inv (ses_rx s @ [r]) (ses_tasks s) (ses_abort s) (ses_aborted s) (ses_stdin s) None"
        using base_wait [OF base_rx(1) [OF base]] by simp
      then show ?thesis using rest by (simp add: handle_resume_def Some PendTx session_inv_iff)
    next
      case (PendStdin i payload m)
      have "base_inv (ses_rx s) (ses_tasks s) (ses_abort s) (ses_aborted s) ((ses_stdin s)[i := ses_stdin s ! i @ [payload]]) None"
        if "length (ses_stdin s ! i) < stdin_capacity"
        using base_wait [OF base_stdin [OF base]] that by simp
      then show ?thesis using inv rest ready loop_send_inv
        by (auto simp: handle_resume_def Some PendStdin session_inv_iff send_ready_def)
    qed
  qed (use inv in \<open>simp add: handle_resume_def\<close>)
qed

lemma session_step_inv:
  assumes inv: "session_inv s" and en: "session_enabled s e"
  shows "session_inv (session_step arch cleaned s e)"
proof (cases e)
  case (SeRequest r)
  have "session_inv (s\<lparr>ses_incoming := ses_incoming s + 1\<rparr>)" using inv by (simp add: session_inv_iff)
  then show ?thesis using en handle_request_inv by (simp add: SeRequest loop_ready_def)
next
  case (SeIdleTimeout a)
  have "session_inv (s\<lparr>ses_idle_armed := False\<rparr>)" using inv by (simp add: session_inv_iff)
  moreover have "manager_is_empty (s\<lparr>ses_idle_armed := False\<rparr>)" using en by (simp add: SeIdleTimeout manager_is_empty_def)
  ultimately show ?thesis using handle_idle_inv by (simp add: SeIdleTimeout)
next
  case (TkStdin i)
  have "length (ses_stdin s ! i) \<le> stdin_capacity"
    using inv en nth_mem [of i "ses_stdin s"] by (simp add: TkStdin session_inv_iff base_inv_def live_task_def)
  then have "length (tl (ses_stdin s ! i)) \<le> stdin_capacity" by simp
  then show ?thesis using inv base_stdin by (simp add: TkStdin session_inv_iff)
next
  case (TkSelect i channel start)
  then show ?thesis using inv en select_channel_accounted [of "fst (ses_coordinator s)" "snd (ses_coordinator s)"]
    by (simp add: session_inv_iff)
next
  case (TkSend i m)
  then show ?thesis using inv en base_rx(1) [of "ses_rx s"] by (simp add: session_inv_iff)
next
  case (TkDone i r)
  then show ?thesis using inv en base_task [of _ "ses_tasks s" _ _ _ _ "TaskOver (Ok r)"] by (simp add: session_inv_iff)
next
  case (TkDropped i)
  show ?thesis using inv base_task [of _ "ses_tasks s" _ _ _ _ "TaskOver (Err JoinCancelled)"]
    by (simp add: TkDropped session_inv_iff)
next
  case (TkPanic i msg)
  show ?thesis using inv base_task [of _ "ses_tasks s" _ _ _ _ "TaskOver (Err (JoinPanic msg))"]
    by (simp add: TkPanic session_inv_iff)
qed (use inv en handle_resume_inv garbage_collection_inv handle_response_inv handle_task_inv handle_idle_inv in
    \<open>simp_all add: session_inv_iff\<close>)

interpretation se: event_loop session_enabled "session_step arch cleaned" session_inv for arch cleaned
  by unfold_locales (rule session_step_inv)

lemma session_start_inv: "session_inv (session_start threshold)"
  using accounted_start by (simp add: session_inv_iff session_start_def base_inv_def tokens_ok_def tx_capacity_def
    no_containers_def)


lemma session_run_inv: "enabled_run session_enabled (session_step arch cleaned) (session_start threshold) es \<Longrightarrow>
    session_inv (foldl (session_step arch cleaned) (session_start threshold) es)"
  by (rule se.run_inv [OF session_start_inv])

lemma drop_all_killed: "accounted ch \<Longrightarrow> all_killed (snd (coordinator_drop ch))"
  using coordinator_drop_spec accounted_empty unfolding all_killed_def
  by (cases ch; cases "coordinator_drop ch") (metis fst_conv snd_conv)

lemma leave_session_killed:
  assumes "session_inv s"
  shows "all_killed (snd (ses_coordinator (leave_session e s)))"
proof -
  have acc: "accounted (ses_coordinator s)" using assms by (simp add: session_inv_iff)
  moreover from this have "accounted (snd (idle polls finish (ses_coordinator s)))" for polls finish
    by (cases "ses_coordinator s") (simp add: idle_accounted)
  moreover have "all_killed h" if "shutdown polls finish (ses_coordinator s) = (r, c, h)" for polls finish r c h
    using shutdown_all_killed [OF calculation(1), of polls finish] that by simp
  ultimately show ?thesis
    by (cases e; simp add: leave_session_def manager_shutdown_def tasks_shutdown_def Let_def drop_all_killed
        image_iff split: prod.split; blast)
qed

lemma live_last: "session_inv s \<Longrightarrow> live_task s i \<Longrightarrow> i \<notin> ses_aborted s \<Longrightarrow> Suc i = length (ses_tasks s)"
  unfolding session_inv_def one_kind_def live_task_def by clarsimp linarith

subsection \<open>A full channel\<close>

text \<open>The loop waits to send a response, and the channel that only the loop itself empties is full.\<close>

definition stuck_as :: "session \<Rightarrow> session \<Rightarrow> bool" where
  "stuck_as s t \<longleftrightarrow> length (ses_rx t) = tx_capacity \<and> (\<exists>r. ses_wait t = Some (PendTx r)) \<and>
     ses_rx t = ses_rx s \<and> ses_wait t = ses_wait s \<and> ses_out t = ses_out s \<and> ses_ended t = ses_ended s \<and>
     ses_active t = ses_active s \<and> ses_incoming t = ses_incoming s"

fun of_execution :: "session_event \<Rightarrow> bool" where
  "of_execution (TkStdin _) = True"
| "of_execution (TkSelect _ _ _) = True"
| "of_execution (TkDone _ _) = True"
| "of_execution (TkDropped _) = True"
| "of_execution (TkPanic _ _) = True"
| "of_execution _ = False"

lemma stuck_event: "stuck_as s t \<Longrightarrow> session_enabled t e \<Longrightarrow> of_execution e"
  by (cases e) (auto simp: stuck_as_def loop_ready_def send_ready_def)

lemma stuck_step: "stuck_as s t \<Longrightarrow> session_enabled t e \<Longrightarrow> stuck_as s (session_step arch cleaned t e)"
  using stuck_event [of s t e] by (cases e) (auto simp: stuck_as_def)

interpretation fu: event_loop session_enabled "session_step arch cleaned" "stuck_as s" for arch cleaned s
  by unfold_locales (rule stuck_step)

subsection \<open>Properties\<close>


definition sample_execute_json :: json where
  "sample_execute_json = JObject [(''type'', JString ''output/execute/wsExecuteRequest''),
     (''payload'', JArray [JString ''stable'', JString ''debug'', JString ''2021'', JString ''bin'', JBool False,
        JString ''fn main() {}'', JBool False]),
     (''meta'', JObject [(''sequenceNumber'', JInt 1)])]"

lemma sample_execute_json_de: "de_ws_message_request sample_execute_json = Some (WsExecuteRequest
    \<lparr>wq_channel = ''stable'', wq_mode = ''debug'', wq_edition = ''2021'', wq_crate_type = ''bin'', wq_tests = False,
      wq_code = ApiSingle ''fn main() {}'', wq_backtrace = False\<rparr> \<lparr>sequence_number = 1\<rparr>)"
  by code_simp

definition sample_close :: json where
  "sample_close = JObject [(''type'', JString ''output/execute/wsExecuteStdinClose''),
     (''meta'', JObject [(''sequenceNumber'', JInt 1)])]"

lemma sample_close_de: "de_ws_message_request sample_close = Some (WsExecuteStdinClose \<lparr>sequence_number = 1\<rparr>)"
  by code_simp

lemmas session_eval = session_start_def loop_ready_def live_task_def sample_execute_json_de sample_close_de Let_def
  drop_guard_of_def manager_spawn_def loop_send_def send_ready_def tx_capacity_def


text \<open>C34: a session can block itself. Once the channel of responses holds three, a message the session cannot
  read stops it: the loop waits to queue the error in the channel only it empties. From then on
  nothing is sent or received, no response is queued, and every event that can still happen is one of
  the executions; the session is not left before the overall timeout.\<close>

theorem session_blocks_itself:
  assumes "enabled_run session_enabled (session_step arch cleaned) (session_start threshold)
      (es @ SeRequest (Some (InText unread)) # fs)"
    and "Option.bind unread de_ws_message_request = None"
    and "length (ses_rx (foldl (session_step arch cleaned) (session_start threshold) es)) = 3"
  defines "s \<equiv> foldl (session_step arch cleaned) (session_start threshold) (es @ [SeRequest (Some (InText unread))])"
    and "t \<equiv> foldl (session_step arch cleaned) (session_start threshold) (es @ SeRequest (Some (InText unread)) # fs)"
  shows "list_all of_execution fs \<and> ses_out t = ses_out s \<and> ses_rx t = ses_rx s \<and> ses_incoming t = ses_incoming s \<and>
    \<not> ses_ended t \<and> ses_wait t = Some (PendTx (Err (EwDeserialization, None))) \<and>
    (\<forall>e. session_enabled t e \<longrightarrow> of_execution e)"
proof -
  have run: "enabled_run session_enabled (session_step arch cleaned) s fs" and t: "t = foldl (session_step arch cleaned) s fs"
    using assms(1) by (simp_all add: enabled_run_append s_def t_def)
  have s: "stuck_as s s" "\<not> ses_ended s" "ses_wait s = Some (PendTx (Err (EwDeserialization, None)))"
    using assms(1-3) by (simp_all add: s_def stuck_as_def loop_send_def tx_capacity_def enabled_run_append loop_ready_def)
  have "of_execution e" if "fs = as @ e # bs" for as e bs
    using fu.run_inv_at [OF s(1) run [unfolded that]] stuck_event by blast
  then have "list_all of_execution fs" by (metis in_set_conv_decomp list_all_iff)
  moreover have "stuck_as s t" unfolding t by (rule fu.run_inv [OF s(1) run])
  moreover from this have "\<forall>e. session_enabled t e \<longrightarrow> of_execution e" using stuck_event by blast
  ultimately show ?thesis using s(2,3) by (simp add: stuck_as_def)
qed

text \<open>An execution that prints twice while the flags are not sent yet is enough.\<close>

definition sample_fill :: "session_event list" where
  "sample_fill = [SeRequest (Some (InText (Some sample_execute_json))), TkSend 0 (MrExecuteBegin \<lparr>sequence_number = 1\<rparr>),
     TkSend 0 (MrExecuteStdout ''a'' \<lparr>sequence_number = 1\<rparr>)]"

theorem session_blocks_itself_witness:
  "\<not> session_enabled (foldl (session_step ''linux/amd64'' (\<lambda>_. [])) (session_start None)
     (sample_fill @ [SeRequest (Some (InText None))])) SeSessionTimeout"
proof -
  have run: "enabled_run session_enabled (session_step ''linux/amd64'' (\<lambda>_. [])) (session_start None)
      (sample_fill @ [SeRequest (Some (InText None))])"
    and "length (ses_rx (foldl (session_step ''linux/amd64'' (\<lambda>_. [])) (session_start None) sample_fill)) = 3"
    by (simp_all add: sample_fill_def session_eval)
  from session_blocks_itself [OF run _ this(2)] show ?thesis
    by (metis bind.simps(1) of_execution.simps(12))
qed

text \<open>C35: the garbage collection sorts the executions by their stdin. It keeps exactly the entries of live
  executions whose stdin the client did not close, and cancels every other execution that has an
  entry, also one that still runs; it changes nothing else. No kept execution is cancelled.\<close>

theorem garbage_collection_cancels:
  assumes "enabled_run session_enabled (session_step arch cleaned) (session_start threshold) (es @ [SeGarbageCollection])"
  defines "s \<equiv> foldl (session_step arch cleaned) (session_start threshold) es"
    and "t \<equiv> foldl (session_step arch cleaned) (session_start threshold) (es @ [SeGarbageCollection])"
  shows "(\<forall>k i b. ses_active s k = Some (i, b) \<longrightarrow>
       (if b \<and> live_task s i then ses_active t k = Some (i, b) \<and> i \<notin> ses_cancelled t
        else ses_active t k = None \<and> i \<in> ses_cancelled t)) \<and>
    (\<forall>k. ses_active s k = None \<longrightarrow> ses_active t k = None) \<and> ses_cancelled s \<subseteq> ses_cancelled t \<and>
    t\<lparr>ses_active := ses_active s, ses_cancelled := ses_cancelled s\<rparr> = s"
proof -
  have inv: "session_inv s" unfolding s_def
    by (rule session_run_inv) (use assms(1) in \<open>simp add: enabled_run_append\<close>)
  have t: "t = garbage_collection s" by (simp add: s_def t_def)
  have lt: "i < length (ses_tasks s)" "i \<notin> ses_cancelled s" if "ses_active s k = Some (i, b)" for k i b
    using inv that by (auto simp: session_inv_def tokens_ok_def)
  have one: "k = l" if "ses_active s k = Some (i, b)" "ses_active s l = Some (i, c)" for k l i b c
    using inv that unfolding session_inv_def tokens_ok_def by blast
  have keeps: "gc_keeps s (i, b) \<longleftrightarrow> b \<and> live_task s i" if "ses_active s k = Some (i, b)" for k i b
    using lt(1) [OF that] by (simp add: gc_keeps_def live_task_def)
  have active: "ses_active t k = (case ses_active s k of None \<Rightarrow> None | Some x \<Rightarrow> if gc_keeps s x then Some x else None)"
    and cancelled: "i \<in> ses_cancelled t \<longleftrightarrow>
      i \<in> ses_cancelled s \<or> (\<exists>n b. ses_active s n = Some (i, b) \<and> \<not> gc_keeps s (i, b))" for k i
    by (simp_all add: t garbage_collection_def retain_def)
  have "if b \<and> live_task s i then ses_active t k = Some (i, b) \<and> i \<notin> ses_cancelled t
        else ses_active t k = None \<and> i \<in> ses_cancelled t" if e: "ses_active s k = Some (i, b)" for k i b
  proof (cases "gc_keeps s (i, b)")
    case True
    have "\<not> (\<exists>n c. ses_active s n = Some (i, c) \<and> \<not> gc_keeps s (i, c))"
      using True one [OF e] e by (metis option.inject prod.inject)
    then show ?thesis using True keeps [OF e] lt(2) [OF e] e by (simp add: active cancelled)
  next
    case False
    then show ?thesis using keeps [OF e] e by (simp add: active cancelled) blast
  qed
  moreover have "t\<lparr>ses_active := ses_active s, ses_cancelled := ses_cancelled s\<rparr> = s"
    by (simp add: t garbage_collection_def)
  moreover have "ses_active t k = None" if "ses_active s k = None" for k using that by (simp add: active)
  moreover have "ses_cancelled s \<subseteq> ses_cancelled t" by (simp add: cancelled subset_iff)
  ultimately show ?thesis by blast
qed

text \<open>A client that closes the stdin of its execution has it cancelled at the next collection.\<close>

theorem garbage_collection_cancels_witness:
  "0 \<in> ses_cancelled (foldl (session_step ''linux/amd64'' (\<lambda>_. [])) (session_start None)
     ([SeRequest (Some (InText (Some sample_execute_json))), SeRequest (Some (InText (Some sample_close)))] @ [SeGarbageCollection]))"
proof -
  let ?es = "[SeRequest (Some (InText (Some sample_execute_json))), SeRequest (Some (InText (Some sample_close)))]"
  have "enabled_run session_enabled (session_step ''linux/amd64'' (\<lambda>_. [])) (session_start None) (?es @ [SeGarbageCollection])"
    by (simp add: session_eval)
  from garbage_collection_cancels [OF this, THEN conjunct1, rule_format, of 1 0 False]
  show ?thesis by (simp add: session_eval)
qed

end
