(* ===== verification/Rounds.thy ===== *)
theory Rounds
  imports Playground_Prelude "HOL-Library.While_Combinator"
begin

text \<open>
  A loop that visits a graph round by round, without remembering what it visited: each round replaces
  the frontier by its successors. The contract is the locale \<open>rounds\<close>; it gives that the loop
  returns exactly when no cycle can be reached. Below it the stable sort and the grouping of
  neighbours that the standard library and itertools offer.
\<close>

lemma relpow_converse_wf_bounded:
  assumes "wf (E\<inverse>)" and "finite E"
  shows "\<exists>n. (E ^^ n) `` {x} = {}"
  using assms(1)
proof (induction x rule: wf_induct_rule)
  case (less x)
  then have "\<forall>y \<in> E `` {x}. \<exists>n. (E ^^ n) `` {y} = {}" by blast
  then obtain f where f: "\<forall>y \<in> E `` {x}. (E ^^ f y) `` {y} = {}" by metis
  define n where "n = Max (insert 0 (f ` (E `` {x})))"
  have fin: "finite (E `` {x})" using assms(2) by (simp add: finite_Image)
  have "(E ^^ n) `` {y} = {}" if "y \<in> E `` {x}" for y
  proof -
    have "f y \<le> n" using fin that by (simp add: n_def)
    then have "E ^^ n = E ^^ f y O E ^^ (n - f y)" by (simp flip: relpow_add)
    then show ?thesis using f that by (simp add: relcomp_Image)
  qed
  then have "(E ^^ Suc n) `` {x} = {}" by (auto simp: relpow_commute [symmetric])
  then show ?case by blast
qed

locale rounds =
  fixes edges :: "('n \<times> 'n) set"
    and round :: "'s \<Rightarrow> 's"
    and frontier :: "'s \<Rightarrow> 'n set"
  assumes frontier_round: "frontier (round s) = edges `` frontier s"
begin

lemma frontier_rounds: "frontier ((round ^^ n) s) = (edges ^^ n) `` frontier s"
  by (induction n) (simp_all add: frontier_round relcomp_Image)

lemma frontier_stays_empty:
  assumes "(edges ^^ m) `` A = {}" and "m \<le> n"
  shows "(edges ^^ n) `` A = {}"
proof -
  have "edges ^^ n = edges ^^ m O edges ^^ (n - m)" using assms(2) by (simp flip: relpow_add)
  then show ?thesis using assms(1) by (simp add: relcomp_Image)
qed

lemma cycle_not_empty:
  assumes x: "(x, x) \<in> edges\<^sup>+" and reach: "x \<in> edges\<^sup>* `` A"
  shows "(edges ^^ n) `` A \<noteq> {}"
proof
  assume empty: "(edges ^^ n) `` A = {}"
  from reach obtain a m where a: "a \<in> A" "(a, x) \<in> edges ^^ m" by (auto dest: rtrancl_imp_relpow)
  from x obtain k where k: "0 < k" "(x, x) \<in> edges ^^ k" by (auto simp: trancl_power)
  have "(x, x) \<in> edges ^^ (k * j)" for j
    by (induction j) (use k(2) in \<open>auto simp: relpow_add\<close>)
  then have "(a, x) \<in> edges ^^ (m + k * n)" using a(2) by (auto simp: relpow_add)
  moreover have "n \<le> m + k * n" using k(1) by (simp add: trans_le_add2)
  ultimately show False using frontier_stays_empty [OF empty] a(1) by blast
qed

lemma acyclic_empty:
  assumes acyclic: "\<forall>x \<in> edges\<^sup>* `` A. (x, x) \<notin> edges\<^sup>+" and fin: "finite edges" "finite A"
  shows "\<exists>n. (edges ^^ n) `` A = {}"
proof -
  define S where "S = edges\<^sup>* `` A"
  define E where "E = edges \<inter> S \<times> UNIV"
  have sub: "E\<^sup>+ \<subseteq> edges\<^sup>+" by (rule trancl_mono_subset) (simp add: E_def)
  have "x \<in> S" if "(x, y) \<in> E\<^sup>+" for x y using that by (auto simp: E_def dest: tranclD)
  then have "acyclic E" using acyclic sub by (auto simp: acyclic_def S_def)
  moreover have "finite E" using fin(1) by (simp add: E_def)
  ultimately have wf: "wf (E\<inverse>)" by (simp add: finite_acyclic_wf_converse)
  have succ: "y \<in> S \<and> (x, y) \<in> E" if "x \<in> S" "(x, y) \<in> edges" for x y
    using that by (auto simp: S_def E_def intro: rtrancl_into_rtrancl)
  have E: "(x, y) \<in> E ^^ n \<and> y \<in> S" if "x \<in> S" "(x, y) \<in> edges ^^ n" for x y n
    using that(2)
  proof (induction n arbitrary: y)
    case (Suc n)
    then obtain z where z: "(x, z) \<in> edges ^^ n" "(z, y) \<in> edges" by auto
    with Suc.IH [OF z(1)] show ?case using succ [of z y] by auto
  qed (use \<open>x \<in> S\<close> in simp)
  from relpow_converse_wf_bounded [OF wf \<open>finite E\<close>] obtain f where f: "\<And>x. (E ^^ f x) `` {x} = {}" by metis
  have "(edges ^^ f x) `` {x} = {}" if "x \<in> A" for x
  proof -
    have "x \<in> S" using that by (auto simp: S_def)
    then show ?thesis using E [of x _ "f x"] f [of x] by blast
  qed
  then have "(edges ^^ Max (insert 0 (f ` A))) `` {x} = {}" if "x \<in> A" for x
    by (rule frontier_stays_empty) (use that fin(2) in simp_all)
  then show ?thesis by (intro exI [of _ "Max (insert 0 (f ` A))"]) blast
qed

lemma loop_value:
  assumes "while_option (\<lambda>s. frontier s \<noteq> {}) round s = Some t"
  obtains n where "t = (round ^^ n) s" and "(edges ^^ n) `` frontier s = {}"
  using while_option_stop2 [OF assms] frontier_rounds by metis

lemma loop_returns:
  assumes "finite edges" and "finite (frontier s)"
  shows "while_option (\<lambda>s. frontier s \<noteq> {}) round s \<noteq> None \<longleftrightarrow>
    (\<forall>x \<in> edges\<^sup>* `` frontier s. (x, x) \<notin> edges\<^sup>+)"
proof
  assume "while_option (\<lambda>s. frontier s \<noteq> {}) round s \<noteq> None"
  then obtain n where "(edges ^^ n) `` frontier s = {}" using loop_value by (metis option.exhaust)
  then show "\<forall>x \<in> edges\<^sup>* `` frontier s. (x, x) \<notin> edges\<^sup>+" using cycle_not_empty by blast
next
  assume "\<forall>x \<in> edges\<^sup>* `` frontier s. (x, x) \<notin> edges\<^sup>+"
  from acyclic_empty [OF this assms] show "while_option (\<lambda>s. frontier s \<noteq> {}) round s \<noteq> None"
    by (auto simp: while_option_def frontier_rounds)
qed

text \<open>All that was on the frontier when it is empty is all that can be reached.\<close>

lemma visited_all: "(edges ^^ n) `` A = {} \<Longrightarrow> (\<Union>i < n. (edges ^^ i) `` A) = edges\<^sup>* `` A"
proof
  assume empty: "(edges ^^ n) `` A = {}"
  show "edges\<^sup>* `` A \<subseteq> (\<Union>i < n. (edges ^^ i) `` A)"
  proof
    fix y assume "y \<in> edges\<^sup>* `` A"
    then obtain i where "y \<in> (edges ^^ i) `` A" by (auto elim!: ImageE dest!: rtrancl_imp_relpow intro: ImageI)
    moreover from this have "i < n" using frontier_stays_empty [OF empty, of i] by (cases "i < n") auto
    ultimately show "y \<in> (\<Union>i < n. (edges ^^ i) `` A)" by blast
  qed
qed (auto dest: relpow_imp_rtrancl)

end

subsection \<open>Sorting and grouping\<close>

text \<open>\<open>sort_by\<close> is stable; \<open>le x y\<close> is that the comparison of \<open>x\<close> with \<open>y\<close> is not greater.\<close>

fun insert_by :: "('a \<Rightarrow> 'a \<Rightarrow> bool) \<Rightarrow> 'a \<Rightarrow> 'a list \<Rightarrow> 'a list" where
  "insert_by le x [] = [x]"
| "insert_by le x (y # ys) = (if le x y then x # y # ys else y # insert_by le x ys)"

definition sort_by :: "('a \<Rightarrow> 'a \<Rightarrow> bool) \<Rightarrow> 'a list \<Rightarrow> 'a list" where
  "sort_by le xs = foldr (insert_by le) xs []"

fun chunk_by :: "('a \<Rightarrow> 'k) \<Rightarrow> 'a list \<Rightarrow> ('k \<times> 'a list) list" where
  "chunk_by f [] = []"
| "chunk_by f (x # xs) =
     (case chunk_by f xs of
        (k, ys) # rest \<Rightarrow> if f x = k then (k, x # ys) # rest else (f x, [x]) # (k, ys) # rest
      | [] \<Rightarrow> [(f x, [x])])"

lemma set_insert_by [simp]: "set (insert_by le x ys) = insert x (set ys)"
  by (induction le x ys rule: insert_by.induct) auto

lemma length_insert_by [simp]: "length (insert_by le x ys) = Suc (length ys)"
  by (induction le x ys rule: insert_by.induct) auto

lemma distinct_insert_by [simp]: "distinct (insert_by le x ys) \<longleftrightarrow> x \<notin> set ys \<and> distinct ys"
  by (induction le x ys rule: insert_by.induct) auto

lemma sort_by_facts: "set (sort_by le xs) = set xs" "length (sort_by le xs) = length xs"
    "distinct (sort_by le xs) = distinct xs"
  by (induction xs) (simp_all add: sort_by_def)

lemma sorted_insert_by:
  assumes total: "\<forall>a \<in> insert x (set ys). \<forall>b \<in> insert x (set ys). le a b \<or> le b a"
    and trans: "\<And>a b c. le a b \<Longrightarrow> le b c \<Longrightarrow> le a c"
  shows "sorted_wrt le ys \<Longrightarrow> sorted_wrt le (insert_by le x ys)"
  using total
proof (induction ys)
  case (Cons y ys)
  show ?case
  proof (cases "le x y")
    case True
    then have "le x z" if "z \<in> set ys" for z using Cons.prems(1) trans [OF True, of z] that by simp
    then show ?thesis using True Cons.prems(1) by simp
  next
    case False
    then have "le y x" using Cons.prems(2) by simp
    moreover have "sorted_wrt le (insert_by le x ys)"
      by (rule Cons.IH) (use Cons.prems in simp_all)
    ultimately show ?thesis using False Cons.prems(1) by simp
  qed
qed simp

lemma sorted_sort_by:
  assumes total: "\<forall>a \<in> set xs. \<forall>b \<in> set xs. le a b \<or> le b a"
    and trans: "\<And>a b c. le a b \<Longrightarrow> le b c \<Longrightarrow> le a c"
  shows "sorted_wrt le (sort_by le xs)"
  using total
proof (induction xs)
  case (Cons x xs)
  have "sorted_wrt le (sort_by le xs)" by (rule Cons.IH) (use Cons.prems in simp)
  then have "sorted_wrt le (insert_by le x (sort_by le xs))"
    by (rule sorted_insert_by [rotated 2]) (use Cons.prems trans in \<open>auto simp: sort_by_facts\<close>)
  then show ?case by (simp add: sort_by_def)
qed (simp add: sort_by_def)

text \<open>The first of a chunk, and the others: the elements whose neighbour before is of another chunk.\<close>

fun first_flags :: "bool \<Rightarrow> 'a list \<Rightarrow> (bool \<times> 'a) list" where
  "first_flags b [] = []"
| "first_flags b (x # xs) = (b, x) # first_flags False xs"

fun change_flags :: "('a \<Rightarrow> 'k) \<Rightarrow> 'k option \<Rightarrow> 'a list \<Rightarrow> (bool \<times> 'a) list" where
  "change_flags f prev [] = []"
| "change_flags f prev (x # xs) = (prev \<noteq> Some (f x), x) # change_flags f (Some (f x)) xs"

lemma chunk_by_Cons: "\<exists>ys rest. chunk_by f (x # xs) = (f x, x # ys) # rest"
  by (auto split: list.split)

lemma chunk_flags:
  "concat (map (\<lambda>(k, ys). first_flags True ys) (chunk_by f xs)) = change_flags f None xs"
proof (induction xs)
  case (Cons x xs)
  show ?case
  proof (cases xs)
    case (Cons y zs)
    obtain ys rest where ys: "chunk_by f xs = (f y, y # ys) # rest" using chunk_by_Cons [of f y zs] Cons by auto
    have "first_flags False ys @ concat (map (\<lambda>(k, ys). first_flags True ys) rest) = change_flags f (Some (f y)) zs"
      using Cons.IH ys Cons by simp
    then show ?thesis using ys Cons by (simp add: ys)
  qed simp
qed simp

end
