(* ===== verification/Top_Crates.thy ===== *)
theory Top_Crates
  imports Rounds Cargo_Toml Str_Std
begin

text \<open>
  \<open>top-crates\<close>: which crates the playground offers, and the manifest that lists them. Versions are a
  linear order, as \<open>semver::Version\<close> is; the registry, the downloads, and the resolution of a
  workspace by cargo are a record of functions.
\<close>

subsection \<open>Data\<close>

text \<open>\<open>PackageId\<close> is ordered by name, then by version; the source is always crates.io.\<close>

datatype 'v package_id = PackageId (pid_name: string) (pid_version: 'v)

instantiation package_id :: (linorder) linorder
begin

definition less_eq_package_id :: "'a package_id \<Rightarrow> 'a package_id \<Rightarrow> bool" where
  "p \<le> q \<longleftrightarrow> pid_name p < pid_name q \<or> pid_name p = pid_name q \<and> pid_version p \<le> pid_version q"

definition less_package_id :: "'a package_id \<Rightarrow> 'a package_id \<Rightarrow> bool" where
  "p < q \<longleftrightarrow> pid_name p < pid_name q \<or> pid_name p = pid_name q \<and> pid_version p < pid_version q"

instance
  by standard (auto simp: less_eq_package_id_def less_package_id_def package_id.expand)

end

record 'v summary =
  sum_name :: string
  sum_version :: 'v
  sum_features :: "string list"

record features_lite =
  fl_features :: "string set"
  fl_uses_default_features :: bool

record 'v resolved_dep =
  rd_summary :: "'v summary"
  rd_crate_name :: string
  rd_features :: features_lite

record 'v package =
  pk_summary :: "'v summary"
  pk_library :: "string option"
  pk_custom_metadata :: "toml_value option"

record 'c exclusion =
  ex_name :: string
  ex_versions :: "'c option"

record 'c modifications =
  mo_exclusions :: "'c exclusion list"
  mo_additions :: "(string, unit) btree"

record 'v dependency_spec =
  ds_package :: string
  ds_version :: 'v
  ds_features :: "string set"
  ds_default_features :: bool

record 'v listed_crate =
  ci_name :: string
  ci_version :: 'v
  ci_id :: string

type_synonym 'v crates = "('v package_id, 'v resolved_dep) btree"

text \<open>An edge of the resolved graph, the detailed dependencies of the scratch manifest, and the resolution.\<close>

record dependency =
  dep_name_in_toml :: string
  dep_optional :: bool
  dep_platform :: "string option"
  dep_features :: "string list"
  dep_default_features :: bool

record 'v detailed_dependency =
  td_version :: 'v
  td_features :: "string list"
  td_default_features :: bool

record 'v resolution =
  rs_ids :: "'v package_id list"
  rs_deps :: "('v package_id \<times> ('v package_id \<times> dependency list) list) list"
  rs_root_names :: "string list"
  rs_activated :: "'v package_id \<Rightarrow> string \<Rightarrow> bool"

record ('v, 'c) cargo =
  cg_matches :: "'c \<Rightarrow> 'v \<Rightarrow> bool"
  cg_prerelease :: "'v \<Rightarrow> bool"
  cg_numbers :: "'v \<Rightarrow> nat \<times> nat \<times> nat"
  cg_platform :: "string \<Rightarrow> bool"
  cg_query :: "string \<Rightarrow> (string, 'v summary list) result"
  cg_download :: "'v package_id list \<Rightarrow> (string, 'v package list) result"
  cg_resolve :: "(string, 'v detailed_dependency) btree \<Rightarrow> (string, 'v resolution) result"

text \<open>Every failure is a panic.\<close>

datatype 'v top_crates_panic =
    CargoPanic string
  | NoViableVersions string
  | NoLibrary "'v package_id"
  | NotVisited "'v package_id"

subsection \<open>\<open>FeaturesLite\<close> and \<open>Modifications\<close>\<close>

definition features_default :: features_lite where
  "features_default = \<lparr>fl_features = {}, fl_uses_default_features = True\<rparr>"

definition features_merge :: "features_lite \<Rightarrow> features_lite \<Rightarrow> features_lite" where
  "features_merge self other = \<lparr>fl_features = fl_features self \<union> fl_features other,
     fl_uses_default_features = (fl_uses_default_features self \<or> fl_uses_default_features other)\<rparr>"

definition features_finalize :: "features_lite \<Rightarrow> features_lite" where
  "features_finalize self =
     (if ''default'' \<in> fl_features self
      then \<lparr>fl_features = fl_features self - {''default''}, fl_uses_default_features = True\<rparr> else self)"

definition feature_strings :: "features_lite \<Rightarrow> string list" where
  "feature_strings self = sorted_list_of_set (fl_features self)"

definition excluded :: "('c \<Rightarrow> 'v \<Rightarrow> bool) \<Rightarrow> 'c modifications \<Rightarrow> string \<Rightarrow> 'v \<Rightarrow> bool" where
  "excluded matches mods name version =
     (case find (\<lambda>n. ex_name n = name) (mo_exclusions mods) of
        None \<Rightarrow> False
      | Some exclusion \<Rightarrow>
          (case ex_versions exclusion of Some versions \<Rightarrow> matches versions version | None \<Rightarrow> True))"

subsection \<open>\<open>playground_metadata_features\<close>\<close>

record metadata =
  md_features :: "string set"
  md_default_features :: bool
  md_all_features :: bool

definition de_string_set :: "toml_value \<Rightarrow> (toml_error, string set) result" where
  "de_string_set v = (case de_strings v of Err e \<Rightarrow> Err e | Ok names \<Rightarrow> Ok (set names))"

text \<open>A struct is read from a table, or from an array that has its fields in order.\<close>

definition de_element :: "toml_value list \<Rightarrow> nat \<Rightarrow> 'a \<Rightarrow> (toml_value \<Rightarrow> (toml_error, 'a) result) \<Rightarrow> (toml_error, 'a) result" where
  "de_element vs i d de = (if i < length vs then de (vs ! i) else Ok d)"

fun de_metadata :: "toml_value \<Rightarrow> (toml_error, metadata) result" where
  "de_metadata (TTable m) =
     res_bind (de_default m ''features'' {} de_string_set) (\<lambda>features.
     res_bind (de_default m ''default-features'' True de_bool) (\<lambda>default_features.
     res_bind (de_default m ''all-features'' False de_bool) (\<lambda>all_features.
     Ok \<lparr>md_features = features, md_default_features = default_features, md_all_features = all_features\<rparr>)))"
| "de_metadata (TArray vs) =
     (if length vs > 3 then Err (InvalidType ''fewer elements in array'')
      else res_bind (de_element vs 0 {} de_string_set) (\<lambda>features.
        res_bind (de_element vs 1 True de_bool) (\<lambda>default_features.
        res_bind (de_element vs 2 False de_bool) (\<lambda>all_features.
        Ok \<lparr>md_features = features, md_default_features = default_features, md_all_features = all_features\<rparr>))))"
| "de_metadata _ = Err (InvalidType ''struct Metadata'')"

definition playground_metadata_features :: "'v package \<Rightarrow> features_lite option" where
  "playground_metadata_features pkg =
     Option.bind (pk_custom_metadata pkg) (\<lambda>custom_metadata.
     Option.bind (case custom_metadata of TTable m \<Rightarrow> bt_get m ''playground'' | _ \<Rightarrow> None) (\<lambda>playground_metadata.
     (case de_metadata playground_metadata of
        Err _ \<Rightarrow> None
      | Ok metadata \<Rightarrow>
          Some \<lparr>fl_features = (if md_all_features metadata then set (sum_features (pk_summary pkg))
                               else md_features metadata),
            fl_uses_default_features = md_default_features metadata\<rparr>)))"

subsection \<open>The initial dependencies\<close>

definition package_id :: "'v summary \<Rightarrow> 'v package_id" where
  "package_id s = PackageId (sum_name s) (sum_version s)"

text \<open>The names from crates.io, those of the cookbook, and the hand-picked ones.\<close>

definition top_crates :: "string list \<Rightarrow> string list \<Rightarrow> 'c modifications \<Rightarrow> string list" where
  "top_crates downloaded cookbook mods = downloaded @ cookbook @ bt_keys (mo_additions mods)"

text \<open>\<open>max_by_key\<close>: the last of the greatest.\<close>

fun max_by_version :: "'v::linorder summary list \<Rightarrow> 'v summary option" where
  "max_by_version [] = None"
| "max_by_version (s # ss) =
     (case max_by_version ss of
        None \<Rightarrow> Some s
      | Some t \<Rightarrow> if sum_version s \<le> sum_version t then Some t else Some s)"

fun initial_ids ::
    "('v::linorder, 'c) cargo \<Rightarrow> 'c modifications \<Rightarrow> string list \<Rightarrow> ('v top_crates_panic, 'v package_id list) result" where
  "initial_ids cg mods [] = Ok []"
| "initial_ids cg mods (name # names) =
     (case cg_query cg name of
        Err e \<Rightarrow> Err (CargoPanic e)
      | Ok matches \<Rightarrow>
          (case max_by_version (filter (\<lambda>s. \<not> cg_prerelease cg (sum_version s)) matches) of
             None \<Rightarrow> Err (NoViableVersions name)
           | Some s \<Rightarrow>
               (if excluded (cg_matches cg) mods name (sum_version s) then initial_ids cg mods names
                else res_bind (initial_ids cg mods names) (\<lambda>ids. Ok (PackageId name (sum_version s) # ids)))))"

definition resolved_dep_of :: "'v package \<Rightarrow> features_lite \<Rightarrow> ('v top_crates_panic, 'v package_id \<times> 'v resolved_dep) result" where
  "resolved_dep_of p features =
     (case pk_library p of
        None \<Rightarrow> Err (NoLibrary (package_id (pk_summary p)))
      | Some lib_target \<Rightarrow> Ok (package_id (pk_summary p),
          \<lparr>rd_summary = pk_summary p, rd_crate_name = lib_target, rd_features = features\<rparr>))"

definition insert_all :: "('k::linorder \<times> 'a) list \<Rightarrow> ('k, 'a) btree \<Rightarrow> ('k, 'a) btree" where
  "insert_all kvs m = foldl (\<lambda>m (k, v). bt_insert k v m) m kvs"

definition populate_initial_direct_dependencies ::
    "('v::linorder, 'c) cargo \<Rightarrow> 'c modifications \<Rightarrow> string list \<Rightarrow> string list \<Rightarrow> ('v top_crates_panic, 'v crates) result" where
  "populate_initial_direct_dependencies cg mods downloaded cookbook =
     res_bind (initial_ids cg mods (top_crates downloaded cookbook mods)) (\<lambda>ids.
     res_bind (map_err CargoPanic (cg_download cg ids)) (\<lambda>packages.
     res_bind (res_map (\<lambda>p. resolved_dep_of p
         (case playground_metadata_features p of None \<Rightarrow> features_default | Some f \<Rightarrow> f)) packages) (\<lambda>deps.
     Ok (insert_all deps []))))"

subsection \<open>\<open>extend_direct_dependencies\<close>\<close>

text \<open>The dependencies of the scratch manifest, by name: of two versions of a crate the last one stays.\<close>

definition scratch_dependencies :: "'v::linorder crates \<Rightarrow> (string, 'v detailed_dependency) btree" where
  "scratch_dependencies crates =
     insert_all (map (\<lambda>(pkg_id, details). (pid_name pkg_id, \<lparr>td_version = pid_version pkg_id,
       td_features = feature_strings (rd_features details),
       td_default_features = fl_uses_default_features (rd_features details)\<rparr>)) crates) []"

definition resolve_deps :: "'v resolution \<Rightarrow> 'v package_id \<Rightarrow> ('v package_id \<times> dependency list) list" where
  "resolve_deps rs p = (case map_of (rs_deps rs) p of None \<Rightarrow> [] | Some deps \<Rightarrow> deps)"

definition dep_active :: "('v, 'c) cargo \<Rightarrow> 'v resolution \<Rightarrow> 'v package_id \<Rightarrow> dependency \<Rightarrow> bool" where
  "dep_active cg rs p dep \<longleftrightarrow>
     (if dep_optional dep then rs_activated rs p (dep_name_in_toml dep) else True) \<and>
     (case dep_platform dep of None \<Rightarrow> True | Some platform \<Rightarrow> cg_platform cg platform)"

definition dep_features_lite :: "dependency \<Rightarrow> features_lite" where
  "dep_features_lite dep = \<lparr>fl_features = set (dep_features dep), fl_uses_default_features = dep_default_features dep\<rparr>"

text \<open>What a package contributes: the dependencies that are not excluded, activated, and for the platform.\<close>

definition contributions ::
    "('v, 'c) cargo \<Rightarrow> 'c modifications \<Rightarrow> 'v resolution \<Rightarrow> 'v package_id \<Rightarrow> ('v package_id \<times> features_lite) list" where
  "contributions cg mods rs p = concat (map (\<lambda>(q, deps).
     if excluded (cg_matches cg) mods (pid_name q) (pid_version q) then []
     else map (\<lambda>dep. (q, dep_features_lite dep)) (filter (dep_active cg rs p) deps)) (resolve_deps rs p))"

type_synonym 'v visit = "('v package_id, features_lite) btree \<times> ('v package_id, unit) btree"

definition visit_dep :: "'v::linorder visit \<Rightarrow> 'v package_id \<times> features_lite \<Rightarrow> 'v visit" where
  "visit_dep s contribution =
     (case s of (visited, next_to_visit) \<Rightarrow>
      case contribution of (q, features) \<Rightarrow>
        (case bt_get visited q of
           None \<Rightarrow> bt_insert q features visited
         | Some present \<Rightarrow> bt_insert q (features_merge present features) visited,
         bt_insert q () next_to_visit))"

definition visit_round ::
    "('v::linorder, 'c) cargo \<Rightarrow> 'c modifications \<Rightarrow> 'v resolution \<Rightarrow> 'v visit \<Rightarrow> 'v visit" where
  "visit_round cg mods rs s =
     (case s of (visited, to_visit) \<Rightarrow>
        foldl (\<lambda>s p. foldl visit_dep s (contributions cg mods rs p)) (visited, []) (bt_keys to_visit))"

definition root_package_ids :: "'v::linorder resolution \<Rightarrow> ('v package_id, unit) btree" where
  "root_package_ids rs =
     insert_all (map (\<lambda>p. (p, ())) (filter (\<lambda>p. pid_name p \<in> set (rs_root_names rs)) (rs_ids rs))) []"

text \<open>The loop; \<open>None\<close> when it does not return.\<close>

definition visit_all ::
    "('v::linorder, 'c) cargo \<Rightarrow> 'c modifications \<Rightarrow> 'v resolution \<Rightarrow> ('v package_id, features_lite) btree option" where
  "visit_all cg mods rs =
     map_option fst (while_option (\<lambda>s. snd s \<noteq> []) (visit_round cg mods rs) ([], root_package_ids rs))"

fun extend_downloaded ::
    "('v package_id, features_lite) btree \<Rightarrow> 'v::linorder package list \<Rightarrow> 'v crates \<Rightarrow> ('v top_crates_panic, 'v crates) result" where
  "extend_downloaded visited [] crates = Ok crates"
| "extend_downloaded visited (p # ps) crates =
     (case pk_library p of
        None \<Rightarrow> Err (NoLibrary (package_id (pk_summary p)))
      | Some lib_target \<Rightarrow>
          (case bt_get visited (package_id (pk_summary p)) of
             None \<Rightarrow> Err (NotVisited (package_id (pk_summary p)))
           | Some features \<Rightarrow>
               extend_downloaded (bt_remove (package_id (pk_summary p)) visited) ps
                 (bt_insert (package_id (pk_summary p)) \<lparr>rd_summary = pk_summary p, rd_crate_name = lib_target,
                    rd_features = (case playground_metadata_features p of None \<Rightarrow> features
                      | Some metadata_features \<Rightarrow> features_merge features metadata_features)\<rparr> crates)))"

definition extend_direct_dependencies ::
    "('v::linorder, 'c) cargo \<Rightarrow> 'c modifications \<Rightarrow> 'v crates \<Rightarrow> ('v top_crates_panic, 'v crates) result option" where
  "extend_direct_dependencies cg mods crates =
     (case cg_resolve cg (scratch_dependencies crates) of
        Err e \<Rightarrow> Some (Err (CargoPanic e))
      | Ok rs \<Rightarrow>
          (case visit_all cg mods rs of
             None \<Rightarrow> None
           | Some visited \<Rightarrow>
               Some (res_bind (map_err CargoPanic (cg_download cg (bt_keys visited)))
                 (\<lambda>packages. extend_downloaded visited packages crates))))"

subsection \<open>\<open>generate_info\<close>\<close>

partial_function (option) extend_until_stable ::
    "('v::linorder, 'c) cargo \<Rightarrow> 'c modifications \<Rightarrow> 'v crates \<Rightarrow> ('v top_crates_panic, 'v crates) result option" where
  "extend_until_stable cg mods crates =
     (case extend_direct_dependencies cg mods crates of
        None \<Rightarrow> None
      | Some (Err e) \<Rightarrow> Some (Err e)
      | Some (Ok extended) \<Rightarrow>
          if length crates = length extended then Some (Ok extended) else extend_until_stable cg mods extended)"

text \<open>By name, the newest version first.\<close>

definition spec_order :: "'v::linorder resolved_dep \<Rightarrow> 'v resolved_dep \<Rightarrow> bool" where
  "spec_order a b \<longleftrightarrow> sum_name (rd_summary a) < sum_name (rd_summary b) \<or>
     sum_name (rd_summary a) = sum_name (rd_summary b) \<and> sum_version (rd_summary b) \<le> sum_version (rd_summary a)"

definition exposed_name :: "('v \<Rightarrow> nat \<times> nat \<times> nat) \<Rightarrow> bool \<Rightarrow> 'v resolved_dep \<Rightarrow> string" where
  "exposed_name numbers first dep =
     (if first then rd_crate_name dep
      else case numbers (sum_version (rd_summary dep)) of (major, minor, patch) \<Rightarrow>
        rd_crate_name dep @ ''_'' @ nat_to_string major @ ''_'' @ nat_to_string minor @ ''_'' @ nat_to_string patch)"

definition dependency_spec_of :: "string \<Rightarrow> 'v resolved_dep \<Rightarrow> 'v dependency_spec" where
  "dependency_spec_of name dep =
     (let features = features_finalize (rd_features dep)
      in \<lparr>ds_package = name, ds_version = sum_version (rd_summary dep), ds_features = fl_features features,
          ds_default_features = fl_uses_default_features features\<rparr>)"

definition generate_dependency_specs ::
    "('v::linorder \<Rightarrow> nat \<times> nat \<times> nat) \<Rightarrow> 'v crates \<Rightarrow> (string, 'v dependency_spec) btree" where
  "generate_dependency_specs numbers crates =
     insert_all (concat (map (\<lambda>(name, pkgs). map (\<lambda>(first, dep). (exposed_name numbers first dep, dependency_spec_of name dep))
         (first_flags True pkgs))
       (chunk_by (\<lambda>dep. sum_name (rd_summary dep)) (sort_by spec_order (map snd crates))))) []"

definition generate_crate_information :: "(string, 'v dependency_spec) btree \<Rightarrow> 'v listed_crate list" where
  "generate_crate_information dependencies =
     map (\<lambda>(exposed, spec). \<lparr>ci_name = ds_package spec, ci_version = ds_version spec, ci_id = exposed\<rparr>) dependencies"

definition generate_info ::
    "('v::linorder, 'c) cargo \<Rightarrow> 'c modifications \<Rightarrow> string list \<Rightarrow> string list \<Rightarrow>
     ('v top_crates_panic, (string, 'v dependency_spec) btree \<times> 'v listed_crate list) result option" where
  "generate_info cg mods downloaded cookbook =
     (case populate_initial_direct_dependencies cg mods downloaded cookbook of
        Err e \<Rightarrow> Some (Err e)
      | Ok resolved_crates \<Rightarrow>
          map_option (map_ok (\<lambda>crates.
              let dependencies = generate_dependency_specs (cg_numbers cg) crates
              in (dependencies, generate_crate_information dependencies)))
            (extend_until_stable cg mods resolved_crates))"

subsection \<open>The manifest\<close>

text \<open>\<open>main\<close>: the struct of the manifest as a TOML value, with the fields that are skipped left out. The display of
  an exact comparator and the printing of TOML are arguments.\<close>

definition ser_dependency_spec :: "('v \<Rightarrow> string) \<Rightarrow> 'v dependency_spec \<Rightarrow> toml_value" where
  "ser_dependency_spec exact spec = ser_fields
     ((if ds_package spec = [] then [] else [(''package'', TString (ds_package spec))]) @
      [(''version'', TString (exact (ds_version spec)))] @
      (if ds_features spec = {} then []
       else [(''features'', TArray (map TString (sorted_list_of_set (ds_features spec))))]) @
      (if ds_default_features spec then [] else [(''default-features'', TBoolean False)])) []"

definition ser_dependencies :: "('v \<Rightarrow> string) \<Rightarrow> (string, 'v dependency_spec) btree \<Rightarrow> toml_value" where
  "ser_dependencies exact deps = TTable (map (\<lambda>(name, spec). (name, ser_dependency_spec exact spec)) deps)"

definition ser_playground_profile :: "bool \<Rightarrow> toml_value" where
  "ser_playground_profile build_debug = ser_fields
     [(''codegen-units'', TInteger 1), (''incremental'', TBoolean False),
      (''build-override'', ser_fields [(''codegen-units'', TInteger 1), (''debug'', TBoolean build_debug)] [])] []"

definition playground_manifest :: "('v \<Rightarrow> string) \<Rightarrow> (string, 'v dependency_spec) btree \<Rightarrow> toml_value" where
  "playground_manifest exact deps = ser_fields
     [(''package'', ser_fields [(''name'', TString ''playground''), (''version'', TString ''0.0.1''),
        (''authors'', TArray [TString ''The Rust Playground'']), (''resolver'', TString ''2'')] []),
      (''profile'', ser_fields [(''dev'', ser_playground_profile True), (''release'', ser_playground_profile False)] []),
      (''dependencies'', ser_dependencies exact deps), (''build-dependencies'', ser_dependencies exact deps)] []"

definition disclaimer :: string where
  "disclaimer = concat (map (\<lambda>l. l @ [CHR 0x0A])
     [''# This file is automatically @generated by the top-crates script.'',
      ''# Do not edit it manually. Any pull requests changing this file will likely be closed.'',
      ''# See https://github.com/rust-lang/rust-playground/blob/main/CRATE_POLICY.md for details.'',
      ''#''])"

definition manifest_content :: "(toml_value \<Rightarrow> string) \<Rightarrow> toml_value \<Rightarrow> string" where
  "manifest_content print_toml manifest = disclaimer @ print_toml manifest"

subsection \<open>What a traversal collects\<close>

text \<open>All features that a set of dependencies asks for, and the default features if one of them does.\<close>

definition collect :: "features_lite set \<Rightarrow> features_lite option" where
  "collect D = (if D = {} then None
     else Some \<lparr>fl_features = (\<Union>f \<in> D. fl_features f), fl_uses_default_features = (\<exists>f \<in> D. fl_uses_default_features f)\<rparr>)"

definition dep_edges ::
    "('v, 'c) cargo \<Rightarrow> 'c modifications \<Rightarrow> 'v resolution \<Rightarrow> ('v package_id \<times> 'v package_id) set" where
  "dep_edges cg mods rs = {(p, q). \<exists>f. (q, f) \<in> set (contributions cg mods rs p)}"

definition reached :: "('v::linorder, 'c) cargo \<Rightarrow> 'c modifications \<Rightarrow> 'v resolution \<Rightarrow> 'v package_id set" where
  "reached cg mods rs = (dep_edges cg mods rs)\<^sup>* `` {p \<in> set (rs_ids rs). pid_name p \<in> set (rs_root_names rs)}"

lemma insert_all_facts: "bt_ok m \<Longrightarrow> bt_ok (insert_all kvs m)"
  "set (bt_keys (insert_all kvs m)) = set (bt_keys m) \<union> fst ` set kvs"
  by (induction kvs arbitrary: m) (auto simp: insert_all_def bt_ok_insert)

lemma collect_insert: "collect (insert f D) =
    Some (case collect D of None \<Rightarrow> f | Some present \<Rightarrow> features_merge present f)"
  by (auto simp: collect_def features_merge_def)

lemma visit_dep_simp: "visit_dep (v, nx) (q, f) = (bt_insert q
    (case bt_get v q of None \<Rightarrow> f | Some present \<Rightarrow> features_merge present f) v, bt_insert q () nx)"
  by (simp add: visit_dep_def split: option.split)

text \<open>A state that has collected \<open>D q\<close> for each package \<open>q\<close>, with the packages \<open>N\<close> to visit next.\<close>

definition gathered :: "('v::linorder package_id \<Rightarrow> features_lite set) \<Rightarrow> 'v package_id set \<Rightarrow> 'v visit \<Rightarrow> bool" where
  "gathered D N s \<longleftrightarrow> bt_ok (fst s) \<and> (\<forall>q. bt_get (fst s) q = collect (D q)) \<and> set (bt_keys (snd s)) = N"

lemma gathered_dep: "gathered D N s \<Longrightarrow> gathered (D(q := insert f (D q))) (insert q N) (visit_dep s (q, f))"
  by (cases s) (auto simp: gathered_def visit_dep_simp bt_ok_insert bt_get_insert collect_insert)

lemma gathered_deps: "gathered D N s \<Longrightarrow>
    gathered (\<lambda>q. D q \<union> {f. (q, f) \<in> set cs}) (N \<union> fst ` set cs) (foldl visit_dep s cs)"
proof (induction cs arbitrary: D N s)
  case (Cons c cs)
  obtain q f where c: "c = (q, f)" by (cases c)
  have "(\<lambda>r. (D(q := insert f (D q))) r \<union> {g. (r, g) \<in> set cs}) = (\<lambda>r. D r \<union> {g. (r, g) \<in> set (c # cs)})"
    by (auto simp: c fun_eq_iff)
  then show ?case using Cons.IH [OF gathered_dep [OF Cons.prems, of q f]] by (simp add: c)
qed simp

lemma gathered_packages: "gathered D N s \<Longrightarrow>
    gathered (\<lambda>q. D q \<union> {f. \<exists>p \<in> set ps. (q, f) \<in> set (contributions cg mods rs p)})
      (N \<union> dep_edges cg mods rs `` set ps)
      (foldl (\<lambda>s p. foldl visit_dep s (contributions cg mods rs p)) s ps)"
proof (induction ps arbitrary: D N s)
  case (Cons p ps)
  have "N \<union> fst ` set (contributions cg mods rs p) \<union> dep_edges cg mods rs `` set ps =
      N \<union> dep_edges cg mods rs `` set (p # ps)"
    by (force simp: dep_edges_def)
  moreover have "(\<lambda>q. D q \<union> {f. (q, f) \<in> set (contributions cg mods rs p)} \<union>
        {f. \<exists>p \<in> set ps. (q, f) \<in> set (contributions cg mods rs p)}) =
      (\<lambda>q. D q \<union> {f. \<exists>p \<in> set (p # ps). (q, f) \<in> set (contributions cg mods rs p)})"
    by (auto simp: fun_eq_iff)
  ultimately show ?case using Cons.IH [OF gathered_deps [OF Cons.prems, of "contributions cg mods rs p"]] by simp
qed simp

definition asked_by :: "('v, 'c) cargo \<Rightarrow> 'c modifications \<Rightarrow> 'v resolution \<Rightarrow> 'v package_id set \<Rightarrow> 'v package_id \<Rightarrow> features_lite set" where
  "asked_by cg mods rs P q = {f. \<exists>p \<in> P. (q, f) \<in> set (contributions cg mods rs p)}"

lemma gathered_round:
  assumes "gathered (asked_by cg mods rs P) N s"
  shows "gathered (asked_by cg mods rs (P \<union> N)) (dep_edges cg mods rs `` N) (visit_round cg mods rs s)"
proof -
  obtain v t where s: "s = (v, t)" by (cases s)
  have "gathered (asked_by cg mods rs P) {} (v, [])" using assms by (simp add: gathered_def s)
  from gathered_packages [OF this, of "bt_keys t"]
  have "gathered (\<lambda>q. asked_by cg mods rs P q \<union> {f. \<exists>p \<in> N. (q, f) \<in> set (contributions cg mods rs p)})
      (dep_edges cg mods rs `` N) (visit_round cg mods rs s)"
    using assms by (simp add: gathered_def s visit_round_def)
  moreover have "(\<lambda>q. asked_by cg mods rs P q \<union> {f. \<exists>p \<in> N. (q, f) \<in> set (contributions cg mods rs p)}) =
      asked_by cg mods rs (P \<union> N)"
    by (auto simp: asked_by_def fun_eq_iff)
  ultimately show ?thesis by simp
qed

interpretation vi: rounds "dep_edges cg mods rs" "visit_round cg mods rs" "\<lambda>s. set (bt_keys (snd s))" for cg mods rs
proof unfold_locales
  fix s :: "'a visit"
  obtain v t where s: "s = (v, t)" by (cases s)
  have keys: "set (bt_keys (snd (foldl visit_dep s cs))) = set (bt_keys (snd s)) \<union> fst ` set cs" for s cs
    by (induction cs arbitrary: s) (auto simp: visit_dep_simp)
  have "set (bt_keys (snd (foldl (\<lambda>s p. foldl visit_dep s (contributions cg mods rs p)) s ps))) =
      set (bt_keys (snd s)) \<union> (\<Union>p \<in> set ps. fst ` set (contributions cg mods rs p))" for s ps
    by (induction ps arbitrary: s) (auto simp: keys)
  moreover have "fst ` set (contributions cg mods rs p) = dep_edges cg mods rs `` {p}" for p
    by (force simp: dep_edges_def)
  ultimately show "set (bt_keys (snd (visit_round cg mods rs s))) = dep_edges cg mods rs `` set (bt_keys (snd s))"
    by (simp add: s visit_round_def) blast
qed

lemma finite_dep_edges: "finite (dep_edges cg mods rs)"
proof (rule finite_subset)
  show "dep_edges cg mods rs \<subseteq> (\<Union>p \<in> fst ` set (rs_deps rs). Pair p ` fst ` set (contributions cg mods rs p))"
  proof
    fix e assume "e \<in> dep_edges cg mods rs"
    then obtain p q f where e: "e = (p, q)" "(q, f) \<in> set (contributions cg mods rs p)" by (auto simp: dep_edges_def)
    then have "map_of (rs_deps rs) p \<noteq> None"
      by (cases "map_of (rs_deps rs) p") (simp_all add: contributions_def resolve_deps_def)
    then have "p \<in> fst ` set (rs_deps rs)" by (simp add: map_of_eq_None_iff)
    then show "e \<in> (\<Union>p \<in> fst ` set (rs_deps rs). Pair p ` fst ` set (contributions cg mods rs p))"
      using e by force
  qed
qed simp

lemma visit_guard: "(\<lambda>s :: 'v::linorder visit. snd s \<noteq> []) = (\<lambda>s. set (bt_keys (snd s)) \<noteq> {})"
  by (auto simp: fun_eq_iff bt_keys_def)

lemma gathered_rounds:
  assumes "gathered (asked_by cg mods rs {}) R s"
  shows "gathered (asked_by cg mods rs (\<Union>i < n. (dep_edges cg mods rs ^^ i) `` R)) ((dep_edges cg mods rs ^^ n) `` R)
    ((visit_round cg mods rs ^^ n) s)"
proof (induction n)
  case (Suc n)
  have "(\<Union>i < Suc n. (dep_edges cg mods rs ^^ i) `` R) =
      (\<Union>i < n. (dep_edges cg mods rs ^^ i) `` R) \<union> (dep_edges cg mods rs ^^ n) `` R"
    by (simp add: lessThan_Suc Un_commute)
  moreover have "(dep_edges cg mods rs ^^ Suc n) `` R = dep_edges cg mods rs `` ((dep_edges cg mods rs ^^ n) `` R)"
    by (simp add: relcomp_Image)
  ultimately show ?case using gathered_round [OF Suc.IH] by simp
qed (use assms in simp)

lemma root_ids_set: "set (bt_keys (root_package_ids rs)) = {p \<in> set (rs_ids rs). pid_name p \<in> set (rs_root_names rs)}"
  by (force simp: root_package_ids_def insert_all_facts)

lemma visit_all_value:
  assumes "visit_all cg mods rs = Some v"
  shows "bt_ok v \<and> (\<forall>q. bt_get v q = collect (asked_by cg mods rs (reached cg mods rs) q))"
proof -
  define R where "R = {p \<in> set (rs_ids rs). pid_name p \<in> set (rs_root_names rs)}"
  from assms obtain t where w: "while_option (\<lambda>s. set (bt_keys (snd s)) \<noteq> {}) (visit_round cg mods rs)
      ([], root_package_ids rs) = Some t" and v: "v = fst t"
    by (auto simp: visit_all_def visit_guard)
  from vi.loop_value [OF w] obtain n where t: "t = (visit_round cg mods rs ^^ n) ([], root_package_ids rs)"
    and empty: "(dep_edges cg mods rs ^^ n) `` R = {}"
    by (auto simp: root_ids_set R_def)
  have "gathered (asked_by cg mods rs {}) R ([], root_package_ids rs)"
    by (simp add: gathered_def asked_by_def collect_def root_ids_set R_def)
  from gathered_rounds [OF this, of n] have "gathered (asked_by cg mods rs (reached cg mods rs)) {} t"
    using vi.visited_all [OF empty] empty by (simp add: t reached_def R_def)
  then show ?thesis by (simp add: gathered_def v)
qed

lemma visit_all_returns: "visit_all cg mods rs \<noteq> None \<longleftrightarrow>
    \<not> (\<exists>p \<in> reached cg mods rs. (p, p) \<in> (dep_edges cg mods rs)\<^sup>+)"
  using vi.loop_returns [OF finite_dep_edges, where s = "([], root_package_ids rs)"]
  by (simp add: visit_all_def visit_guard reached_def root_ids_set)

subsection \<open>Growing until nothing is new\<close>

text \<open>The map has each crate under its own id.\<close>

definition crates_ok :: "'v::linorder crates \<Rightarrow> bool" where
  "crates_ok crates \<longleftrightarrow> bt_ok crates \<and> (\<forall>k d. (k, d) \<in> set crates \<longrightarrow> k = package_id (rd_summary d))"

lemma set_bt_insert: "set (bt_insert k v m) \<subseteq> insert (k, v) (set m)"
  by (induction k v m rule: bt_insert.induct) auto

lemma crates_ok_insert: "crates_ok crates \<Longrightarrow> k = package_id (rd_summary d) \<Longrightarrow> crates_ok (bt_insert k d crates)"
  using set_bt_insert [of k d crates] by (auto simp: crates_ok_def bt_ok_insert)

lemma extend_downloaded_keys: "extend_downloaded v ps crates = Ok extended \<Longrightarrow> crates_ok crates \<Longrightarrow>
    crates_ok extended \<and> set (bt_keys extended) = set (bt_keys crates) \<union> (package_id \<circ> pk_summary) ` set ps"
proof (induction v ps crates rule: extend_downloaded.induct)
  case (2 v p ps crates)
  then show ?case by (auto simp: crates_ok_insert split: option.splits)
qed simp

lemma initial_keys: "list_all2 (\<lambda>p d. resolved_dep_of p (g p) = Ok d) ps ds \<Longrightarrow> crates_ok m \<Longrightarrow> crates_ok (insert_all ds m)"
proof (induction ps ds arbitrary: m rule: list_all2_induct)
  case (Cons p ps d ds)
  then show ?case
    by (cases d) (auto simp: insert_all_def resolved_dep_of_def crates_ok_insert split: option.splits)
qed (simp add: insert_all_def)

lemma populate_ok: "populate_initial_direct_dependencies cg mods dl cb = Ok crates \<Longrightarrow> crates_ok crates"
  using initial_keys [where m = "[]"]
  by (auto simp: populate_initial_direct_dependencies_def result_iffs res_map_Ok_iff crates_ok_def [of "[]"])

lemma crates_card: "crates_ok crates \<Longrightarrow> length crates = card (set (bt_keys crates))"
  using bt_ok_distinct [of crates] distinct_card [of "bt_keys crates"] by (simp add: crates_ok_def bt_keys_def)

text \<open>What cargo hands out: packages of a finite universe, and resolutions without cycles.\<close>

definition closed_world :: "('v::linorder, 'c) cargo \<Rightarrow> 'c modifications \<Rightarrow> 'v package_id set \<Rightarrow> bool" where
  "closed_world cg mods U \<longleftrightarrow> finite U \<and>
     (\<forall>ids ps. cg_download cg ids = Ok ps \<longrightarrow> (package_id \<circ> pk_summary) ` set ps \<subseteq> U) \<and>
     (\<forall>deps rs. cg_resolve cg deps = Ok rs \<longrightarrow> acyclic (dep_edges cg mods rs))"

lemma extend_step:
  assumes world: "closed_world cg mods U" and ok: "crates_ok crates"
  shows "case extend_direct_dependencies cg mods crates of
     None \<Rightarrow> False
   | Some (Err e) \<Rightarrow> True
   | Some (Ok extended) \<Rightarrow> crates_ok extended \<and> set (bt_keys crates) \<subseteq> set (bt_keys extended) \<and>
       set (bt_keys extended) \<subseteq> set (bt_keys crates) \<union> U"
proof -
  have "visit_all cg mods rs \<noteq> None" if "cg_resolve cg (scratch_dependencies crates) = Ok rs" for rs
  proof -
    have "acyclic (dep_edges cg mods rs)" using world that unfolding closed_world_def by blast
    then show ?thesis unfolding visit_all_returns acyclic_def by blast
  qed
  moreover have "crates_ok extended \<and> set (bt_keys crates) \<subseteq> set (bt_keys extended) \<and>
       set (bt_keys extended) \<subseteq> set (bt_keys crates) \<union> U"
    if "extend_downloaded v ps crates = Ok extended" "cg_download cg ids = Ok ps" for v ps ids extended
  proof -
    have "(package_id \<circ> pk_summary) ` set ps \<subseteq> U" using world that(2) unfolding closed_world_def by blast
    then show ?thesis using extend_downloaded_keys [OF that(1) ok] by blast
  qed
  note grows = this and returns = calculation
  show ?thesis
  proof (cases "cg_resolve cg (scratch_dependencies crates)")
    case (Inr rs)
    with returns obtain v where v: "visit_all cg mods rs = Some v" by blast
    show ?thesis
    proof (cases "cg_download cg (bt_keys v)")
      case d: (Inr ps)
      show ?thesis
      proof (cases "extend_downloaded v ps crates")
        case (Inr extended)
        from grows [OF this d] show ?thesis
          by (simp add: extend_direct_dependencies_def \<open>cg_resolve cg _ = _\<close> v d Inr res_bind_def map_err_def)
      qed (simp add: extend_direct_dependencies_def Inr v d res_bind_def map_err_def)
    qed (simp add: extend_direct_dependencies_def Inr v res_bind_def map_err_def)
  qed (simp add: extend_direct_dependencies_def)
qed

lemma extend_until_stable_returns:
  assumes world: "closed_world cg mods U" and ok: "crates_ok crates"
  shows "case extend_until_stable cg mods crates of
     None \<Rightarrow> False
   | Some (Err e) \<Rightarrow> True
   | Some (Ok result) \<Rightarrow> crates_ok result \<and> set (bt_keys crates) \<subseteq> set (bt_keys result) \<and>
       (\<exists>before. extend_direct_dependencies cg mods before = Some (Ok result) \<and> bt_keys before = bt_keys result)"
  using ok
proof (induction "card (U - set (bt_keys crates))" arbitrary: crates rule: less_induct)
  case less
  note step = extend_step [OF world less.prems]
  show ?case
  proof (cases "extend_direct_dependencies cg mods crates")
    case (Some r)
    show ?thesis
    proof (cases r)
      case (Inr extended)
      have ext: "crates_ok extended" "set (bt_keys crates) \<subseteq> set (bt_keys extended)"
        "set (bt_keys extended) \<subseteq> set (bt_keys crates) \<union> U" using step Some Inr by simp_all
      show ?thesis
      proof (cases "length crates = length extended")
        case True
        have "set (bt_keys crates) = set (bt_keys extended)"
          by (rule card_subset_eq) (use ext True less.prems in \<open>simp_all add: crates_card\<close>)
        moreover have "sorted_wrt (<) (bt_keys crates)" "sorted_wrt (<) (bt_keys extended)"
          using ext(1) less.prems by (simp_all add: crates_ok_def bt_ok_def bt_keys_def)
        ultimately have "bt_keys crates = bt_keys extended"
          using strict_sorted_equal by blast
        then show ?thesis using Some Inr True ext by (subst extend_until_stable.simps) (auto intro: exI [of _ crates])
      next
        case False
        then obtain x where "x \<in> set (bt_keys extended)" "x \<notin> set (bt_keys crates)"
          using ext(1,2) less.prems crates_card by (metis subset_antisym subsetI)
        then have "U - set (bt_keys extended) \<subset> U - set (bt_keys crates)" using ext by blast
        then have "card (U - set (bt_keys extended)) < card (U - set (bt_keys crates))"
          using world by (simp add: closed_world_def psubset_card_mono)
        from less.hyps [OF this ext(1)] show ?thesis
          using ext(2) Some Inr False by (subst extend_until_stable.simps) (auto split: option.splits sum.splits)
      qed
    qed (use Some in \<open>subst extend_until_stable.simps, simp\<close>)
  qed (use step in simp)
qed

subsection \<open>Names of the dependencies\<close>

definition dep_name :: "'v resolved_dep \<Rightarrow> string" where
  "dep_name d = sum_name (rd_summary d)"

definition dep_version :: "'v resolved_dep \<Rightarrow> 'v" where
  "dep_version d = sum_version (rd_summary d)"

text \<open>Whether no newer version of the crate is in the set, and the name the crate then gets.\<close>

definition newest :: "'v::linorder resolved_dep set \<Rightarrow> 'v resolved_dep \<Rightarrow> bool" where
  "newest D d \<longleftrightarrow> \<not> (\<exists>e \<in> D. dep_name e = dep_name d \<and> dep_version d < dep_version e)"

definition exposed_as :: "('v::linorder \<Rightarrow> nat \<times> nat \<times> nat) \<Rightarrow> 'v crates \<Rightarrow> 'v resolved_dep \<Rightarrow> string" where
  "exposed_as numbers crates d = exposed_name numbers (newest (snd ` set crates) d) d"

definition spec_before :: "'v::linorder resolved_dep \<Rightarrow> 'v resolved_dep \<Rightarrow> bool" where
  "spec_before a b \<longleftrightarrow> dep_name a < dep_name b \<or> dep_name a = dep_name b \<and> dep_version b < dep_version a"

lemma flags_newest:
  "sorted_wrt spec_before (ps @ xs) \<Longrightarrow>
   change_flags dep_name (if ps = [] then None else Some (dep_name (last ps))) xs = map (\<lambda>d. (newest (set (ps @ xs)) d, d)) xs"
proof (induction xs arbitrary: ps)
  case (Cons x xs)
  have later: "spec_before x y" if "y \<in> set xs" for y using Cons.prems that by (simp add: sorted_wrt_append)
  have earlier: "spec_before p x" if "p \<in> set ps" for p using Cons.prems that by (simp add: sorted_wrt_append)
  have last: "p = last ps \<or> spec_before p (last ps)" if "p \<in> set ps" for p
    using Cons.prems that by (induction ps rule: rev_induct) (auto simp: sorted_wrt_append)
  have "newest (set (ps @ x # xs)) x \<longleftrightarrow> ps = [] \<or> dep_name (last ps) \<noteq> dep_name x"
  proof (cases "ps = [] \<or> dep_name (last ps) \<noteq> dep_name x")
    case True
    have "\<not> (dep_name e = dep_name x \<and> dep_version x < dep_version e)" if "e \<in> set (ps @ x # xs)" for e
    proof (cases "e \<in> set ps")
      case e: True
      then have "dep_name e < dep_name x" using True earlier [OF e] last [OF e] earlier [of "last ps"]
        by (cases "ps = []") (auto simp: spec_before_def)
      then show ?thesis by (metis less_irrefl)
    next
      case False
      then show ?thesis using that later [of e] by (auto simp: spec_before_def)
    qed
    then show ?thesis using True by (auto simp: newest_def)
  next
    case False
    then have "last ps \<in> set ps" by simp
    with earlier [OF this] False show ?thesis by (auto simp: newest_def spec_before_def)
  qed
  then show ?case using Cons.IH [of "ps @ [x]"] Cons.prems by auto
qed simp

lemma crates_ok_distinct: "crates_ok crates \<Longrightarrow> distinct (map snd crates) \<and>
    inj_on (\<lambda>d. PackageId (dep_name d) (dep_version d)) (snd ` set crates)"
proof -
  assume ok: "crates_ok crates"
  have id: "k = PackageId (dep_name d) (dep_version d)" if "(k, d) \<in> set crates" for k d
    using ok that unfolding crates_ok_def package_id_def dep_name_def dep_version_def by blast
  have "map fst crates = map (\<lambda>d. PackageId (dep_name d) (dep_version d)) (map snd crates)"
    using id by (auto simp: map_eq_conv) 
  moreover have "distinct (map fst crates)"
    using ok bt_ok_distinct [of crates] by (simp add: crates_ok_def bt_keys_def)
  ultimately have d: "distinct (map (\<lambda>d. PackageId (dep_name d) (dep_version d)) (map snd crates))" by metis
  then have "distinct (map snd crates)" unfolding distinct_map by blast
  moreover have "inj_on (\<lambda>d. PackageId (dep_name d) (dep_version d)) (set (map snd crates))"
    using d by (simp only: distinct_map)
  ultimately show ?thesis by simp
qed

lemma sorted_specs:
  assumes "crates_ok crates"
  shows "sorted_wrt spec_before (sort_by spec_order (map snd crates))"
proof -
  let ?xs = "sort_by spec_order (map snd crates)"
  have "sorted_wrt spec_order ?xs"
    by (rule sorted_sort_by) (auto simp: spec_order_def)
  moreover have "distinct ?xs" using crates_ok_distinct [OF assms] by (simp add: sort_by_facts)
  ultimately have "sorted_wrt (\<lambda>a b. spec_order a b \<and> a \<noteq> b) ?xs"
    by (induction ?xs) (auto simp: sorted_wrt_iff_nth_less nth_eq_iff_index_eq)
  then show ?thesis
  proof (rule sorted_wrt_mono_rel [rotated])
    fix a b assume "a \<in> set ?xs" "b \<in> set ?xs" and ab: "spec_order a b \<and> a \<noteq> b"
    then have "PackageId (dep_name a) (dep_version a) \<noteq> PackageId (dep_name b) (dep_version b)"
      using crates_ok_distinct [OF assms] by (auto simp: sort_by_facts inj_on_def)
    then show "spec_before a b" using ab by (auto simp: spec_order_def spec_before_def dep_name_def dep_version_def)
  qed
qed

lemma specs_eq:
  assumes "crates_ok crates"
  shows "generate_dependency_specs numbers crates =
    insert_all (map (\<lambda>d. (exposed_as numbers crates d, dependency_spec_of (dep_name d) d))
      (sort_by spec_order (map snd crates))) []"
proof -
  let ?xs = "sort_by spec_order (map snd crates)"
  define entry where "entry = (\<lambda>(first, d). (exposed_name numbers first d, dependency_spec_of (dep_name d) (d :: 'a resolved_dep)))"
  have names: "(k, ys) \<in> set (chunk_by dep_name xs) \<Longrightarrow> d \<in> set ys \<Longrightarrow> dep_name d = k"
    for xs ys k and d :: "'a resolved_dep"
  proof (induction xs arbitrary: k ys)
    case (Cons x xs)
    show ?case
    proof (cases "chunk_by dep_name xs")
      case Nil
      then show ?thesis using Cons.prems by simp
    next
      case (Cons c rest)
      obtain j zs where "c = (j, zs)" by (cases c)
      then show ?thesis using Cons.prems Cons.IH [of j zs] Cons.IH [of k ys] Cons by (auto split: if_splits)
    qed
  qed simp
  have flags: "snd ` set (first_flags b ys) = set ys" for b and ys :: "'a resolved_dep list"
    by (induction ys arbitrary: b) auto
  have chunk: "map (\<lambda>(first, dep). (exposed_name numbers first dep, dependency_spec_of k dep)) (first_flags True ys) =
      map entry (first_flags True ys)" if "(k, ys) \<in> set (chunk_by dep_name ?xs)" for k ys
  proof (rule map_cong [OF refl])
    fix fd assume "fd \<in> set (first_flags True ys)"
    then have "snd fd \<in> set ys" using flags by blast
    then have "dep_name (snd fd) = k" by (rule names [OF that])
    then show "(case fd of (first, dep) \<Rightarrow> (exposed_name numbers first dep, dependency_spec_of k dep)) = entry fd"
      by (simp add: entry_def case_prod_unfold)
  qed
  have "generate_dependency_specs numbers crates =
      insert_all (concat (map (\<lambda>(k, ys). map entry (first_flags True ys)) (chunk_by dep_name ?xs))) []"
    unfolding generate_dependency_specs_def dep_name_def [symmetric, abs_def]
    by (intro arg_cong [where f = "\<lambda>l. insert_all (concat l) []"] map_cong refl) (use chunk in auto)
  also have "concat (map (\<lambda>(k, ys). map entry (first_flags True ys)) (chunk_by dep_name ?xs)) =
      map entry (change_flags dep_name None ?xs)"
    by (simp add: chunk_flags [symmetric] map_concat comp_def case_prod_unfold)
  also have "change_flags dep_name None ?xs = map (\<lambda>d. (newest (set ?xs) d, d)) ?xs"
    using flags_newest [of "[]" ?xs] sorted_specs [OF assms] by simp
  finally show ?thesis by (simp add: entry_def exposed_as_def sort_by_facts comp_def)
qed

lemma insert_all_get: "bt_get (insert_all kvs []) n = map_of (rev kvs) n"
  using bt_get_of_list [of kvs n] by (simp add: insert_all_def bt_of_list_def)

subsection \<open>Properties\<close>

text \<open>C27: the traversal of the dependencies ends exactly when it has to. It returns exactly when no active
  dependency that can be reached from the root packages leads back to where it started; then it has a
  package exactly when a reachable package depends on it, with all the features they ask for, and
  the default features when one of them asks for them.\<close>

theorem traversal_returns:
  "case visit_all cg mods rs of
     None \<Rightarrow> \<exists>p \<in> reached cg mods rs. (p, p) \<in> (dep_edges cg mods rs)\<^sup>+
   | Some v \<Rightarrow> \<not> (\<exists>p \<in> reached cg mods rs. (p, p) \<in> (dep_edges cg mods rs)\<^sup>+) \<and>
       bt_ok v \<and> (\<forall>q. bt_get v q = collect (asked_by cg mods rs (reached cg mods rs) q))"
  using visit_all_returns [of cg mods rs] visit_all_value [of cg mods rs] by (auto split: option.split)



text \<open>C29: the dependencies have the names the playground shows. Each of them is a crate of the set under the
  name it is exposed as, the plain name when no newer version is there and the one with the numbers
  of its version otherwise, with its finalized features; no exposed name is missing. When no two
  crates are exposed under one name, every crate is a dependency and is listed once.\<close>

theorem dependency_specs_complete:
  fixes numbers :: "'v::linorder \<Rightarrow> nat \<times> nat \<times> nat" and crates :: "'v crates"
  assumes "crates_ok crates"
  defines "specs \<equiv> generate_dependency_specs numbers crates"
  shows "bt_ok specs \<and>
    (\<forall>n s. bt_get specs n = Some s \<longrightarrow>
       (\<exists>d \<in> snd ` set crates. n = exposed_as numbers crates d \<and> s = dependency_spec_of (dep_name d) d)) \<and>
    (\<forall>d \<in> snd ` set crates. bt_get specs (exposed_as numbers crates d) \<noteq> None) \<and>
    (inj_on (exposed_as numbers crates) (snd ` set crates) \<longrightarrow>
       (\<forall>d \<in> snd ` set crates. bt_get specs (exposed_as numbers crates d) = Some (dependency_spec_of (dep_name d) d)) \<and>
       length (generate_crate_information specs) = length crates)"
proof -
  let ?xs = "sort_by spec_order (map snd crates)"
  define kvs where "kvs = map (\<lambda>d. (exposed_as numbers crates d, dependency_spec_of (dep_name d) d)) ?xs"
  have specs: "specs = insert_all kvs []" using specs_eq [OF assms(1)] by (simp add: specs_def kvs_def)
  have keys: "fst ` set kvs = exposed_as numbers crates ` snd ` set crates"
    by (simp add: kvs_def image_image sort_by_facts)
  have ok: "bt_ok specs" by (simp add: specs insert_all_facts)
  have sound: "\<exists>d \<in> snd ` set crates. n = exposed_as numbers crates d \<and> s = dependency_spec_of (dep_name d) d"
    if "bt_get specs n = Some s" for n s
    using that map_of_SomeD [of "rev kvs" n s] by (auto simp: specs insert_all_get kvs_def sort_by_facts)
  have present: "bt_get specs n \<noteq> None \<longleftrightarrow> n \<in> exposed_as numbers crates ` snd ` set crates" for n
    using keys by (simp add: specs bt_get_None_iff insert_all_facts)
  have all: "bt_get specs (exposed_as numbers crates d) = Some (dependency_spec_of (dep_name d) d)"
    if "inj_on (exposed_as numbers crates) (snd ` set crates)" "d \<in> snd ` set crates" for d
  proof -
    from present that(2) obtain s where s: "bt_get specs (exposed_as numbers crates d) = Some s" by blast
    from sound [OF this] obtain e where e: "e \<in> snd ` set crates"
      "exposed_as numbers crates d = exposed_as numbers crates e" "s = dependency_spec_of (dep_name e) e" by blast
    then have "d = e" using inj_onD [OF that(1)] that(2) by blast
    then show ?thesis using s e(3) by simp
  qed
  have "length specs = length crates" if "inj_on (exposed_as numbers crates) (snd ` set crates)"
  proof -
    have "set (bt_keys specs) = exposed_as numbers crates ` snd ` set crates" using keys by (simp add: specs insert_all_facts)
    then have "card (set (bt_keys specs)) = card (set (map snd crates))" using card_image [OF that] by simp
    moreover have "card (set (map snd crates)) = length crates"
      using crates_ok_distinct [OF assms(1)] distinct_card [of "map snd crates"] by (simp only: length_map)
    ultimately show ?thesis
      using bt_ok_distinct [OF ok] distinct_card [of "bt_keys specs"] by (simp add: bt_keys_def)
  qed
  then show ?thesis using ok sound present all by (simp add: generate_crate_information_def)
qed

definition sample_summary :: "string \<Rightarrow> nat \<Rightarrow> nat summary" where
  "sample_summary n v = \<lparr>sum_name = n, sum_version = v, sum_features = []\<rparr>"

definition sample_dep :: "string \<Rightarrow> nat \<Rightarrow> nat resolved_dep" where
  "sample_dep n v = \<lparr>rd_summary = sample_summary n v, rd_crate_name = n, rd_features = features_default\<rparr>"

text \<open>Two versions of one crate: the older one has its version in its name.\<close>

theorem dependency_specs_complete_witness:
  "bt_get (generate_dependency_specs (\<lambda>v. (v, 0, 0)) [(PackageId ''rand'' 7, sample_dep ''rand'' 7), (PackageId ''rand'' 8, sample_dep ''rand'' 8)])
     ''rand_7_0_0'' \<noteq> None"
proof -
  let ?crates = "[(PackageId ''rand'' 7, sample_dep ''rand'' 7), (PackageId ''rand'' 8, sample_dep ''rand'' 8)]"
  have "crates_ok ?crates"
    by (auto simp: crates_ok_def bt_ok_def sample_dep_def sample_summary_def package_id_def less_package_id_def)
  note props = dependency_specs_complete [OF this, of "\<lambda>v. (v, 0, 0)", THEN conjunct2, THEN conjunct2, THEN conjunct1]
  have "digit_char 7 = CHR ''7''" "digit_char 0 = CHR ''0''" by code_simp+
  then have "exposed_as (\<lambda>v. (v, 0, 0)) ?crates (sample_dep ''rand'' 7) = ''rand_7_0_0''"
    by (simp add: exposed_as_def exposed_name_def newest_def sample_dep_def sample_summary_def dep_name_def
        dep_version_def nat_to_string.simps)
  then show ?thesis using bspec [OF props, of "sample_dep ''rand'' 7"] by simp
qed

text \<open>A registry with two crates, the first of which depends on the second.\<close>

definition sample_package :: "nat package_id \<Rightarrow> nat package" where
  "sample_package p = \<lparr>pk_summary = sample_summary (pid_name p) (pid_version p), pk_library = Some (pid_name p), pk_custom_metadata = None\<rparr>"

definition sample_edge :: dependency where
  "sample_edge = \<lparr>dep_name_in_toml = ''b'', dep_optional = False, dep_platform = None, dep_features = [],
     dep_default_features = True\<rparr>"

definition sample_cargo :: "(nat, nat) cargo" where
  "sample_cargo = \<lparr>cg_matches = (=), cg_prerelease = (\<lambda>_. False), cg_numbers = (\<lambda>v. (v, 0, 0)), cg_platform = (\<lambda>_. True),
     cg_query = (\<lambda>n. Ok [sample_summary n 1]),
     cg_download = (\<lambda>ids. Ok (map sample_package (filter (\<lambda>p. p \<in> {PackageId ''a'' 1, PackageId ''b'' 1}) ids))),
     cg_resolve = (\<lambda>_. Ok \<lparr>rs_ids = [PackageId ''a'' 1, PackageId ''b'' 1], rs_deps = [(PackageId ''a'' 1, [(PackageId ''b'' 1, [sample_edge])])],
       rs_root_names = [''a''], rs_activated = (\<lambda>_ _. True)\<rparr>)\<rparr>"


end
