(* ===== verification/Io_Queue.thy ===== *)
theory Io_Queue
  imports Request_Tasks Worker_Process
begin

text \<open>
  The two ends of the pipes between the coordinator and a worker, \<open>spawn_io_queue\<close> of
  \<open>coordinator.rs\<close> and of \<open>worker.rs\<close>, and \<open>listen\<close>, which runs the worker. bincode is an argument:
  what it writes for a message, and what it reads from the front of a stream that ends where the
  list ends.
\<close>

datatype bincode_error = BinIo io_error | BinOther string

type_synonym 'm encoder = "'m \<Rightarrow> (bincode_error, bytes) result"
type_synonym 'm decoder = "bytes \<Rightarrow> (bincode_error, 'm \<times> bytes) result"

definition bincode_input_closed :: "(bincode_error, 'a) result \<Rightarrow> bool" where
  "bincode_input_closed r =
     (case r of Err (BinIo e) \<Rightarrow> e = IoUnexpectedEof | _ \<Rightarrow> False)"

datatype io_queue_error =
    IqDeserialize bincode_error
  | IqSerialize bincode_error
  | IqSend send_error
  | IqReceive
  | IqFlush io_error

subsection \<open>Input\<close>

text \<open>
  The loop of both input tasks; it blocks on the stream and on the channel, and \<open>is_open\<close> tells
  whether the receiver is there when the next message is offered after those already sent. The
  value is \<open>None\<close> when the loop does not end.
\<close>

partial_function (option) queue_input ::
    "'m decoder \<Rightarrow> (bincode_error \<Rightarrow> 'e) \<Rightarrow> 'e \<Rightarrow> ('m list \<Rightarrow> bool) \<Rightarrow> 'm list \<Rightarrow> bytes \<Rightarrow>
     (('e, unit) result \<times> 'm list) option" where
  "queue_input de de_err send_error_of is_open sent stream =
     (if bincode_input_closed (de stream) then Some (Ok (), sent)
      else case de stream of
        Err e \<Rightarrow> Some (Err (de_err e), sent)
      | Ok (m, rest) \<Rightarrow>
          if is_open sent then queue_input de de_err send_error_of is_open (sent @ [m]) rest
          else Some (Err send_error_of, sent))"

definition coordinator_queue_input ::
    "(bincode_error \<Rightarrow> string) \<Rightarrow> 'm decoder \<Rightarrow> ('m list \<Rightarrow> bool) \<Rightarrow> bytes \<Rightarrow>
     ((coordinator_error, unit) result \<times> 'm list) option" where
  "coordinator_queue_input display de is_open stream =
     queue_input de (\<lambda>e. CeWorkerMessageDeserialization (display e)) (CeUnableToSendWorkerMessage ()) is_open [] stream"

definition worker_queue_input ::
    "'m decoder \<Rightarrow> ('m list \<Rightarrow> bool) \<Rightarrow> bytes \<Rightarrow> ((io_queue_error, unit) result \<times> 'm list) option" where
  "worker_queue_input de is_open stream = queue_input de IqDeserialize (IqSend ()) is_open [] stream"

subsection \<open>Output\<close>

text \<open>
  What the output tasks receive, with the answer of the flush; the channel is closed, or on the
  side of the coordinator the token is cancelled. The first component is \<open>None\<close> while the task
  waits for more.
\<close>

datatype 'm out_event = OutMessage 'm "(io_error, unit) result" | OutClosed | OutCancelled

fun coordinator_queue_output ::
    "(bincode_error \<Rightarrow> string) \<Rightarrow> 'm encoder \<Rightarrow> 'm out_event list \<Rightarrow> bytes \<Rightarrow>
     (coordinator_error, unit) result option \<times> bytes" where
  "coordinator_queue_output display ser [] written = (None, written)"
| "coordinator_queue_output display ser (OutClosed # es) written = (Some (Ok ()), written)"
| "coordinator_queue_output display ser (OutCancelled # es) written = (Some (Ok ()), written)"
| "coordinator_queue_output display ser (OutMessage m flushed # es) written =
     (case ser m of
        Err e \<Rightarrow> (Some (Err (CeCoordinatorMessageSerialization (display e))), written)
      | Ok b \<Rightarrow>
          (case flushed of
             Err e \<Rightarrow> (Some (Err (CeWorkerStdinFlush e)), written)
           | Ok _ \<Rightarrow> coordinator_queue_output display ser es (written @ b)))"

fun worker_queue_output ::
    "'m encoder \<Rightarrow> 'm out_event list \<Rightarrow> bytes \<Rightarrow> (io_queue_error, unit) result option \<times> bytes" where
  "worker_queue_output ser [] written = (None, written)"
| "worker_queue_output ser (OutClosed # es) written = (Some (Err IqReceive), written)"
| "worker_queue_output ser (OutCancelled # es) written = worker_queue_output ser es written"
| "worker_queue_output ser (OutMessage m flushed # es) written =
     (case ser m of
        Err e \<Rightarrow> (Some (Err (IqSerialize e)), written)
      | Ok b \<Rightarrow>
          (case flushed of
             Err e \<Rightarrow> (Some (Err (IqFlush e)), written)
           | Ok _ \<Rightarrow> worker_queue_output ser es (written @ b)))"

subsection \<open>The stdin of a child\<close>

text \<open>
  The first task of \<open>stream_stdio\<close>: each packet is written and flushed, in order, until the channel
  closes, which is the end of the list.
\<close>

fun stdin_task :: "(string \<times> (io_error, unit) result \<times> (io_error, unit) result) list \<Rightarrow> bytes \<Rightarrow>
    (stdio_error, unit) result \<times> bytes" where
  "stdin_task [] written = (Ok (), written)"
| "stdin_task ((data, write_all, flush) # ps) written =
     (case write_all of
        Err e \<Rightarrow> (Err (UnableToWriteStdin e), written)
      | Ok _ \<Rightarrow>
          (case flush of
             Err e \<Rightarrow> (Err (UnableToFlushStdin e), written @ data)
           | Ok _ \<Rightarrow> stdin_task ps (written @ data)))"

lemma stdin_task_writes: "stdin_task ps written = (Ok (), out) \<Longrightarrow> out = written @ concat (map fst ps)"
  by (induction ps written rule: stdin_task.induct) (auto split: sum.splits)

subsection \<open>\<open>listen\<close>\<close>

text \<open>The tasks of the worker, and the first of them that ends, with its result; it decides how the worker ends.\<close>

datatype listen_event =
    ListenIo "(join_error, (io_queue_error, unit) result) result"
  | ListenProcess "(join_error, (process_error, unit) result) result"
  | ListenHandler "(join_error, (handle_coordinator_message_error, unit) result) result"

datatype worker_error =
    WoIoTaskPanicked join_error
  | WoIoTaskFailed io_queue_error
  | WoProcessTaskPanicked join_error
  | WoProcessTaskFailed process_error
  | WoHandlerTaskPanicked join_error
  | WoHandlerTaskFailed handle_coordinator_message_error

definition joined_task :: "(join_error \<Rightarrow> 'e) \<Rightarrow> ('f \<Rightarrow> 'e) \<Rightarrow> (join_error, ('f, unit) result) result \<Rightarrow> ('e, unit) result" where
  "joined_task panicked failed r = res_bind (map_err panicked r) (\<lambda>inner. map_err failed inner)"

fun listen :: "listen_event \<Rightarrow> (worker_error, unit) result" where
  "listen (ListenIo r) = joined_task WoIoTaskPanicked WoIoTaskFailed r"
| "listen (ListenProcess r) = joined_task WoProcessTaskPanicked WoProcessTaskFailed r"
| "listen (ListenHandler r) = joined_task WoHandlerTaskPanicked WoHandlerTaskFailed r"

subsection \<open>What crosses a pipe\<close>

text \<open>bincode reads back what it wrote, whatever follows, and reports the end of the stream inside a message.\<close>

definition wire_laws :: "'m encoder \<Rightarrow> 'm decoder \<Rightarrow> bool" where
  "wire_laws ser de \<longleftrightarrow>
     (\<forall>m b rest. ser m = Ok b \<longrightarrow> de (b @ rest) = Ok (m, rest)) \<and>
     (\<forall>m b n. ser m = Ok b \<longrightarrow> n < length b \<longrightarrow> de (take n b) = Err (BinIo IoUnexpectedEof)) \<and>
     de [] = Err (BinIo IoUnexpectedEof)"

text \<open>The messages that are complete in the first \<open>n\<close> bytes.\<close>

fun complete_within :: "'m encoder \<Rightarrow> nat \<Rightarrow> 'm list \<Rightarrow> 'm list" where
  "complete_within ser n [] = []"
| "complete_within ser n (m # ms) =
     (case ser m of Err _ \<Rightarrow> []
      | Ok b \<Rightarrow> if length b \<le> n then m # complete_within ser (n - length b) ms else [])"

definition frames :: "'m encoder \<Rightarrow> 'm list \<Rightarrow> bytes" where
  "frames ser ms = concat (map (\<lambda>m. case ser m of Err _ \<Rightarrow> [] | Ok b \<Rightarrow> b) ms)"

lemma queue_input_frames:
  assumes laws: "wire_laws ser de"
  shows "list_all (\<lambda>m. is_ok (ser m)) ms \<Longrightarrow>
    queue_input de de_err send_error_of (\<lambda>_. True) sent (take n (frames ser ms)) =
      Some (Ok (), sent @ complete_within ser n ms)"
proof (induction ms arbitrary: n sent)
  case Nil
  have "de [] = Err (BinIo IoUnexpectedEof)" using laws by (simp add: wire_laws_def)
  then show ?case by (subst queue_input.simps) (simp add: frames_def bincode_input_closed_def)
next
  case (Cons m ms)
  from Cons.prems obtain b where b: "ser m = Ok b" by (auto simp: is_ok_def split: sum.splits)
  then have frames: "frames ser (m # ms) = b @ frames ser ms" by (simp add: frames_def)
  show ?case
  proof (cases "length b \<le> n")
    case True
    have "de (b @ rest) = Ok (m, rest)" for rest using laws b by (simp add: wire_laws_def)
    then show ?thesis using Cons.IH [of "sent @ [m]" "n - length b"] Cons.prems b True
      by (subst queue_input.simps) (simp add: frames bincode_input_closed_def)
  next
    case False
    then have "de (take n b) = Err (BinIo IoUnexpectedEof)" using laws b unfolding wire_laws_def by auto
    then show ?thesis using b False by (subst queue_input.simps) (simp add: frames bincode_input_closed_def)
  qed
qed

lemma coordinator_output_frames: "list_all (\<lambda>m. is_ok (ser m)) ms \<Longrightarrow>
    coordinator_queue_output display ser (map (\<lambda>m. OutMessage m (Ok ())) ms @ es) written =
    coordinator_queue_output display ser es (written @ frames ser ms)"
  by (induction ms arbitrary: written) (auto simp: frames_def is_ok_def split: sum.splits)

lemma worker_output_frames: "list_all (\<lambda>m. is_ok (ser m)) ms \<Longrightarrow>
    worker_queue_output ser (map (\<lambda>m. OutMessage m (Ok ())) ms @ es) written =
    worker_queue_output ser es (written @ frames ser ms)"
  by (induction ms arbitrary: written) (auto simp: frames_def is_ok_def split: sum.splits)

lemma complete_within_all: "list_all (\<lambda>m. is_ok (ser m)) ms \<Longrightarrow> length (frames ser ms) \<le> n \<Longrightarrow>
    complete_within ser n ms = ms"
  by (induction ms arbitrary: n) (auto simp: frames_def is_ok_def split: sum.splits)

lemma complete_within_prefix: "\<exists>k. complete_within ser n ms = take k ms \<and>
    (list_all (\<lambda>m. is_ok (ser m)) ms \<longrightarrow> k \<le> length ms \<and> length (frames ser (take k ms)) \<le> n \<and>
      (k < length ms \<longrightarrow> n < length (frames ser (take (Suc k) ms))))"
proof (induction ms arbitrary: n)
  case (Cons m ms)
  show ?case
  proof (cases "ser m")
    case (Inr b)
    show ?thesis
    proof (cases "length b \<le> n")
      case True
      from Cons.IH [of "n - length b"] obtain k where k: "complete_within ser (n - length b) ms = take k ms"
        "list_all (\<lambda>m. is_ok (ser m)) ms \<longrightarrow> k \<le> length ms \<and> length (frames ser (take k ms)) \<le> n - length b \<and>
          (k < length ms \<longrightarrow> n - length b < length (frames ser (take (Suc k) ms)))" by blast
      then show ?thesis using True Inr by (intro exI [of _ "Suc k"]) (auto simp: frames_def)
    qed (use Inr in \<open>intro exI [of _ 0], simp add: frames_def\<close>)
  qed (intro exI [of _ 0], simp add: is_ok_def)
qed (simp add: frames_def)

text \<open>C28: what one side writes the other side reads. Whatever messages an output task writes, wherever the
  stream is cut, the input task at the other end ends without an error and has passed on, in order,
  exactly the messages that arrived whole; all of them when the stream was not cut. This holds from
  the coordinator to the worker and back.\<close>

theorem messages_cross_pipe:
  fixes ser :: "'m encoder" and display :: "bincode_error \<Rightarrow> string"
  assumes "wire_laws ser de" and "list_all (\<lambda>m. is_ok (ser m)) ms"
  defines "to_worker \<equiv> snd (coordinator_queue_output display ser (map (\<lambda>m. OutMessage m (Ok ())) ms @ [OutClosed]) [])"
    and "to_coordinator \<equiv> snd (worker_queue_output ser (map (\<lambda>m. OutMessage m (Ok ())) ms @ [OutClosed]) [])"
  shows "\<exists>k \<le> length ms.
    worker_queue_input de (\<lambda>_. True) (take n to_worker) = Some (Ok (), take k ms) \<and>
    coordinator_queue_input display' de (\<lambda>_. True) (take n to_coordinator) = Some (Ok (), take k ms) \<and>
    (if length to_worker \<le> n then k = length ms
     else length (frames ser (take k ms)) \<le> n \<and> n < length (frames ser (take (Suc k) ms)))"
proof -
  have bytes: "to_worker = frames ser ms" "to_coordinator = frames ser ms"
    by (simp_all add: to_worker_def to_coordinator_def coordinator_output_frames [OF assms(2)]
        worker_output_frames [OF assms(2)])
  obtain k where k: "complete_within ser n ms = take k ms" "k \<le> length ms" "length (frames ser (take k ms)) \<le> n"
    "k < length ms \<Longrightarrow> n < length (frames ser (take (Suc k) ms))"
    using complete_within_prefix [of ser n ms] assms(2) by blast
  have all: "k = length ms" if "length to_worker \<le> n"
    using complete_within_all [OF assms(2), of n] that k(1,2) by (metis bytes(1) length_take min.absorb2)
  have "k < length ms" if "\<not> length to_worker \<le> n"
    using k(2,3) that by (cases "k = length ms") (auto simp: bytes)
  then have cut: "if length to_worker \<le> n then k = length ms
     else length (frames ser (take k ms)) \<le> n \<and> n < length (frames ser (take (Suc k) ms))"
    using k(3,4) all by simp
  show ?thesis
    using k(2) cut unfolding worker_queue_input_def coordinator_queue_input_def bytes
    by (intro exI [of _ k]) (simp only: queue_input_frames [OF assms(1,2)] append_Nil k(1) simp_thms)
qed

text \<open>A format of two bytes for a message, cut in the middle of the second one.\<close>

definition sample_ser :: "char encoder" where
  "sample_ser c = Ok [CHR ''m'', c]"

definition sample_de :: "char decoder" where
  "sample_de s = (case s of [] \<Rightarrow> Err (BinIo IoUnexpectedEof) | [_] \<Rightarrow> Err (BinIo IoUnexpectedEof)
     | _ # c # rest \<Rightarrow> Ok (c, rest))"

theorem messages_cross_pipe_witness:
  "\<exists>k \<le> 2. worker_queue_input sample_de (\<lambda>_. True) (take 3 ''mamb'') = Some (Ok (), take k ''ab'')"
proof -
  have "wire_laws sample_ser sample_de"
    by (auto simp: wire_laws_def sample_ser_def sample_de_def less_2_cases_iff numeral_2_eq_2 less_Suc_eq)
  moreover have "list_all (\<lambda>m. is_ok (sample_ser m)) ''ab''" by (simp add: sample_ser_def is_ok_def)
  ultimately have "\<exists>k \<le> length ''ab''. worker_queue_input sample_de (\<lambda>_. True)
      (take 3 (snd (coordinator_queue_output (\<lambda>_. []) sample_ser (map (\<lambda>m. OutMessage m (Ok ())) ''ab'' @ [OutClosed]) []))) =
      Some (Ok (), take k ''ab'')"
    using messages_cross_pipe [of sample_ser sample_de "''ab''" 3 "\<lambda>_. []" "\<lambda>_. []"] by blast
  moreover have "snd (coordinator_queue_output (\<lambda>_. []) sample_ser (map (\<lambda>m. OutMessage m (Ok ())) ''ab'' @ [OutClosed]) []) =
      ''mamb''" by (simp add: sample_ser_def)
  ultimately show ?thesis by (simp add: eval_nat_numeral)
qed

end
