(* ===== verification/Config_Env.thy ===== *)
theory Config_Env
  imports Resource_Limits Str_Std Worker_Files
begin

text \<open>
  \<open>ui/src/main.rs\<close>: the configuration of the server, read from its environment. A variable has a
  value that is Unicode or not; \<open>env::var\<close> gives the Unicode ones, \<open>env::var_os\<close> all. Whole seconds
  are what a \<open>Duration\<close> counts here; their sum panics beyond 64 bits. The parsers of floats and of
  addresses are arguments.
\<close>

datatype os_value = Unicode string | NotUnicode string

type_synonym environment = "string \<rightharpoonup> os_value"

definition env_var :: "environment \<Rightarrow> string \<Rightarrow> string option" where
  "env_var env name = (case env name of Some (Unicode s) \<Rightarrow> Some s | _ \<Rightarrow> None)"

definition env_var_os :: "environment \<Rightarrow> string \<Rightarrow> string option" where
  "env_var_os env name =
     (case env name of None \<Rightarrow> None | Some (Unicode s) \<Rightarrow> Some s | Some (NotUnicode s) \<Rightarrow> Some s)"

text \<open>\<open>FromStr\<close> of an unsigned integer with \<open>w\<close> bits: digits after at most one plus sign.\<close>

definition parse_unsigned :: "nat \<Rightarrow> string \<Rightarrow> nat option" where
  "parse_unsigned w s =
     (let digits = (if s \<noteq> [] \<and> hd s = CHR ''+'' then tl s else s)
      in if digits = [] \<or> \<not> list_all (\<lambda>c. CHR ''0'' \<le> c \<and> c \<le> CHR ''9'') digits then None
         else if digits_value digits < 2 ^ w then Some (digits_value digits) else None)"

definition or_default :: "'a \<Rightarrow> 'a option \<Rightarrow> 'a" where
  "or_default d x = (case x of None \<Rightarrow> d | Some a \<Rightarrow> a)"

definition env_unsigned :: "environment \<Rightarrow> nat \<Rightarrow> string \<Rightarrow> nat \<Rightarrow> nat" where
  "env_unsigned env w name d = or_default d (Option.bind (env_var env name) (parse_unsigned w))"

record websocket_config =
  wc_handshake_timeout :: nat
  wc_idle_timeout :: nat
  wc_idle_shutdown_timeout :: nat
  wc_session_timeout :: nat
  wc_shutdown_timeout :: nat

record config =
  cf_address :: string
  cf_cors_enabled :: bool
  cf_gh_token :: "string option"
  cf_metrics_token :: "string option"
  cf_multifile_threshold :: "f64 option"
  cf_request_db_path :: "string option"
  cf_websocket_config :: websocket_config
  cf_limits :: limits
  cf_port :: nat
  cf_root :: path

definition ui_root :: "path option \<Rightarrow> path \<Rightarrow> environment \<Rightarrow> path" where
  "ui_root current_dir manifest_dir env =
     (case env_var_os env ''PLAYGROUND_UI_ROOT'' of
        Some r \<Rightarrow>
          (if \<not> is_absolute r
           then (case current_dir of None \<Rightarrow> r | Some dir \<Rightarrow> path_push dir r) else r)
      | None \<Rightarrow> path_push (path_push manifest_dir ''frontend'') ''build'')"

definition websocket_config_from_env :: "environment \<Rightarrow> websocket_config" where
  "websocket_config_from_env env = \<lparr>
     wc_handshake_timeout = env_unsigned env 64 ''PLAYGROUND_WEBSOCKET_HANDSHAKE_TIMEOUT_S'' 5,
     wc_idle_timeout = env_unsigned env 64 ''PLAYGROUND_WEBSOCKET_IDLE_TIMEOUT_S'' 60,
     wc_idle_shutdown_timeout = env_unsigned env 64 ''PLAYGROUND_WEBSOCKET_IDLE_SHUTDOWN_TIMEOUT_S'' 5,
     wc_session_timeout = env_unsigned env 64 ''PLAYGROUND_WEBSOCKET_SESSION_TIMEOUT_S'' (45 * 60),
     wc_shutdown_timeout = env_unsigned env 64 ''PLAYGROUND_WEBSOCKET_SHUTDOWN_TIMEOUT_S'' 5\<rparr>"

text \<open>A tokio semaphore panics when it is made with more than \<open>usize::MAX >> 3\<close> permits.\<close>

definition semaphore_max_permits :: nat where
  "semaphore_max_permits = 2 ^ 61 - 1"

definition config_from_env ::
    "(string \<Rightarrow> f64 option) \<Rightarrow> path option \<Rightarrow> path \<Rightarrow> nat \<Rightarrow> environment \<Rightarrow> config option" where
  "config_from_env parse_f64 current_dir manifest_dir now env =
     (let coordinators_limit = env_unsigned env 64 ''PLAYGROUND_COORDINATORS_LIMIT'' 25;
          processes_limit = env_unsigned env 64 ''PLAYGROUND_PROCESSES_LIMIT'' 10
      in if coordinators_limit \<le> semaphore_max_permits \<and> processes_limit \<le> semaphore_max_permits
         then Some \<lparr>
           cf_address = or_default ''127.0.0.1'' (env_var env ''PLAYGROUND_UI_ADDRESS''),
           cf_cors_enabled = (env_var_os env ''PLAYGROUND_CORS_ENABLED'' \<noteq> None),
           cf_gh_token = env_var env ''PLAYGROUND_GITHUB_TOKEN'',
           cf_metrics_token = env_var env ''PLAYGROUND_METRICS_TOKEN'',
           cf_multifile_threshold = Option.bind (env_var env ''PLAYGROUND_MULTIFILE_THRESHOLD'') parse_f64,
           cf_request_db_path = env_var_os env ''PLAYGROUND_REQUEST_DATABASE'',
           cf_websocket_config = websocket_config_from_env env,
           cf_limits = with_lifecycle coordinators_limit processes_limit now,
           cf_port = env_unsigned env 16 ''PLAYGROUND_UI_PORT'' 5000,
           cf_root = ui_root current_dir manifest_dir env\<rparr>
         else None)"

definition asset_path :: "config \<Rightarrow> path" where
  "asset_path c = path_push (cf_root c) ''assets''"

text \<open>\<open>None\<close> is the panic of an address that does not parse.\<close>

definition server_socket_addr :: "(string \<Rightarrow> 'a option) \<Rightarrow> config \<Rightarrow> ('a \<times> nat) option" where
  "server_socket_addr parse_address c = map_option (\<lambda>a. (a, cf_port c)) (parse_address (cf_address c))"

text \<open>The file of the request log, or its memory; \<open>None\<close> is the panic when it cannot be opened.\<close>

definition request_database ::
    "(path \<Rightarrow> ('e, 'd) result) \<Rightarrow> ('e, 'd) result \<Rightarrow> config \<Rightarrow> 'd option" where
  "request_database initialize initialize_memory c =
     (case (case cf_request_db_path c of Some p \<Rightarrow> initialize p | None \<Rightarrow> initialize_memory) of
        Ok d \<Rightarrow> Some d | Err _ \<Rightarrow> None)"

definition overall_timeout :: "websocket_config \<Rightarrow> nat option" where
  "overall_timeout c =
     (let secs = wc_handshake_timeout c + wc_session_timeout c + 15
      in if secs < 2 ^ 64 then Some secs else None)"

subsection \<open>What the configuration promises\<close>

lemma digit_char_range: "d < 10 \<Longrightarrow> CHR ''0'' \<le> digit_char d \<and> digit_char d \<le> CHR ''9''"
  by (simp add: digit_char_def less_eq_char_def of_char_of)

lemma nat_to_string_decimal: "list_all (\<lambda>c. CHR ''0'' \<le> c \<and> c \<le> CHR ''9'') (nat_to_string n) \<and> nat_to_string n \<noteq> []"
proof (induction n rule: nat_to_string.induct)
  case (1 n)
  then show ?case by (cases "n < 10") (simp_all add: nat_to_string.simps [of n] digit_char_range)
qed

lemma parse_unsigned_print: "n < 2 ^ w \<Longrightarrow> parse_unsigned w (nat_to_string n) = Some n"
proof -
  assume n: "n < 2 ^ w"
  obtain c cs where s: "nat_to_string n = c # cs" using nat_to_string_decimal by (cases "nat_to_string n") auto
  then have "CHR ''0'' \<le> c" using nat_to_string_decimal [of n] by simp
  then have "c \<noteq> CHR ''+''" by (auto simp: less_eq_char_def)
  then show ?thesis using s nat_to_string_decimal [of n] digits_value_nat [of n] n
    by (simp add: parse_unsigned_def Let_def)
qed

text \<open>A number in its range is used as it is; no value, or one that does not parse, gives the default.\<close>

lemma env_unsigned_reads:
  "n < 2 ^ w \<Longrightarrow> env name = Some (Unicode (nat_to_string n)) \<Longrightarrow> env_unsigned env w name d = n"
  "env name = None \<Longrightarrow> env_unsigned env w name d = d"
  "env name = Some (Unicode s) \<Longrightarrow> parse_unsigned w s = None \<Longrightarrow> env_unsigned env w name d = d"
  by (simp_all add: env_unsigned_def env_var_def or_default_def parse_unsigned_print)

lemma env_unsigned_bound: "d < 2 ^ w \<Longrightarrow> env_unsigned env w name d < 2 ^ w"
proof -
  have "n < 2 ^ w" if "parse_unsigned w s = Some n" for s n
  proof -
    define digits where "digits = (if s \<noteq> [] \<and> hd s = CHR ''+'' then tl s else s)"
    have "parse_unsigned w s = (if digits = [] \<or> \<not> list_all (\<lambda>c. CHR ''0'' \<le> c \<and> c \<le> CHR ''9'') digits then None
        else if digits_value digits < 2 ^ w then Some (digits_value digits) else None)"
      by (simp only: parse_unsigned_def Let_def digits_def)
    then show ?thesis using that by (simp split: if_split_asm)
  qed
  then show "d < 2 ^ w \<Longrightarrow> env_unsigned env w name d < 2 ^ w"
    by (cases "Option.bind (env_var env name) (parse_unsigned w)")
       (auto simp: env_unsigned_def or_default_def bind_eq_Some_conv)
qed

lemma config_port:
  assumes "config_from_env pf dir man now env = Some c"
  shows "cf_port c < 2 ^ 16"
proof -
  have "cf_port c = env_unsigned env 16 ''PLAYGROUND_UI_PORT'' 5000"
    using assms by (auto simp: config_from_env_def Let_def split: if_splits)
  then show ?thesis using env_unsigned_bound [of 5000 16] by simp
qed

text \<open>The limits of the configuration start out as the invariant of the limits asks.\<close>

lemma config_limits:
  assumes "config_from_env pf dir man now env = Some c"
  shows "limits_inv (cf_limits c)"
  using assms limits_start_inv by (auto simp: config_from_env_def Let_def split: if_splits)

text \<open>
  The overall timeout leaves time for the handshake, the session, one idling and the shutdown exactly
  when the last two take no more than fifteen seconds together, as the defaults do.
\<close>

lemma overall_covers: "overall_timeout c = Some t \<Longrightarrow>
    wc_handshake_timeout c + wc_session_timeout c + wc_idle_shutdown_timeout c + wc_shutdown_timeout c \<le> t \<longleftrightarrow>
    wc_idle_shutdown_timeout c + wc_shutdown_timeout c \<le> 15"
  by (auto simp: overall_timeout_def Let_def split: if_splits)

end
