(* ===== verification/Cargo_Channels.thy ===== *)
theory Cargo_Channels
  imports Cargo_Task "HOL-Library.Sublist"
begin

text \<open>
  The channels between the task of \<open>spawn_cargo_task\<close> and its caller. Each of the three streams is an
  \<open>mpsc::channel(8)\<close>: a send waits while the channel is full and its receiver is there, and the task
  does nothing else while it waits. The caller's stdin is a fourth channel of eight the other way. The
  token of the task is a child of the caller's and is cancelled when the future of the task is dropped
  (\<open>CancelOnDropFuture\<close>).
\<close>

datatype stream = Stdout | Stderr | Status

datatype packet = PkStdout string | PkStderr string | PkStatus command_statistics

fun stream_of :: "packet \<Rightarrow> stream" where
  "stream_of (PkStdout _) = Stdout"
| "stream_of (PkStderr _) = Stderr"
| "stream_of (PkStatus _) = Status"

record cargo_channels =
  cc_task :: cargo_task
  cc_token :: bool
  cc_queue :: "stream \<Rightarrow> packet list"
  cc_open :: "stream \<Rightarrow> bool"
  cc_taken :: "stream \<Rightarrow> packet list"
  cc_pending :: "packet option"
  cc_stdin :: "string list"
  cc_stdin_closed :: bool

definition channels_start :: cargo_channels where
  "channels_start = \<lparr>cc_task = cargo_start, cc_token = False, cc_queue = \<lambda>_. [], cc_open = \<lambda>_. True,
     cc_taken = \<lambda>_. [], cc_pending = None, cc_stdin = [], cc_stdin_closed = False\<rparr>"

definition stream_capacity :: nat where
  "stream_capacity = 8"

text \<open>
  What happens: an iteration of the task, a waiting send that goes on, a receiver that takes a packet
  or is dropped, the token being cancelled, by the caller or with the future of the task, and the
  caller's send to stdin that finds room, or the drop of its sender.
\<close>

datatype channel_event =
    CcTask cargo_event
  | CcResume
  | CcRead stream
  | CcDrop stream
  | CcCancel
  | CcType string
  | CcCloseStdin

fun published :: "cargo_event \<Rightarrow> packet option" where
  "published (CtFromWorker (WmStdoutPacket p)) = Some (PkStdout p)"
| "published (CtFromWorker (WmStderrPacket p)) = Some (PkStderr p)"
| "published (CtFromWorker (WmCommandStatistics s)) = Some (PkStatus s)"
| "published _ = None"

fun took_stdin :: "cargo_event \<Rightarrow> bool" where
  "took_stdin (CtStdin (Some _) _) = True"
| "took_stdin _ = False"

text \<open>What the task can receive: the token, the next input or the end of them; the worker sends what it likes.\<close>

fun can_receive :: "cargo_channels \<Rightarrow> cargo_event \<Rightarrow> bool" where
  "can_receive s (CtCancelled _) = cc_token s"
| "can_receive s (CtStdin (Some x) _) = (cc_stdin s \<noteq> [] \<and> hd (cc_stdin s) = x)"
| "can_receive s (CtStdin None _) = (cc_stdin s = [] \<and> cc_stdin_closed s)"
| "can_receive s _ = True"

definition has_room :: "cargo_channels \<Rightarrow> stream \<Rightarrow> bool" where
  "has_room s st \<longleftrightarrow> \<not> cc_open s st \<or> length (cc_queue s st) < stream_capacity"

text \<open>\<open>send\<close>, whose error for a receiver that is gone is ignored.\<close>

definition channel_send :: "packet \<Rightarrow> cargo_channels \<Rightarrow> cargo_channels" where
  "channel_send p s =
     (if \<not> cc_open s (stream_of p) then s
      else if length (cc_queue s (stream_of p)) < stream_capacity
      then s\<lparr>cc_queue := (cc_queue s)(stream_of p := cc_queue s (stream_of p) @ [p])\<rparr>
      else s\<lparr>cc_pending := Some p\<rparr>)"

fun channels_step :: "cargo_channels \<Rightarrow> channel_event \<Rightarrow> cargo_channels" where
  "channels_step s (CcTask e) =
     (let s = s\<lparr>cc_task := cargo_step (cc_task s) e, cc_stdin := (if took_stdin e then tl (cc_stdin s) else cc_stdin s)\<rparr>
      in case published e of None \<Rightarrow> s | Some p \<Rightarrow> channel_send p s)"
| "channels_step s CcResume =
     (case cc_pending s of None \<Rightarrow> s | Some p \<Rightarrow> channel_send p (s\<lparr>cc_pending := None\<rparr>))"
| "channels_step s (CcRead st) =
     (case cc_queue s st of
        [] \<Rightarrow> s
      | p # ps \<Rightarrow> s\<lparr>cc_queue := (cc_queue s)(st := ps), cc_taken := (cc_taken s)(st := cc_taken s st @ [p])\<rparr>)"
| "channels_step s (CcDrop st) = s\<lparr>cc_open := (cc_open s)(st := False), cc_queue := (cc_queue s)(st := [])\<rparr>"
| "channels_step s CcCancel = s\<lparr>cc_token := True\<rparr>"
| "channels_step s (CcType x) = s\<lparr>cc_stdin := cc_stdin s @ [x]\<rparr>"
| "channels_step s CcCloseStdin = s\<lparr>cc_stdin_closed := True\<rparr>"

fun channels_enabled :: "bool \<Rightarrow> cargo_channels \<Rightarrow> channel_event \<Rightarrow> bool" where
  "channels_enabled gone s (CcTask e) =
     (cc_pending s = None \<and> cargo_enabled gone (cc_task s) e \<and> can_receive s e)"
| "channels_enabled gone s CcResume = (case cc_pending s of None \<Rightarrow> False | Some p \<Rightarrow> has_room s (stream_of p))"
| "channels_enabled gone s (CcRead st) = (cc_open s st \<and> cc_queue s st \<noteq> [])"
| "channels_enabled gone s (CcDrop st) = cc_open s st"
| "channels_enabled gone s CcCancel = True"
| "channels_enabled gone s (CcType _) = (\<not> cc_stdin_closed s \<and> length (cc_stdin s) < stream_capacity)"
| "channels_enabled gone s CcCloseStdin = (\<not> cc_stdin_closed s)"

subsection \<open>The channels carry what the task publishes\<close>

fun task_log :: "stream \<Rightarrow> cargo_task \<Rightarrow> packet list" where
  "task_log Stdout t = map PkStdout (ct_stdout t)"
| "task_log Stderr t = map PkStderr (ct_stderr t)"
| "task_log Status t = map PkStatus (ct_status t)"

definition in_stream :: "stream \<Rightarrow> packet option \<Rightarrow> packet list" where
  "in_stream st p = (case p of None \<Rightarrow> [] | Some q \<Rightarrow> if stream_of q = st then [q] else [])"

lemma task_log_step: "task_log st (cargo_step t e) = task_log st t @ in_stream st (published e)"
  by (cases st; cases e rule: published.cases) (auto simp: cargo_step_streams in_stream_def relay_def)

definition channels_inv :: "cargo_channels \<Rightarrow> bool" where
  "channels_inv s \<longleftrightarrow> (\<forall>st. length (cc_queue s st) \<le> stream_capacity \<and>
     (if cc_open s st then task_log st (cc_task s) = cc_taken s st @ cc_queue s st @ in_stream st (cc_pending s)
      else prefix (cc_taken s st) (task_log st (cc_task s))))"

lemma channels_start_inv: "channels_inv channels_start"
proof -
  have "task_log st cargo_start = []" for st by (cases st) (simp_all add: cargo_start_def)
  then show ?thesis by (simp add: channels_inv_def channels_start_def in_stream_def)
qed

text \<open>A send after which the packet is either dropped, queued or waiting.\<close>

lemma channel_send_inv:
  assumes "cc_pending s = None"
    and "\<And>st. length (cc_queue s st) \<le> stream_capacity"
    and "\<And>st. if cc_open s st then task_log st (cc_task s) = cc_taken s st @ cc_queue s st @ in_stream st (Some p)
      else prefix (cc_taken s st) (task_log st (cc_task s))"
  shows "channels_inv (channel_send p s)"
  using assms unfolding channels_inv_def channel_send_def by (auto simp: in_stream_def split: if_splits)

lemma channels_step_inv:
  assumes "channels_inv s" and "channels_enabled gone s ev"
  shows "channels_inv (channels_step s ev)"
proof (cases ev)
  case (CcTask e)
  let ?s = "s\<lparr>cc_task := cargo_step (cc_task s) e, cc_stdin := (if took_stdin e then tl (cc_stdin s) else cc_stdin s)\<rparr>"
  have queues: "length (cc_queue s st) \<le> stream_capacity" for st using assms(1) by (simp add: channels_inv_def)
  have free: "cc_pending s = None" using assms(2) CcTask by simp
  then have streams: "if cc_open s st then task_log st (cargo_step (cc_task s) e) = cc_taken s st @ cc_queue s st @ in_stream st (published e)
      else prefix (cc_taken s st) (task_log st (cargo_step (cc_task s) e))" for st
    using assms(1) by (auto simp: channels_inv_def task_log_step in_stream_def [of st None] intro: prefix_prefix)
  show ?thesis
  proof (cases "published e")
    case None
    then show ?thesis using CcTask queues streams free by (simp add: channels_inv_def Let_def)
  next
    case (Some p)
    have "channels_inv (channel_send p ?s)" by (rule channel_send_inv) (use queues streams free Some in simp_all)
    then show ?thesis using CcTask Some by (simp add: Let_def)
  qed
next
  case CcResume
  then obtain p where p: "cc_pending s = Some p" using assms(2) by (auto split: option.splits)
  have "channels_inv (channel_send p (s\<lparr>cc_pending := None\<rparr>))"
    by (rule channel_send_inv) (use assms(1) p in \<open>simp_all add: channels_inv_def\<close>)
  then show ?thesis using CcResume p by simp
next
  case (CcRead st)
  then obtain q qs where q: "cc_queue s st = q # qs" using assms(2) by (cases "cc_queue s st") auto
  have "length (cc_queue s st) \<le> stream_capacity" using assms(1) by (simp add: channels_inv_def)
  then show ?thesis using assms CcRead q by (auto simp: channels_inv_def)
next
  case (CcDrop st)
  then show ?thesis using assms by (auto simp: channels_inv_def)
qed (use assms(1) in \<open>simp_all add: channels_inv_def\<close>)

text \<open>Packets only ever move on, and the task below is the task of \<open>Cargo_Task\<close>.\<close>

fun task_event :: "channel_event \<Rightarrow> cargo_event list" where
  "task_event (CcTask e) = [e]"
| "task_event _ = []"

definition task_events :: "channel_event list \<Rightarrow> cargo_event list" where
  "task_events es = concat (map task_event es)"

lemma channel_send_task [simp]: "cc_task (channel_send p s) = cc_task s"
  by (simp add: channel_send_def)

lemma channels_step_task: "cc_task (channels_step s ev) = foldl cargo_step (cc_task s) (task_event ev)"
  by (cases ev) (simp_all add: Let_def split: option.split list.split)

interpretation ch: event_loop "channels_enabled gone" channels_step channels_inv for gone
  by unfold_locales (rule channels_step_inv)

lemma channels_run_task:
  "enabled_run (channels_enabled gone) channels_step s es \<Longrightarrow>
   cc_task (foldl channels_step s es) = foldl cargo_step (cc_task s) (task_events es) \<and>
   enabled_run (cargo_enabled gone) cargo_step (cc_task s) (task_events es)"
proof (induction es arbitrary: s)
  case (Cons ev es)
  then have run: "enabled_run (channels_enabled gone) channels_step (channels_step s ev) es"
    and en: "channels_enabled gone s ev" by simp_all
  have "enabled_run (cargo_enabled gone) cargo_step (cc_task s) (task_event ev)" using en by (cases ev) simp_all
  with Cons.IH [OF run] show ?case by (simp add: task_events_def channels_step_task enabled_run_append)
qed (simp add: task_events_def)

subsection \<open>A reader that does not read\<close>

text \<open>The task waits for room in the stream of a packet.\<close>

definition blocked_on :: "packet \<Rightarrow> cargo_channels \<Rightarrow> bool" where
  "blocked_on p s \<longleftrightarrow> cc_pending s = Some p \<and> cc_open s (stream_of p) \<and>
     length (cc_queue s (stream_of p)) = stream_capacity"

lemma blocked_step:
  assumes "blocked_on p s" and "channels_enabled gone s ev" and "ev \<noteq> CcRead (stream_of p)" and "ev \<noteq> CcDrop (stream_of p)"
  shows "blocked_on p (channels_step s ev) \<and> cc_task (channels_step s ev) = cc_task s"
  using assms by (cases ev) (auto simp: blocked_on_def has_room_def split: list.split)

lemma blocked_run:
  "blocked_on p s \<Longrightarrow> enabled_run (channels_enabled gone) channels_step s es \<Longrightarrow>
   CcRead (stream_of p) \<notin> set es \<Longrightarrow> CcDrop (stream_of p) \<notin> set es \<Longrightarrow>
   blocked_on p (foldl channels_step s es) \<and> cc_task (foldl channels_step s es) = cc_task s"
proof (induction es arbitrary: s)
  case (Cons ev es)
  then have "blocked_on p (channels_step s ev) \<and> cc_task (channels_step s ev) = cc_task s"
    by (intro blocked_step [of p s gone ev]) auto
  with Cons.IH [of "channels_step s ev"] Cons.prems show ?case by simp
qed simp

text \<open>A caller that waits for room in stdin waits as long as the task does.\<close>

lemma blocked_stdin_step:
  assumes "blocked_on p s" and "channels_enabled gone s ev" and "length (cc_stdin s) = stream_capacity"
  shows "length (cc_stdin (channels_step s ev)) = stream_capacity"
  using assms by (cases ev) (auto simp: blocked_on_def channel_send_def split: list.split option.split)

lemma blocked_stdin_run:
  "blocked_on p s \<Longrightarrow> enabled_run (channels_enabled gone) channels_step s es \<Longrightarrow>
   CcRead (stream_of p) \<notin> set es \<Longrightarrow> CcDrop (stream_of p) \<notin> set es \<Longrightarrow> length (cc_stdin s) = stream_capacity \<Longrightarrow>
   length (cc_stdin (foldl channels_step s es)) = stream_capacity"
proof (induction es arbitrary: s)
  case (Cons ev es)
  then have "blocked_on p (channels_step s ev)" "length (cc_stdin (channels_step s ev)) = stream_capacity"
    using blocked_step [of p s gone ev] blocked_stdin_step [of p s gone ev] by auto
  with Cons.IH [of "channels_step s ev"] Cons.prems show ?case by simp
qed simp

lemma unblocked:
  assumes "cc_pending s = Some p" and "has_room s (stream_of p)"
  shows "channels_enabled gone s CcResume" and "cc_pending (channels_step s CcResume) = None"
  using assms by (auto simp: channel_send_def has_room_def)

subsection \<open>Properties\<close>

text \<open>C9: with channels of eight packets the task is still the task. Whatever the receivers do, the task
  makes the steps it could make with unbounded channels; what a receiver has taken is a first part of
  what the task published on that stream, at most nine packets behind, and all of it when the channel
  is empty and no send waits.\<close>

theorem channels_refine_task:
  assumes "enabled_run (channels_enabled gone) channels_step channels_start es"
  defines "s \<equiv> foldl channels_step channels_start es"
    and "t \<equiv> foldl cargo_step cargo_start (task_events es)"
  shows "cc_task s = t \<and> enabled_run (cargo_enabled gone) cargo_step cargo_start (task_events es) \<and>
    prefix (cc_taken s st) (task_log st t) \<and>
    (cc_open s st \<longrightarrow> length (task_log st t) \<le> length (cc_taken s st) + 9 \<and>
      (cc_queue s st = [] \<and> cc_pending s = None \<longrightarrow> cc_taken s st = task_log st t))"
proof -
  have inv: "channels_inv s" unfolding s_def by (rule ch.run_inv [OF channels_start_inv assms(1)])
  have task: "cc_task s = t" "enabled_run (cargo_enabled gone) cargo_step cargo_start (task_events es)"
    using channels_run_task [OF assms(1)] by (simp_all add: s_def t_def channels_start_def)
  have len: "length (cc_queue s st) \<le> 8" using inv by (simp add: channels_inv_def stream_capacity_def)
  have "length (in_stream st p) \<le> 1" for p by (simp add: in_stream_def split: option.split)
  then have one: "length (in_stream st (cc_pending s)) \<le> 1" .
  have streams: "if cc_open s st then task_log st t = cc_taken s st @ cc_queue s st @ in_stream st (cc_pending s)
      else prefix (cc_taken s st) (task_log st t)"
    using inv unfolding channels_inv_def task(1) by blast
  show ?thesis
  proof (cases "cc_open s st")
    case True
    with streams have "task_log st t = cc_taken s st @ cc_queue s st @ in_stream st (cc_pending s)" by simp
    then show ?thesis using task len one by (auto simp: in_stream_def)
  qed (use streams task in simp)
qed

text \<open>C10: the liveness concern of \<open>Coordinator\<close>'s documentation. When the channel of a stream is full and
  its receiver is there, the next packet of that stream stops the task: until the receiver takes a
  packet or is dropped, whatever else happens, the task does not do anything, so that the other
  streams get nothing and the process is not killed even when the token is cancelled. One packet
  taken, or the drop, lets it go on; but a caller that first waits for room in a stdin channel that
  is full waits for ever, since only the task makes room.\<close>

theorem slow_reader_blocks_task:
  assumes "cc_open s st" and "length (cc_queue s st) = stream_capacity"
    and "channels_enabled gone s (CcTask e)" and "published e = Some p" and "stream_of p = st"
    and "enabled_run (channels_enabled gone) channels_step (channels_step s (CcTask e)) es"
    and "CcRead st \<notin> set es" and "CcDrop st \<notin> set es"
  defines "s' \<equiv> foldl channels_step (channels_step s (CcTask e)) es"
  shows "cc_task s' = cargo_step (cc_task s) e \<and> \<not> channels_enabled gone s' (CcTask e') \<and>
    \<not> channels_enabled gone s' CcResume \<and>
    (\<forall>u \<in> {CcRead st, CcDrop st}. channels_enabled gone s' u \<and> channels_enabled gone (channels_step s' u) CcResume \<and>
       cc_pending (channels_step (channels_step s' u) CcResume) = None) \<and>
    (length (cc_stdin s) = stream_capacity \<longrightarrow> \<not> channels_enabled gone s' (CcType x))"
proof -
  have first: "blocked_on p (channels_step s (CcTask e))"
    using assms(1-5) by (simp add: blocked_on_def has_room_def channel_send_def)
  have "\<not> took_stdin e" using assms(4) by (cases e rule: published.cases) simp_all
  then have "cc_stdin (channels_step s (CcTask e)) = cc_stdin s" using assms(4) by (simp add: Let_def channel_send_def)
  then have waits: "length (cc_stdin s) = stream_capacity \<longrightarrow> \<not> channels_enabled gone s' (CcType x)"
    using blocked_stdin_run [OF first assms(6)] assms(5,7,8) by (simp add: s'_def)
  from blocked_run [OF first assms(6)] assms(5,7,8)
  have blocked: "blocked_on p s'" and task: "cc_task s' = cc_task (channels_step s (CcTask e))"
    by (simp_all add: s'_def)
  then have full: "cc_pending s' = Some p" "cc_open s' st" "length (cc_queue s' st) = stream_capacity"
    using assms(5) by (auto simp: blocked_on_def)
  have woken: "channels_enabled gone s' u \<and> cc_pending (channels_step s' u) = Some p \<and> has_room (channels_step s' u) (stream_of p)"
    if "u \<in> {CcRead st, CcDrop st}" for u
    using that full assms(5) by (cases "cc_queue s' st") (auto simp: has_room_def stream_capacity_def)
  have goes_on: "channels_enabled gone s' u \<and> channels_enabled gone (channels_step s' u) CcResume \<and>
      cc_pending (channels_step (channels_step s' u) CcResume) = None" if "u \<in> {CcRead st, CcDrop st}" for u
    using woken [OF that] unblocked [of "channels_step s' u" p] by blast
  have same: "cc_task s' = cargo_step (cc_task s) e"
    unfolding task channels_step_task by simp
  have stuck: "\<not> channels_enabled gone s' (CcTask e')" "\<not> channels_enabled gone s' CcResume"
    using full assms(5) by (simp_all add: has_room_def)
  show ?thesis by (intro conjI [OF same] conjI [OF stuck(1)] conjI [OF stuck(2)] conjI ballI goes_on waits)
qed

text \<open>Eight lines nobody reads, a ninth, and a token that is cancelled in vain.\<close>

definition line_event :: channel_event where
  "line_event = CcTask (CtFromWorker (WmStdoutPacket ''x''))"

definition sample_unread :: "channel_event list" where
  "sample_unread = replicate 8 (CcType ''1'') @ replicate 8 line_event"

definition typed_ahead :: cargo_channels where
  "typed_ahead = channels_start\<lparr>cc_stdin := replicate 8 ''1''\<rparr>"

lemma typed_run: "enabled_run (channels_enabled False) channels_step channels_start (replicate 8 (CcType ''1'')) \<and>
    foldl channels_step channels_start (replicate 8 (CcType ''1'')) = typed_ahead"
  by (simp add: typed_ahead_def channels_start_def stream_capacity_def eval_nat_numeral)

definition after_lines :: "nat \<Rightarrow> cargo_channels" where
  "after_lines n = typed_ahead\<lparr>cc_task := cargo_start\<lparr>ct_stdout := replicate n ''x''\<rparr>,
     cc_queue := (\<lambda>_. [])(Stdout := replicate n (PkStdout ''x''))\<rparr>"

lemma after_lines_step:
  "n < 8 \<Longrightarrow> channels_enabled False (after_lines n) line_event \<and> channels_step (after_lines n) line_event = after_lines (Suc n)"
  by (simp add: line_event_def after_lines_def typed_ahead_def channels_start_def cargo_start_def channel_send_def
      stream_capacity_def replicate_append_same)

lemma lines_run:
  "n \<le> 8 \<Longrightarrow> enabled_run (channels_enabled False) channels_step typed_ahead (replicate n line_event) \<and>
   foldl channels_step typed_ahead (replicate n line_event) = after_lines n"
proof (induction n)
  case (Suc n)
  have "replicate (Suc n) line_event = replicate n line_event @ [line_event]" by (simp add: replicate_append_same)
  then show ?case using Suc after_lines_step [of n] by (simp only: enabled_run_append) simp
qed (simp add: after_lines_def typed_ahead_def channels_start_def cargo_start_def fun_eq_iff)

lemma sample_unread_run: "enabled_run (channels_enabled False) channels_step channels_start sample_unread"
  "foldl channels_step channels_start sample_unread = after_lines 8"
  using lines_run [of 8] typed_run
  by (simp_all only: sample_unread_def enabled_run_append foldl_append order_refl simp_thms)

theorem channels_refine_task_witness:
  "cc_task (after_lines 8) = foldl cargo_step cargo_start (task_events sample_unread) \<and>
   length (ct_stdout (foldl cargo_step cargo_start (task_events sample_unread))) \<le> 9"
  using channels_refine_task [OF sample_unread_run(1), of Stdout] unfolding sample_unread_run(2)
  by (simp add: after_lines_def typed_ahead_def channels_start_def)

theorem slow_reader_blocks_task_witness:
  "ct_to_worker (cc_task (foldl channels_step channels_start (sample_unread @ [line_event, CcCancel]))) = [] \<and>
   \<not> channels_enabled False (foldl channels_step channels_start (sample_unread @ [line_event, CcCancel])) (CcTask (CtCancelled True)) \<and>
   \<not> channels_enabled False (foldl channels_step channels_start (sample_unread @ [line_event, CcCancel])) (CcType ''1'')"
proof -
  let ?e = "CtFromWorker (WmStdoutPacket ''x'')" and ?s = "after_lines 8"
  have s: "cc_open ?s Stdout" "length (cc_queue ?s Stdout) = stream_capacity" "channels_enabled False ?s (CcTask ?e)"
    "length (cc_stdin ?s) = stream_capacity"
    by (simp_all add: after_lines_def typed_ahead_def channels_start_def cargo_start_def stream_capacity_def)
  have run: "enabled_run (channels_enabled False) channels_step (channels_step ?s (CcTask ?e)) [CcCancel]" by simp
  let ?s' = "foldl channels_step (channels_step ?s (CcTask ?e)) [CcCancel]"
  have "cc_task ?s' = cargo_step (cc_task ?s) ?e \<and> \<not> channels_enabled False ?s' (CcTask (CtCancelled True)) \<and>
      \<not> channels_enabled False ?s' (CcType ''1'')"
    using slow_reader_blocks_task [OF s(1-3) _ _ run, of "PkStdout ''x''" "CtCancelled True" "''1''"] s(4) by simp
  moreover have "foldl channels_step channels_start (sample_unread @ [line_event, CcCancel]) = ?s'"
    by (simp only: foldl_append sample_unread_run(2) line_event_def foldl.simps)
  moreover have "ct_to_worker (cargo_step (cc_task ?s) ?e) = []"
    by (simp add: after_lines_def typed_ahead_def channels_start_def cargo_start_def)
  ultimately show ?thesis by (simp only: simp_thms)
qed

end
