(* ===== verification/Worker_Channels.thy ===== *)
theory Worker_Channels
  imports Worker_Process "HOL-Library.Sublist"
begin

text \<open>
  The stdin channels of \<open>worker.rs\<close>: \<open>process_begin\<close> makes an \<open>mpsc::channel(8)\<close> for each process, whose
  receiver is the task that writes the stdin of the child. \<open>manage_processes\<close> awaits the send of a packet
  inside its loop, so while the channel of one process is full and its task does not take anything the
  loop does nothing else.
\<close>

definition process_stdin_capacity :: nat where
  "process_stdin_capacity = 8"

text \<open>
  The state of the manager, the packets in each channel and those its task took, the channels whose
  task is gone, and the send the loop waits for: the job, its channel and the packet.
\<close>

record managed =
  mg_state :: process_state
  mg_queue :: "nat \<Rightarrow> string list"
  mg_taken :: "nat \<Rightarrow> string list"
  mg_gone :: "nat set"
  mg_pending :: "(job_id \<times> nat \<times> string) option"

definition managed_start :: "path \<Rightarrow> managed" where
  "managed_start project_path = \<lparr>mg_state = process_state_new project_path, mg_queue = \<lambda>_. [], mg_taken = \<lambda>_. [],
     mg_gone = {}, mg_pending = None\<rparr>"

datatype managed_event =
    MgEvent process_event
  | MgResume
  | MgTake nat
  | MgGone nat

text \<open>The packet an event sends, with its channel.\<close>

fun stdin_send :: "process_state \<Rightarrow> process_event \<Rightarrow> (job_id \<times> nat \<times> string) option" where
  "stdin_send s (MpCommand (Some (Multiplexed job (PcStdin p))) _ _) = map_option (\<lambda>k. (job, k, p)) (ps_stdin_senders s job)"
| "stdin_send s _ = None"

fun received_flag :: "process_event \<Rightarrow> bool" where
  "received_flag (MpCommand _ _ received) = received"
| "received_flag _ = True"

definition stdin_room :: "managed \<Rightarrow> nat \<Rightarrow> bool" where
  "stdin_room s k \<longleftrightarrow> k \<in> mg_gone s \<or> length (mg_queue s k) < process_stdin_capacity"

definition deliver :: "nat \<Rightarrow> string \<Rightarrow> managed \<Rightarrow> managed" where
  "deliver k p s = (if k \<in> mg_gone s then s else s\<lparr>mg_queue := (mg_queue s)(k := mg_queue s k @ [p])\<rparr>)"

text \<open>The rest of an iteration once there is room: the send succeeds unless the task is gone.\<close>

definition finish_send ::
    "(process_error \<Rightarrow> string list) \<Rightarrow> (nat \<Rightarrow> bool) \<Rightarrow> job_id \<Rightarrow> nat \<Rightarrow> string \<Rightarrow> managed \<Rightarrow> managed" where
  "finish_send texts acc job k p s =
     deliver k p (s\<lparr>mg_pending := None,
       mg_state := manage_step texts acc (mg_state s) (MpCommand (Some (Multiplexed job (PcStdin p))) (Ok ()) (k \<notin> mg_gone s))\<rparr>)"

fun managed_step ::
    "(process_error \<Rightarrow> string list) \<Rightarrow> (nat \<Rightarrow> bool) \<Rightarrow> managed \<Rightarrow> managed_event \<Rightarrow> managed" where
  "managed_step texts acc s (MgEvent e) =
     (case stdin_send (mg_state s) e of
        None \<Rightarrow> s\<lparr>mg_state := manage_step texts acc (mg_state s) e\<rparr>
      | Some (job, k, p) \<Rightarrow>
          if stdin_room s k then finish_send texts acc job k p s else s\<lparr>mg_pending := Some (job, k, p)\<rparr>)"
| "managed_step texts acc s MgResume =
     (case mg_pending s of None \<Rightarrow> s | Some (job, k, p) \<Rightarrow> finish_send texts acc job k p s)"
| "managed_step texts acc s (MgTake k) =
     (case mg_queue s k of
        [] \<Rightarrow> s
      | p # ps \<Rightarrow> s\<lparr>mg_queue := (mg_queue s)(k := ps), mg_taken := (mg_taken s)(k := mg_taken s k @ [p])\<rparr>)"
| "managed_step texts acc s (MgGone k) = s\<lparr>mg_gone := insert k (mg_gone s), mg_queue := (mg_queue s)(k := [])\<rparr>"

fun managed_enabled :: "managed \<Rightarrow> managed_event \<Rightarrow> bool" where
  "managed_enabled s (MgEvent e) = (mg_pending s = None \<and> manage_enabled (mg_state s) e)"
| "managed_enabled s MgResume = (case mg_pending s of None \<Rightarrow> False | Some (_, k, _) \<Rightarrow> stdin_room s k)"
| "managed_enabled s (MgTake k) = (k \<notin> mg_gone s \<and> mg_queue s k \<noteq> [])"
| "managed_enabled s (MgGone k) = (k < ps_next (mg_state s) \<and> k \<notin> mg_gone s)"

subsection \<open>The manager below\<close>

text \<open>The commands the manager has carried out, with what the channels answered.\<close>

definition carried_out :: "managed \<Rightarrow> managed_event \<Rightarrow> process_event list" where
  "carried_out s ev =
     (case ev of
        MgEvent e \<Rightarrow>
          (case stdin_send (mg_state s) e of
             None \<Rightarrow> [e]
           | Some (job, k, p) \<Rightarrow>
               if stdin_room s k then [MpCommand (Some (Multiplexed job (PcStdin p))) (Ok ()) (k \<notin> mg_gone s)] else [])
      | MgResume \<Rightarrow>
          (case mg_pending s of
             None \<Rightarrow> []
           | Some (job, k, p) \<Rightarrow> [MpCommand (Some (Multiplexed job (PcStdin p))) (Ok ()) (k \<notin> mg_gone s)])
      | _ \<Rightarrow> [])"

lemma managed_step_state:
  "mg_state (managed_step texts acc s ev) = foldl (manage_step texts acc) (mg_state s) (carried_out s ev)"
  by (cases ev) (auto simp: carried_out_def finish_send_def deliver_def split: option.split list.split)

lemma stdin_send_Some: "stdin_send s e = Some (job, k, p) \<Longrightarrow>
    ps_stdin_senders s job = Some k \<and> (\<exists>sp r. e = MpCommand (Some (Multiplexed job (PcStdin p))) sp r)"
  by (cases "(s, e)" rule: stdin_send.cases) auto

lemma stdin_send_None: "stdin_send s e = None \<Longrightarrow> ps_stdin (manage_step texts acc s e) = ps_stdin s"
proof (cases "(texts, acc, s, e)" rule: manage_step.cases)
  case (2 texts' acc' s' job cmd spawned received)
  assume "stdin_send s e = None"
  with 2 show ?thesis
    by (cases cmd; cases spawned)
       (auto simp: process_start_err process_start_ok process_stdin_def process_stdin_close_def process_kill_def
         drop_guard_def split: option.splits)
qed (auto simp: process_stdin_close_def split: sum.split)

text \<open>While the loop waits its state does not change; each channel has what was sent and not taken yet.\<close>

definition managed_inv :: "managed \<Rightarrow> bool" where
  "managed_inv s \<longleftrightarrow>
     (\<forall>job k p. mg_pending s = Some (job, k, p) \<longrightarrow>
        ps_result (mg_state s) = None \<and> ps_stdin_senders (mg_state s) job = Some k) \<and>
     (\<forall>k. length (mg_queue s k) \<le> process_stdin_capacity \<and>
        (k \<notin> mg_gone s \<longrightarrow> stdin_of_channel k (mg_state s) = mg_taken s k @ mg_queue s k))"

lemma managed_start_inv: "managed_inv (managed_start p)"
  by (simp add: managed_inv_def managed_start_def stdin_of_channel_def process_state_new_def)

lemma finish_send_inv:
  assumes "managed_inv s" and "ps_stdin_senders (mg_state s) job = Some k" and "stdin_room s k"
  shows "managed_inv (finish_send texts acc job k p s)"
  using assms
  by (auto simp: managed_inv_def finish_send_def deliver_def process_stdin_def stdin_room_def stdin_of_channel_def)

lemma managed_step_inv:
  assumes "managed_inv s" and "managed_enabled s ev"
  shows "managed_inv (managed_step texts acc s ev)"
proof (cases ev)
  case (MgEvent e)
  then have en: "mg_pending s = None" "ps_result (mg_state s) = None" using assms(2) by (simp_all add: manage_enabled_def)
  show ?thesis
  proof (cases "stdin_send (mg_state s) e")
    case None
    then show ?thesis using assms(1) MgEvent en stdin_send_None [OF None, of texts acc]
      by (simp add: managed_inv_def stdin_of_channel_def)
  next
    case (Some t)
    obtain job k p where t: "t = (job, k, p)" by (cases t)
    have sender: "ps_stdin_senders (mg_state s) job = Some k" using stdin_send_Some Some t by blast
    show ?thesis
    proof (cases "stdin_room s k")
      case True
      then show ?thesis using finish_send_inv [OF assms(1) sender True] MgEvent Some t by simp
    next
      case False
      then show ?thesis using assms(1) MgEvent Some t en sender by (simp add: managed_inv_def)
    qed
  qed
next
  case MgResume
  then obtain job k p where "mg_pending s = Some (job, k, p)" "stdin_room s k"
    using assms(2) by (auto split: option.splits)
  then show ?thesis using finish_send_inv [of s job k texts acc p] assms(1) MgResume
    by (simp add: managed_inv_def)
next
  case (MgTake k)
  then obtain q qs where q: "mg_queue s k = q # qs" using assms(2) by (cases "mg_queue s k") auto
  have "length (mg_queue s k) \<le> process_stdin_capacity" using assms(1) by (simp add: managed_inv_def)
  then show ?thesis using assms MgTake q by (auto simp: managed_inv_def)
next
  case (MgGone k)
  then show ?thesis using assms(1) by (auto simp: managed_inv_def)
qed

interpretation mg: event_loop managed_enabled "managed_step texts acc" managed_inv for texts acc
  by unfold_locales (rule managed_step_inv)

fun carried :: "(process_error \<Rightarrow> string list) \<Rightarrow> (nat \<Rightarrow> bool) \<Rightarrow> managed \<Rightarrow> managed_event list \<Rightarrow> process_event list" where
  "carried texts acc s [] = []"
| "carried texts acc s (ev # es) = carried_out s ev @ carried texts acc (managed_step texts acc s ev) es"

lemma carried_out_enabled:
  assumes "managed_inv s" and "managed_enabled s ev"
  shows "enabled_run manage_enabled (manage_step texts acc) (mg_state s) (carried_out s ev)"
proof -
  have "ps_result (mg_state s) = None" if "carried_out s ev \<noteq> []"
    using that assms by (cases ev) (auto simp: carried_out_def managed_inv_def manage_enabled_def split: option.splits)
  moreover have "carried_out s ev = [] \<or> (\<exists>e. carried_out s ev = [e])"
    by (cases ev) (auto simp: carried_out_def split: option.splits)
  ultimately show ?thesis by (auto simp: manage_enabled_def)
qed

text \<open>The loop with bounded channels makes steps of \<open>manage_processes\<close> as \<open>Worker_Process\<close> has it.\<close>

theorem managed_refines:
  "managed_inv s \<Longrightarrow> enabled_run managed_enabled (managed_step texts acc) s es \<Longrightarrow>
   mg_state (foldl (managed_step texts acc) s es) = foldl (manage_step texts acc) (mg_state s) (carried texts acc s es) \<and>
   enabled_run manage_enabled (manage_step texts acc) (mg_state s) (carried texts acc s es)"
proof (induction es arbitrary: s)
  case (Cons ev es)
  then have en: "managed_enabled s ev" by simp
  from Cons.IH [OF managed_step_inv [OF Cons.prems(1) en]] Cons.prems(2) carried_out_enabled [OF Cons.prems(1) en]
  show ?case by (simp add: enabled_run_append managed_step_state)
qed simp

subsection \<open>A process that does not read\<close>

definition stuck_on :: "nat \<Rightarrow> managed \<Rightarrow> bool" where
  "stuck_on k s \<longleftrightarrow> (\<exists>job p. mg_pending s = Some (job, k, p)) \<and> k \<notin> mg_gone s \<and>
     length (mg_queue s k) = process_stdin_capacity"

lemma stuck_manager_step:
  assumes "stuck_on k s" and "managed_enabled s ev" and "ev \<noteq> MgTake k" and "ev \<noteq> MgGone k"
  shows "stuck_on k (managed_step texts acc s ev) \<and> mg_state (managed_step texts acc s ev) = mg_state s"
  using assms by (cases ev) (auto simp: stuck_on_def stdin_room_def split: list.split)

lemma stuck_run:
  "stuck_on k s \<Longrightarrow> enabled_run managed_enabled (managed_step texts acc) s es \<Longrightarrow> MgTake k \<notin> set es \<Longrightarrow> MgGone k \<notin> set es \<Longrightarrow>
   stuck_on k (foldl (managed_step texts acc) s es) \<and> mg_state (foldl (managed_step texts acc) s es) = mg_state s"
proof (induction es arbitrary: s)
  case (Cons ev es)
  then have "stuck_on k (managed_step texts acc s ev) \<and> mg_state (managed_step texts acc s ev) = mg_state s"
    by (intro stuck_manager_step) auto
  with Cons.IH [of "managed_step texts acc s ev"] Cons.prems show ?case by simp
qed simp

text \<open>C12: a process that does not read its stdin stops the worker. When eight packets wait for a process and
  another one arrives for it, then until the process reads or its stdin task ends, whatever else
  happens, the manager handles no command: no process is killed, not even this one, and none is
  started.\<close>

theorem unread_stdin_blocks_manager:
  assumes "managed_enabled s (MgEvent e)" and "stdin_send (mg_state s) e = Some (job, k, p)"
    and "k \<notin> mg_gone s" and "length (mg_queue s k) = process_stdin_capacity"
    and "enabled_run managed_enabled (managed_step texts acc) (managed_step texts acc s (MgEvent e)) es"
    and "MgTake k \<notin> set es" and "MgGone k \<notin> set es"
  defines "s' \<equiv> foldl (managed_step texts acc) (managed_step texts acc s (MgEvent e)) es"
  shows "mg_state s' = mg_state s \<and> \<not> managed_enabled s' (MgEvent e') \<and> \<not> managed_enabled s' MgResume"
proof -
  have "stuck_on k (managed_step texts acc s (MgEvent e))" "mg_state (managed_step texts acc s (MgEvent e)) = mg_state s"
    using assms(2-4) by (simp_all add: stuck_on_def stdin_room_def)
  with stuck_run [OF this(1) assms(5-7)] show ?thesis
    unfolding s'_def by (auto simp: stuck_on_def stdin_room_def)
qed

text \<open>A program that never reads, a client that sends nine packets, and a kill that is not carried out.\<close>

definition flood_start :: process_event where
  "flood_start = MpCommand (Some (Multiplexed 4 (PcStart (execute_command_simple ''cat'' [])))) (Ok ()) True"

definition flood_packet :: process_event where
  "flood_packet = MpCommand (Some (Multiplexed 4 (PcStdin ''y''))) (Ok ()) True"

definition flooded :: "nat \<Rightarrow> managed" where
  "flooded n = (managed_start ''/playground'')\<lparr>
     mg_state := (process_state_new ''/playground'')\<lparr>ps_stdin_senders := [4 \<mapsto> 0], ps_kill_tokens := [4 \<mapsto> 0], ps_next := 1,
       ps_started := [(4, 0)], ps_stdin := replicate n (0, ''y'')\<rparr>,
     mg_queue := (\<lambda>_. [])(0 := replicate n ''y'')\<rparr>"

lemma flooded_start: "managed_enabled (managed_start ''/playground'') (MgEvent flood_start) \<and>
    managed_step texts acc (managed_start ''/playground'') (MgEvent flood_start) = flooded 0"
  by (simp add: flood_start_def flooded_def managed_start_def process_start_ok process_state_new_def drop_guard_def
      manage_enabled_def fun_eq_iff)

lemma flooded_step: "n < 8 \<Longrightarrow> managed_enabled (flooded n) (MgEvent flood_packet) \<and>
    managed_step texts acc (flooded n) (MgEvent flood_packet) = flooded (Suc n)"
  by (simp add: flood_packet_def flooded_def managed_start_def process_state_new_def manage_enabled_def stdin_room_def
      process_stdin_capacity_def finish_send_def deliver_def process_stdin_def replicate_append_same)

lemma flooded_run: "n \<le> 8 \<Longrightarrow>
    enabled_run managed_enabled (managed_step texts acc) (managed_start ''/playground'') (MgEvent flood_start # replicate n (MgEvent flood_packet)) \<and>
    foldl (managed_step texts acc) (managed_start ''/playground'') (MgEvent flood_start # replicate n (MgEvent flood_packet)) = flooded n"
proof (induction n)
  case (Suc n)
  have "MgEvent flood_start # replicate (Suc n) (MgEvent flood_packet) =
      (MgEvent flood_start # replicate n (MgEvent flood_packet)) @ [MgEvent flood_packet]" by (simp add: replicate_append_same)
  then show ?case using Suc flooded_step [of n texts acc] by (simp only: enabled_run_append foldl_append) simp
qed (use flooded_start in simp)

theorem unread_stdin_blocks_manager_witness:
  "\<not> managed_enabled (managed_step (\<lambda>_. []) (\<lambda>_. True)
       (foldl (managed_step (\<lambda>_. []) (\<lambda>_. True)) (managed_start ''/playground'')
         (MgEvent flood_start # replicate 8 (MgEvent flood_packet))) (MgEvent flood_packet))
     (MgEvent (MpCommand (Some (Multiplexed 4 PcKill)) (Ok ()) True))"
proof -
  have s: "managed_enabled (flooded 8) (MgEvent flood_packet)" "stdin_send (mg_state (flooded 8)) flood_packet = Some (4, 0, ''y'')"
    "0 \<notin> mg_gone (flooded 8)" "length (mg_queue (flooded 8) 0) = process_stdin_capacity"
    by (simp_all add: flooded_def managed_start_def process_state_new_def manage_enabled_def flood_packet_def
        process_stdin_capacity_def)
  note flooded = flooded_run [OF order_refl, THEN conjunct2, of "\<lambda>_. []" "\<lambda>_. True"]
  show ?thesis
    unfolding flooded using unread_stdin_blocks_manager [OF s, of "\<lambda>_. []" "\<lambda>_. True" "[]"]
    by (simp del: managed_step.simps managed_enabled.simps)
qed

subsection \<open>A stream that fails\<close>

text \<open>
  \<open>process_end\<close> returns at the first stream task that fails, before it asks for the stdin of the job to be
  forgotten. Nothing else removes the sender, so the next packet for the job, which nobody receives any
  more, ends the manager with an error.
\<close>

lemma failed_stream_ends_wait:
  "list_all harmless pre \<Longrightarrow> stdio_check t = Err e \<Longrightarrow> wait_loop (pre @ PeStdioTask t # post) = Some (Err e)"
proof (induction pre)
  case (Cons x pre)
  then show ?case by (cases x) (auto simp: is_ok_iff stdio_check_def)
qed simp

lemma failed_stream_ends_process:
  assumes "list_all harmless pre" and "stdio_check t = Err e"
  shows "process_end (pre @ PeStdioTask t # post) shutdown_sent rest statistics = Some (Err e)"
  by (simp add: process_end_def failed_stream_ends_wait [OF assms])

lemma stale_stdin_ends_manager:
  assumes "manage_inv s" and "ps_stdin_senders s j = Some k" and "\<forall>x \<in> set es. \<not> starts j x \<and> \<not> closes j x"
  shows "ps_result (manage_step texts acc (foldl (manage_step texts acc) s es)
      (MpCommand (Some (Multiplexed j (PcStdin p))) sp False)) = Some (Err (UnableToSendStdinData ()))"
proof -
  have "ps_stdin_senders (foldl (manage_step texts acc) s es) j = Some k"
    using assms
  proof (induction es arbitrary: s)
    case (Cons x es)
    then have "ps_stdin_senders (manage_step texts acc s x) j = Some k"
      using channel_step [of s j k x texts acc] by simp
    with Cons.IH [OF manage_step_inv [OF Cons.prems(1)]] Cons.prems(3) show ?case by simp
  qed simp
  then show ?thesis by (simp add: process_stdin_def)
qed

end
