(* ===== verification/Remote_Process.thy ===== *)
theory Remote_Process
  imports Io_Queue
begin

text \<open>
  One process from end to end, \<open>worker.rs\<close> and \<open>coordinator.rs\<close> together: what its tasks send in the
  worker, through the pipe, the input task, the demultiplexer and the cargo task to the caller, and
  what the caller types on the way back to the stdin of the process.
\<close>

subsection \<open>The tasks of a process\<close>

text \<open>
  \<open>stream_stdio\<close> starts three tasks: one feeds the stdin of the child, two copy its outputs. Given the
  packets with the answers of the stdin, and the two pipes, this is how they end, what the child
  reads and what the copies send. There is no value when the fuel of a copy runs out.
\<close>

record 'r child_io =
  ci_stdin :: "(string \<times> (io_error, unit) result \<times> (io_error, unit) result) list"
  ci_stdout :: 'r
  ci_stderr :: 'r

record stdio_tasks =
  st_outcomes :: "(stdio_error, unit) result list"
  st_stdin :: bytes
  st_stdout :: worker_log
  st_stderr :: worker_log

definition stream_stdio :: "nat \<Rightarrow> 'r async_read \<Rightarrow> job_id \<Rightarrow> 'r child_io \<Rightarrow> stdio_tasks option" where
  "stream_stdio fuel rd job io =
     (case stdin_task (ci_stdin io) [] of
        (fed, written) \<Rightarrow>
          (case copy_child_output fuel rd (\<lambda>_. True) job WmStdoutPacket (ci_stdout io) [] of
             None \<Rightarrow> None
           | Some (out, out_end) \<Rightarrow>
               (case copy_child_output fuel rd (\<lambda>_. True) job WmStderrPacket (ci_stderr io) [] of
                  None \<Rightarrow> None
                | Some (err, err_end) \<Rightarrow>
                    Some \<lparr>st_outcomes = [fed, map_err CopyStdout out_end, map_err CopyStderr err_end],
                      st_stdin = written, st_stdout = out, st_stderr = err\<rparr>)))"

text \<open>The stream tasks that \<open>process_end\<close> sees end while it waits for the process.\<close>

fun joined_tasks :: "wait_event list \<Rightarrow> stdio_outcome list" where
  "joined_tasks [] = []"
| "joined_tasks (PeCancelled _ # es) = joined_tasks es"
| "joined_tasks (PeExited _ # es) = []"
| "joined_tasks (PeStdioTask t # es) = t # joined_tasks es"

record process_ending =
  pe_events :: "wait_event list"
  pe_shutdown_sent :: bool
  pe_rest :: "stdio_outcome list"
  pe_statistics :: "(join_error, (command_statistics_error, unit) result) result"

definition process_outcome :: "process_ending \<Rightarrow> (process_error, execute_command_response) result option" where
  "process_outcome p = process_end (pe_events p) (pe_shutdown_sent p) (pe_rest p) (pe_statistics p)"

text \<open>
  The messages of a job whose process was started and whose three stream tasks ended: those of the
  copies and of the statistics in any interleaving, and what \<open>process_end\<close> returned as the last one.
\<close>

definition job_log ::
    "nat \<Rightarrow> 'r async_read \<Rightarrow> (process_error \<Rightarrow> string list) \<Rightarrow> job_id \<Rightarrow> 'r child_io \<Rightarrow>
     command_statistics option list \<Rightarrow> process_ending \<Rightarrow> worker_log \<Rightarrow> bool" where
  "job_log fuel rd texts job io readings ending msgs =
     (case (stream_stdio fuel rd job io, process_outcome ending) of
        (Some st, Some r) \<Rightarrow>
          mset (joined_tasks (pe_events ending) @ pe_rest ending) = mset (map Ok (st_outcomes st)) \<and>
          msgs \<noteq> [] \<and> last msgs = Multiplexed job (reply WmExecuteCommand texts r) \<and>
          (\<exists>streams \<in> shuffles (st_stdout st) (st_stderr st).
             butlast msgs \<in> shuffles streams (statistics_loop (\<lambda>_. True) job readings []))
      | _ \<Rightarrow> False)"

subsection \<open>What a finished job has sent\<close>

lemma copied_all:
  assumes "delivers rd r c" and "length c < fuel"
    and "copy_child_output fuel rd (\<lambda>_. True) job xform r [] = Some (out, Ok u)"
  shows "\<exists>ss. out = packets job xform ss \<and> concat ss = c \<and> [] \<notin> set ss"
proof -
  from copy_child_output_delivers [OF assms(1,2), of "\<lambda>_. True" job xform "[]"] assms(3)
  obtain ss where "concat ss = take (valid_up_to c) c" "out = packets job xform ss" "Ok u = stream_end c" "[] \<notin> set ss"
    unfolding copy_delivers_def by (auto split: if_splits)
  then show ?thesis by (auto simp: stream_end_def utf8_valid_def split: if_splits)
qed

text \<open>A message the second list has nothing of keeps its place in the first.\<close>

lemma shuffles_select:
  "zs \<in> shuffles xs ys \<Longrightarrow> \<forall>y \<in> set ys. f y = [] \<Longrightarrow> concat (map f zs) = concat (map f xs)"
  by (induction xs ys arbitrary: zs rule: shuffles.induct) (auto simp: Cons_in_shuffles_iff)

definition readings_until_gone :: "command_statistics option list \<Rightarrow> command_statistics list" where
  "readings_until_gone readings = map the (takeWhile (\<lambda>r. r \<noteq> None) readings)"

lemma statistics_loop_sent:
  "statistics_loop (\<lambda>_. True) job readings sent =
     sent @ map (\<lambda>s. Multiplexed job (WmCommandStatistics s)) (readings_until_gone readings)"
  by (induction readings arbitrary: sent)
     (auto simp: readings_until_gone_def send_ok_def send_raw_def split: option.split)

lemma joined_tasks_before_exit: "list_all harmless pre \<Longrightarrow> list_all (\<lambda>t. t = Ok (Ok ())) (joined_tasks (pre @ PeExited x # post))"
  by (induction pre rule: joined_tasks.induct) simp_all

lemma process_outcome_tasks:
  assumes "process_outcome ending = Some (Ok resp)"
  shows "list_all (\<lambda>t. t = Ok (Ok ())) (joined_tasks (pe_events ending) @ pe_rest ending)"
  using assms joined_tasks_before_exit
  by (auto simp: process_outcome_def process_end_Ok wait_loop_Ok)

text \<open>When a process is reported as finished, all three stream tasks ended without an error.\<close>

lemma job_log_streams:
  assumes "job_log fuel rd texts job io readings ending msgs" and "process_outcome ending = Some (Ok resp)"
    and "delivers rd (ci_stdout io) out" "length out < fuel"
    and "delivers rd (ci_stderr io) err" "length err < fuel"
  obtains os es streams where "concat os = out" and "concat es = err"
    and "streams \<in> shuffles (packets job WmStdoutPacket os) (packets job WmStderrPacket es)"
    and "butlast msgs \<in> shuffles streams (map (\<lambda>s. Multiplexed job (WmCommandStatistics s)) (readings_until_gone readings))"
    and "msgs \<noteq> []" and "last msgs = Multiplexed job (WmExecuteCommand resp)"
proof -
  from assms(1,2) obtain st streams where st: "stream_stdio fuel rd job io = Some st"
    "mset (joined_tasks (pe_events ending) @ pe_rest ending) = mset (map Ok (st_outcomes st))"
    "streams \<in> shuffles (st_stdout st) (st_stderr st)"
    "butlast msgs \<in> shuffles streams (statistics_loop (\<lambda>_. True) job readings [])"
    and last: "msgs \<noteq> []" "last msgs = Multiplexed job (WmExecuteCommand resp)"
    by (auto simp: job_log_def reply_def split: option.splits)
  have "list_all (\<lambda>t. t = Ok (Ok ())) (map Ok (st_outcomes st) :: stdio_outcome list)"
    using process_outcome_tasks [OF assms(2)] mset_eq_setD [OF st(2)] by (simp only: list_all_iff)
  then have oks: "\<forall>t \<in> set (st_outcomes st). t = Ok ()" by (auto simp: list_all_iff)
  from st(1) oks have
    "copy_child_output fuel rd (\<lambda>_. True) job WmStdoutPacket (ci_stdout io) [] = Some (st_stdout st, Ok ())"
    "copy_child_output fuel rd (\<lambda>_. True) job WmStderrPacket (ci_stderr io) [] = Some (st_stderr st, Ok ())"
    by (auto simp: stream_stdio_def split: prod.splits option.splits)
  with copied_all assms(3-6) obtain os es where "st_stdout st = packets job WmStdoutPacket os" "concat os = out"
    "st_stderr st = packets job WmStderrPacket es" "concat es = err" by metis
  then show thesis using st(3,4) last that by (simp add: statistics_loop_sent)
qed

lemma shuffles_select_second:
  "zs \<in> shuffles xs ys \<Longrightarrow> \<forall>x \<in> set xs. f x = [] \<Longrightarrow> concat (map f zs) = concat (map f ys)"
  using shuffles_select [of zs ys xs f] by (simp add: shuffles_commutes)

lemma job_log_finished:
  assumes "job_log fuel rd texts job io readings ending msgs" and "process_outcome ending = Some (Ok resp)"
    and "delivers rd (ci_stdout io) out" "length out < fuel"
    and "delivers rd (ci_stderr io) err" "length err < fuel"
  shows "concat (concat (map stdout_of (map mx_body msgs))) = out"
    and "concat (concat (map stderr_of (map mx_body msgs))) = err"
    and "concat (map status_of (map mx_body msgs)) = readings_until_gone readings"
proof -
  let ?stats = "map (\<lambda>s. Multiplexed job (WmCommandStatistics s)) (readings_until_gone readings)"
  from job_log_streams [OF assms] obtain os es streams where streams: "concat os = out" "concat es = err"
    "streams \<in> shuffles (packets job WmStdoutPacket os) (packets job WmStderrPacket es)"
    "butlast msgs \<in> shuffles streams ?stats"
    "msgs \<noteq> []" "last msgs = Multiplexed job (WmExecuteCommand resp)" by metis
  have split: "msgs = butlast msgs @ [Multiplexed job (WmExecuteCommand resp)]"
    using streams(5,6) append_butlast_last_id by metis
  note first = shuffles_select [OF streams(4)] shuffles_select [OF streams(3)]
    and second = shuffles_select_second [OF streams(4)] shuffles_select_second [OF streams(3)]
  have set_streams: "set streams = set (packets job WmStdoutPacket os) \<union> set (packets job WmStderrPacket es)"
    using streams(3) by (rule set_shuffles)
  have "concat (map (\<lambda>m. stdout_of (mx_body m)) (butlast msgs)) = os"
    using first [of "\<lambda>m. stdout_of (mx_body m)"] by (simp add: comp_def)
  moreover have "concat (map (\<lambda>m. stderr_of (mx_body m)) (butlast msgs)) = es"
    using first(1) [of "\<lambda>m. stderr_of (mx_body m)"] second(2) [of "\<lambda>m. stderr_of (mx_body m)"] by (simp add: comp_def)
  moreover have "concat (map (\<lambda>m. status_of (mx_body m)) (butlast msgs)) = readings_until_gone readings"
    using second(1) [of "\<lambda>m. status_of (mx_body m)"] by (simp add: comp_def set_streams ball_Un)
  ultimately show "concat (concat (map stdout_of (map mx_body msgs))) = out"
    "concat (concat (map stderr_of (map mx_body msgs))) = err"
    "concat (map status_of (map mx_body msgs)) = readings_until_gone readings"
    using streams(1,2) by (subst split; simp add: comp_def)+
qed

text \<open>Whether or not the process ended well, the copies and the statistics never send a response.\<close>

lemma copied_packets:
  assumes "delivers rd r c" and "length c < fuel"
    and "copy_child_output fuel rd (\<lambda>_. True) job xform r [] = Some (out, e)"
  shows "\<exists>ss. out = packets job xform ss"
  using copy_child_output_delivers [OF assms(1,2), of "\<lambda>_. True" job xform "[]"] assms(3)
  unfolding copy_delivers_def by (auto split: if_splits)

lemma job_log_shape:
  assumes "job_log fuel rd texts job io readings ending msgs"
    and "delivers rd (ci_stdout io) out" "length out < fuel"
    and "delivers rd (ci_stderr io) err" "length err < fuel"
  obtains r where "process_outcome ending = Some r"
    and "msgs = butlast msgs @ [Multiplexed job (reply WmExecuteCommand texts r)]"
    and "\<forall>m \<in> set (butlast msgs). final_result (mx_body m) = None"
proof -
  from assms(1) obtain st streams r where st: "stream_stdio fuel rd job io = Some st"
    "streams \<in> shuffles (st_stdout st) (st_stderr st)"
    "butlast msgs \<in> shuffles streams (statistics_loop (\<lambda>_. True) job readings [])"
    and r: "process_outcome ending = Some r" "msgs \<noteq> []" "last msgs = Multiplexed job (reply WmExecuteCommand texts r)"
    by (auto simp: job_log_def split: option.splits)
  from st(1) obtain oe ee where
    "copy_child_output fuel rd (\<lambda>_. True) job WmStdoutPacket (ci_stdout io) [] = Some (st_stdout st, oe)"
    "copy_child_output fuel rd (\<lambda>_. True) job WmStderrPacket (ci_stderr io) [] = Some (st_stderr st, ee)"
    by (auto simp: stream_stdio_def split: prod.splits option.splits)
  with copied_packets assms(2-5) obtain os es where "st_stdout st = packets job WmStdoutPacket os"
    "st_stderr st = packets job WmStderrPacket es" by metis
  then have "\<forall>m \<in> set (butlast msgs). final_result (mx_body m) = None"
    using set_shuffles [OF st(2)] set_shuffles [OF st(3)] by (auto simp: statistics_loop_sent)
  moreover have "msgs = butlast msgs @ [Multiplexed job (reply WmExecuteCommand texts r)]"
    using r(2,3) append_butlast_last_id by metis
  ultimately show thesis using r(1) that by blast
qed

lemma prefix_to_last: "prefix h (bs @ [l]) \<Longrightarrow> x \<in> set h \<Longrightarrow> x \<notin> set bs \<Longrightarrow> h = bs @ [l] \<and> x = l"
  by (auto simp: prefix_snoc dest: set_mono_prefix)

text \<open>The response is the last message of the job; who has heard it has heard them all.\<close>

lemma job_log_response:
  assumes "job_log fuel rd texts job io readings ending msgs"
    and "delivers rd (ci_stdout io) out" "length out < fuel" "delivers rd (ci_stderr io) err" "length err < fuel"
    and "prefix heard (map mx_body msgs)" and "WmExecuteCommand resp \<in> set heard"
  shows "heard = map mx_body msgs \<and> process_outcome ending = Some (Ok resp)"
proof -
  from job_log_shape [OF assms(1-5)] obtain r where r: "process_outcome ending = Some r"
    "msgs = butlast msgs @ [Multiplexed job (reply WmExecuteCommand texts r)]"
    "\<forall>m \<in> set (butlast msgs). final_result (mx_body m) = None" by blast
  have bodies: "map mx_body msgs = map mx_body (butlast msgs) @ [reply WmExecuteCommand texts r]"
    by (subst r(2)) simp
  have other: "WmExecuteCommand resp \<notin> set (map mx_body (butlast msgs))"
  proof
    assume "WmExecuteCommand resp \<in> set (map mx_body (butlast msgs))"
    then obtain m where "m \<in> set (butlast msgs)" "mx_body m = WmExecuteCommand resp" unfolding set_map by force
    with r(3) show False by (metis final_result.simps(1) option.distinct(1))
  qed
  from prefix_to_last [OF assms(6) [unfolded bodies] assms(7) other]
  have "heard = map mx_body msgs" "WmExecuteCommand resp = reply WmExecuteCommand texts r" by (simp_all only: bodies)
  then show ?thesis using r(1) by (auto simp: reply_def split: sum.splits)
qed

subsection \<open>From the worker to the caller\<close>

text \<open>What the demultiplexer is given from the worker.\<close>

fun from_worker :: "'c demux_event \<Rightarrow> worker_message multiplexed list" where
  "from_worker (DxFromWorker (Some m)) = [m]"
| "from_worker _ = []"

lemma job_message_from_worker: "job_message j e = map mx_body (filter (\<lambda>m. mx_job m = j) (from_worker e))"
  by (cases "(j, e)" rule: job_message.cases) auto

lemma job_messages_from_worker:
  "job_messages j es = map mx_body (filter (\<lambda>m. mx_job m = j) (concat (map from_worker es)))"
  by (induction es) (simp_all add: job_messages_def job_message_from_worker)

text \<open>A final message ends the cargo task, and its last event was that message.\<close>

lemma cargo_run_final:
  assumes "enabled_run (cargo_enabled gone) cargo_step cargo_start es"
    and "m \<in> set (worker_events es)" and "final_result m = Some r"
  shows "ct_result (foldl cargo_step cargo_start es) = Some r"
proof -
  from assms(2) obtain e where e: "e \<in> set es" "m \<in> set (worker_event e)" by (auto simp: worker_events_def)
  have "e = CtFromWorker m" using e(2) by (cases e) auto
  then obtain xs ys where es: "es = xs @ CtFromWorker m # ys" using e(1) by (metis split_list)
  let ?s = "cargo_step (foldl cargo_step cargo_start xs) (CtFromWorker m)"
  have r: "ct_result ?s = Some r" using assms(3) unfolding cargo_step_worker by simp
  have "enabled_run (cargo_enabled gone) cargo_step ?s ys"
    using assms(1) by (simp add: es enabled_run_append)
  then have "ys = []" using r by (cases "(gone, ?s, hd ys)" rule: cargo_enabled.cases; cases ys) auto
  with es r show ?thesis by simp
qed

text \<open>
  How the messages get to the caller: the worker writes its messages \<open>ms\<close> to the pipe, which is read
  up to \<open>n\<close> bytes; the demultiplexer has been given some of those that arrived and the listener of the
  job took some of what it was sent. Nothing arrives for a job before somebody listens to it, since
  the request is sent after that.
\<close>

definition relayed_to ::
    "worker_message multiplexed encoder \<Rightarrow> worker_message multiplexed decoder \<Rightarrow> nat \<Rightarrow> 'c \<Rightarrow>
     worker_message multiplexed list \<Rightarrow> 'c demux_event list \<Rightarrow> worker_message list \<Rightarrow> bool" where
  "relayed_to ser de n c ms events heard =
     (case coordinator_queue_input (\<lambda>_. []) de (\<lambda>_. True)
             (take n (snd (worker_queue_output ser (map (\<lambda>m. OutMessage m (Ok ())) ms @ [OutClosed]) []))) of
        None \<Rightarrow> False
      | Some (_, received) \<Rightarrow>
          prefix (concat (map from_worker events)) received \<and>
          prefix heard (sent_to c (foldl demux_step demux_start events)))"

lemma relayed_received:
  assumes "relayed_to ser de n c ms events heard" and "wire_laws ser de" "list_all (\<lambda>m. is_ok (ser m)) ms"
  shows "prefix (concat (map from_worker events)) ms"
    and "prefix heard (sent_to c (foldl demux_step demux_start events))"
proof -
  have "coordinator_queue_input (\<lambda>_. []) de (\<lambda>_. True)
      (take n (snd (worker_queue_output ser (map (\<lambda>m. OutMessage m (Ok ())) ms @ [OutClosed]) []))) =
      Some (Ok (), complete_within ser n ms)"
    unfolding coordinator_queue_input_def
    by (simp add: worker_output_frames [OF assms(3)] queue_input_frames [OF assms(2,3)])
  with assms(1) have "prefix (concat (map from_worker events)) (complete_within ser n ms)"
    and "prefix heard (sent_to c (foldl demux_step demux_start events))" by (simp_all add: relayed_to_def)
  moreover obtain k where "complete_within ser n ms = take k ms" using complete_within_prefix by blast
  ultimately show "prefix (concat (map from_worker events)) ms"
    "prefix heard (sent_to c (foldl demux_step demux_start events))"
    by (auto simp: prefix_def take_is_prefix) (metis append.assoc append_take_drop_id)
qed

text \<open>The listener of a job hears a first part of what the worker has sent for it.\<close>

lemma listener_hears:
  assumes "relayed_to ser de n c ms (pre @ DxCommand (Some (Listen j c)) # post) heard"
    and "wire_laws ser de" "list_all (\<lambda>m. is_ok (ser m)) ms"
    and "demux_run_ok counter k (pre @ DxCommand (Some (Listen j c)) # post)"
    and "list_all (\<lambda>e. \<not> collects c e) post" and "job_messages j pre = []"
  shows "prefix heard (map mx_body (filter (\<lambda>m. mx_job m = j) ms))"
proof -
  let ?es = "pre @ DxCommand (Some (Listen j c)) # post"
  have "sent_to c (foldl demux_step demux_start ?es) = job_messages j post"
    using demux_routing [OF assms(4) _ assms(5)] by simp
  also have "\<dots> = job_messages j ?es" using assms(6) by (simp add: job_messages_def)
  also have "\<dots> = map mx_body (filter (\<lambda>m. mx_job m = j) (concat (map from_worker ?es)))"
    by (rule job_messages_from_worker)
  finally have sent: "sent_to c (foldl demux_step demux_start ?es) = \<dots>" .
  have "prefix (map mx_body (filter (\<lambda>m. mx_job m = j) (concat (map from_worker ?es))))
      (map mx_body (filter (\<lambda>m. mx_job m = j) ms))"
    by (intro map_mono_prefix filter_mono_prefix relayed_received(1) [OF assms(1-3)])
  then show ?thesis using prefix_order.trans [OF relayed_received(2) [OF assms(1-3), unfolded sent]] by blast
qed

text \<open>C2: what a process prints is what the caller reads. The request succeeds exactly when the caller's task was
  given every message of the job and the process was reported as finished; and then the caller has
  received on each stream exactly the bytes the process wrote there, and the statistics up to the first
  reading that found no process. This holds for every way the reads of the worker are cut and its tasks
  interleave, wherever the pipe is cut, whatever other jobs send and other listeners do, and in whatever
  order the caller's task serves its channels.\<close>

theorem child_output_reaches_caller:
  assumes "job_log fuel rd texts j io readings ending (filter (\<lambda>m. mx_job m = j) ms)"
    and "delivers rd (ci_stdout io) out" "length out < fuel"
    and "delivers rd (ci_stderr io) err" "length err < fuel"
    and "wire_laws ser de" "list_all (\<lambda>m. is_ok (ser m)) ms"
    and "demux_run_ok counter k (pre @ DxCommand (Some (Listen j c)) # post)"
    and "list_all (\<lambda>e. \<not> collects c e) post" "job_messages j pre = []"
    and "relayed_to ser de n c ms (pre @ DxCommand (Some (Listen j c)) # post) (worker_events es)"
    and "enabled_run (cargo_enabled gone) cargo_step cargo_start es"
  defines "s \<equiv> foldl cargo_step cargo_start es"
  shows "(ct_result s = Some (Ok resp) \<longleftrightarrow>
      worker_events es = map mx_body (filter (\<lambda>m. mx_job m = j) ms) \<and> process_outcome ending = Some (Ok resp)) \<and>
    (ct_result s = Some (Ok resp) \<longrightarrow>
      concat (ct_stdout s) = out \<and> concat (ct_stderr s) = err \<and> ct_status s = readings_until_gone readings)"
proof -
  let ?log = "filter (\<lambda>m. mx_job m = j) ms"
  have heard: "prefix (worker_events es) (map mx_body ?log)" by (rule listener_hears [OF assms(11,6-10)])
  have all: "worker_events es = map mx_body ?log \<and> process_outcome ending = Some (Ok resp)"
    if "ct_result s = Some (Ok resp)"
  proof -
    have "\<exists>es'. es = es' @ [CtFromWorker (WmExecuteCommand resp)]"
      using cargo_run_result [OF assms(12), of resp] that unfolding s_def by blast
    then have "WmExecuteCommand resp \<in> set (worker_events es)" by (auto simp: worker_events_def)
    then show ?thesis by (rule job_log_response [OF assms(1-5) heard])
  qed
  have ends: "ct_result s = Some (Ok resp)"
    if "worker_events es = map mx_body ?log" "process_outcome ending = Some (Ok resp)"
  proof -
    from job_log_streams [OF assms(1) that(2) assms(2-5)]
    have last: "?log \<noteq> []" "last ?log = Multiplexed j (WmExecuteCommand resp)" by blast+
    have "mx_body (last ?log) \<in> set (map mx_body ?log)"
      unfolding set_map by (rule imageI) (rule last_in_set [OF last(1)])
    then have "WmExecuteCommand resp \<in> set (map mx_body ?log)" unfolding last(2) by simp
    then show ?thesis using cargo_run_final [OF assms(12), of "WmExecuteCommand resp"] that(1) unfolding s_def by simp
  qed
  have "concat (ct_stdout s) = out \<and> concat (ct_stderr s) = err \<and> ct_status s = readings_until_gone readings"
    if "ct_result s = Some (Ok resp)"
    using job_log_finished [OF assms(1) _ assms(2-5)] all [OF that] unfolding s_def
    by (simp add: cargo_run_streams) (simp add: cargo_start_def)
  with all ends show ?thesis by blast
qed

text \<open>A wire format for the witnesses: a message of a table is sent as its place in it.\<close>

definition table_ser :: "'m list \<Rightarrow> 'm encoder" where
  "table_ser t m =
     (case find (\<lambda>i. t ! i = m) [0..<length t] of None \<Rightarrow> Err (BinOther ''unknown'') | Some i \<Rightarrow> Ok [char_of i])"

definition table_de :: "'m list \<Rightarrow> 'm decoder" where
  "table_de t s =
     (case s of [] \<Rightarrow> Err (BinIo IoUnexpectedEof)
      | c # rest \<Rightarrow> if of_char c < length t then Ok (t ! of_char c, rest) else Err (BinOther ''unknown''))"

lemma table_laws: "length t \<le> 256 \<Longrightarrow> wire_laws (table_ser t) (table_de t)"
  by (auto simp: wire_laws_def table_ser_def table_de_def find_Some_iff split: option.splits)

lemma table_total: "set ms \<subseteq> set t \<Longrightarrow> list_all (\<lambda>m. is_ok (table_ser t m)) ms"
proof -
  have "is_ok (table_ser t m)" if "m \<in> set t" for m
  proof -
    have "find (\<lambda>i. t ! i = m) [0..<length t] \<noteq> None" using that by (auto simp: find_None_iff in_set_conv_nth)
    then show ?thesis by (auto simp: table_ser_def)
  qed
  then show "set ms \<subseteq> set t \<Longrightarrow> list_all (\<lambda>m. is_ok (table_ser t m)) ms" by (auto simp: list_all_iff)
qed

text \<open>A process that prints one letter while another job prints as well.\<close>

definition sample_io :: "bytes list child_io" where
  "sample_io = \<lparr>ci_stdin = [], ci_stdout = [''h''], ci_stderr = []\<rparr>"

definition sample_ending :: process_ending where
  "sample_ending = \<lparr>pe_events = [PeStdioTask (Ok (Ok ())), PeExited (Ok (Exited 0))], pe_shutdown_sent = True,
     pe_rest = [Ok (Ok ()), Ok (Ok ())], pe_statistics = Ok (Ok ())\<rparr>"

definition sample_resp :: execute_command_response where
  "sample_resp = \<lparr>ecr_success = True, ecr_exit_detail = extract_exit_detail (Exited 0)\<rparr>"

definition sample_msgs :: worker_log where
  "sample_msgs = [Multiplexed 0 (WmStdoutPacket ''h''), Multiplexed 1 (WmStdoutPacket ''other''),
     Multiplexed 0 (WmExecuteCommand sample_resp)]"

lemma sample_outcome: "process_outcome sample_ending = Some (Ok sample_resp)"
  by (simp add: process_outcome_def sample_ending_def sample_resp_def process_end_def stdio_check_def status_success_def)

lemma single_packet: "concat ss = [c] \<Longrightarrow> [] \<notin> set ss \<Longrightarrow> ss = [[c]]"
  by (cases ss) (auto simp: append_eq_Cons_conv, metis list.set_intros(1) neq_Nil_conv)

lemma sample_delivers: "delivers piece_reader [''h''] ''h''" "delivers piece_reader [] []"
  using delivers_pieces [of "[''h'']"] delivers_pieces [of "[]"] by simp_all

lemma sample_copied:
  "copy_child_output 2 piece_reader (\<lambda>_. True) 0 WmStdoutPacket [''h''] [] = Some ([Multiplexed 0 (WmStdoutPacket ''h'')], Ok ())"
  "copy_child_output 2 piece_reader (\<lambda>_. True) 0 WmStderrPacket [] [] = Some ([], Ok ())"
proof -
  have h: "utf8_valid ''h''" by (rule utf8_valid_ascii) (simp add: byte_def)
  then have v: "valid_up_to ''h'' = 1" "stream_end ''h'' = Ok ()" by (simp_all add: utf8_valid_def stream_end_def)
  obtain ss where "concat ss = ''h''" "[] \<notin> set ss"
    and out: "copy_child_output 2 piece_reader (\<lambda>_. True) 0 WmStdoutPacket [''h''] [] = Some (packets 0 WmStdoutPacket ss, Ok ())"
    using copy_child_output_delivers [OF sample_delivers(1), of 2 "\<lambda>_. True" 0 WmStdoutPacket "[]"] v
    by (auto simp: copy_delivers_def output_byte_limit_def)
  then have "ss = [''h'']" by (simp add: single_packet)
  with out show "copy_child_output 2 piece_reader (\<lambda>_. True) 0 WmStdoutPacket [''h''] [] =
      Some ([Multiplexed 0 (WmStdoutPacket ''h'')], Ok ())" by simp
  have "stream_end [] = Ok ()" by (simp add: stream_end_def)
  then obtain es where "concat es = []" "[] \<notin> set es"
    and err: "copy_child_output 2 piece_reader (\<lambda>_. True) 0 WmStderrPacket [] [] = Some (packets 0 WmStderrPacket es, Ok ())"
    using copy_child_output_delivers [OF sample_delivers(2), of 2 "\<lambda>_. True" 0 WmStderrPacket "[]"]
    by (auto simp: copy_delivers_def)
  then have "es = []" by (cases es) auto
  with err show "copy_child_output 2 piece_reader (\<lambda>_. True) 0 WmStderrPacket [] [] = Some ([], Ok ())" by simp
qed

lemma sample_job_log:
  "job_log 2 piece_reader (\<lambda>_. []) 0 sample_io [None] sample_ending (filter (\<lambda>m. mx_job m = 0) sample_msgs)"
proof -
  have "stream_stdio 2 piece_reader 0 sample_io = Some \<lparr>st_outcomes = [Ok (), Ok (), Ok ()], st_stdin = [],
      st_stdout = [Multiplexed 0 (WmStdoutPacket ''h'')], st_stderr = []\<rparr>"
    by (simp add: stream_stdio_def sample_io_def sample_copied)
  then show ?thesis
    by (simp add: job_log_def sample_outcome sample_msgs_def reply_def) (simp add: sample_ending_def)
qed

definition sample_commands :: "nat demux_event list" where
  "sample_commands = [] @ DxCommand (Some (Listen 0 5)) # map (\<lambda>m. DxFromWorker (Some m)) sample_msgs"

definition sample_taken :: "cargo_event list" where
  "sample_taken = [CtFromWorker (WmStdoutPacket ''h''), CtFromWorker (WmExecuteCommand sample_resp)]"

lemma sample_frames: "length (frames (table_ser sample_msgs) sample_msgs) = 3"
  by (simp add: frames_def table_ser_def sample_msgs_def eval_nat_numeral)

lemma sample_relayed: "relayed_to (table_ser sample_msgs) (table_de sample_msgs) 3 5 sample_msgs sample_commands (worker_events sample_taken)"
proof -
  have laws: "wire_laws (table_ser sample_msgs) (table_de sample_msgs)" by (rule table_laws) (simp add: sample_msgs_def)
  have total: "list_all (\<lambda>m. is_ok (table_ser sample_msgs m)) sample_msgs" by (rule table_total) simp
  have input: "queue_input (table_de sample_msgs) a b (\<lambda>_. True) [] (frames (table_ser sample_msgs) sample_msgs) =
      Some (Ok (), sample_msgs)" for a and b :: coordinator_error
    using queue_input_frames [OF laws total, of a b "[]" 3] complete_within_all [OF total, of 3] by (simp add: sample_frames)
  have "concat (map from_worker sample_commands) = sample_msgs" by (simp add: sample_commands_def sample_msgs_def)
  moreover have "sent_to 5 (foldl demux_step demux_start sample_commands) = worker_events sample_taken"
    by (simp add: sample_commands_def sample_msgs_def demux_start_def sent_to_def sample_taken_def worker_events_def)
  ultimately show ?thesis
    by (simp add: relayed_to_def coordinator_queue_input_def worker_output_frames [OF total] input sample_frames)
qed

theorem child_output_reaches_caller_witness:
  "concat (ct_stdout (foldl cargo_step cargo_start sample_taken)) = ''h'' \<and>
   process_outcome sample_ending = Some (Ok sample_resp)"
proof -
  let ?post = "map (\<lambda>m. DxFromWorker (Some m)) sample_msgs :: nat demux_event list"
  have demux: "demux_run_ok 0 1 ([] @ DxCommand (Some (Listen 0 5)) # ?post)"
    by (simp add: demux_run_ok_def demux_enabled_def sample_msgs_def demux_start_def registered_jobs_def
        registered_channels_def next_id_def)
  have run: "enabled_run (cargo_enabled False) cargo_step cargo_start sample_taken"
    by (simp add: sample_taken_def cargo_start_def)
  have laws: "wire_laws (table_ser sample_msgs) (table_de sample_msgs)" by (rule table_laws) (simp add: sample_msgs_def)
  have total: "list_all (\<lambda>m. is_ok (table_ser sample_msgs m)) sample_msgs" by (rule table_total) simp
  have fuel: "length ''h'' < 2" "length ([] :: bytes) < 2" by simp_all
  have pipes: "delivers piece_reader (ci_stdout sample_io) ''h''" "delivers piece_reader (ci_stderr sample_io) []"
    using sample_delivers by (simp_all add: sample_io_def)
  have post: "list_all (\<lambda>e. \<not> collects 5 e) ?post" "job_messages 0 ([] :: nat demux_event list) = []"
    by (simp_all add: sample_msgs_def job_messages_def)
  show ?thesis
    using child_output_reaches_caller [OF sample_job_log pipes(1) fuel(1) pipes(2) fuel(2) laws total demux post
        sample_relayed [unfolded sample_commands_def] run, of sample_resp]
    by (simp add: sample_outcome sample_msgs_def) (simp add: sample_taken_def worker_events_def)
qed

end
