(* ===== verification/Remote_Input.thy ===== *)
theory Remote_Input
  imports Remote_Process
begin

text \<open>
  The way from the caller to the stdin of the process: the messages of the cargo task go through the
  pipe to \<open>handle_coordinator_message\<close>, whose commands \<open>manage_processes\<close> carries out.
\<close>

subsection \<open>The loop of the handler\<close>

definition handler_start :: handler_state where
  "handler_start = \<lparr>hs_tasks = [], hs_to_processes = [], hs_result = None\<rparr>"

definition handler_enabled :: "handler_state \<Rightarrow> handler_event \<Rightarrow> bool" where
  "handler_enabled s e = (hs_result s = None)"

fun handled :: "handler_event \<Rightarrow> coordinator_message multiplexed list" where
  "handled (HcMessage (Some m) _) = [m]"
| "handled _ = []"

text \<open>The command a message becomes.\<close>

definition process_commands :: "coordinator_message \<Rightarrow> process_command list" where
  "process_commands m = (case dispatch m of ToProcesses c \<Rightarrow> [c] | _ \<Rightarrow> [])"

definition to_processes :: "coordinator_message multiplexed \<Rightarrow> process_command multiplexed list" where
  "to_processes m = map (Multiplexed (mx_job m)) (process_commands (mx_body m))"

lemma handler_run:
  "enabled_run handler_enabled handler_step s es \<Longrightarrow>
   prefix (hs_to_processes (foldl handler_step s es)) (hs_to_processes s @ concat (map to_processes (concat (map handled es))))"
proof (induction es arbitrary: s)
  case (Cons e es)
  have run: "enabled_run handler_enabled handler_step (handler_step s e) es" using Cons.prems by simp
  show ?case
  proof (cases "(s, e)" rule: handler_step.cases)
    case (2 s' job msg sent)
    show ?thesis
    proof (cases "\<exists>c. dispatch msg = ToProcesses c \<and> \<not> sent")
      case True
      then have "es = []" using run 2 by (cases es) (auto simp: handler_enabled_def)
      then show ?thesis using True 2 by auto
    next
      case False
      then show ?thesis using Cons.IH [OF run] 2
        by (cases "dispatch msg") (auto simp: to_processes_def process_commands_def)
    qed
  qed (use Cons.IH [OF run] in \<open>auto split: sum.splits\<close>)
qed simp

subsection \<open>From the pipe to the process manager\<close>

fun commanded :: "process_event \<Rightarrow> process_command multiplexed list" where
  "commanded (MpCommand (Some c) _ _) = [c]"
| "commanded _ = []"

definition job_commands :: "job_id \<Rightarrow> process_event list \<Rightarrow> process_command list" where
  "job_commands j es = map mx_body (filter (\<lambda>c. mx_job c = j) (concat (map commanded es)))"

text \<open>
  The coordinator writes its messages \<open>cms\<close> to the pipe, which is read up to \<open>n\<close> bytes; the handler has
  been given some of those that arrived, and the manager some of the commands it passed on.
\<close>

definition passed_on ::
    "coordinator_message multiplexed encoder \<Rightarrow> coordinator_message multiplexed decoder \<Rightarrow> nat \<Rightarrow>
     coordinator_message multiplexed list \<Rightarrow> handler_event list \<Rightarrow> process_event list \<Rightarrow> bool" where
  "passed_on ser de n cms hes mes =
     (case worker_queue_input de (\<lambda>_. True)
             (take n (snd (coordinator_queue_output (\<lambda>_. []) ser (map (\<lambda>m. OutMessage m (Ok ())) cms @ [OutClosed]) []))) of
        None \<Rightarrow> False
      | Some (_, received) \<Rightarrow>
          prefix (concat (map handled hes)) received \<and>
          prefix (concat (map commanded mes)) (hs_to_processes (foldl handler_step handler_start hes)))"

lemma prefix_concat_map: "prefix xs ys \<Longrightarrow> prefix (concat (map f xs)) (concat (map f ys))"
  by (auto simp: prefix_def)

lemma passed_on_commands:
  assumes "passed_on ser de n cms hes mes" and "wire_laws ser de" "list_all (\<lambda>m. is_ok (ser m)) cms"
    and "enabled_run handler_enabled handler_step handler_start hes"
  shows "prefix (concat (map commanded mes)) (concat (map to_processes cms))"
proof -
  have "worker_queue_input de (\<lambda>_. True)
      (take n (snd (coordinator_queue_output (\<lambda>_. []) ser (map (\<lambda>m. OutMessage m (Ok ())) cms @ [OutClosed]) []))) =
      Some (Ok (), complete_within ser n cms)"
    unfolding worker_queue_input_def
    by (simp add: coordinator_output_frames [OF assms(3)] queue_input_frames [OF assms(2,3)])
  with assms(1) have parts: "prefix (concat (map handled hes)) (complete_within ser n cms)"
    "prefix (concat (map commanded mes)) (hs_to_processes (foldl handler_step handler_start hes))"
    by (simp_all add: passed_on_def)
  obtain k where "complete_within ser n cms = take k cms" using complete_within_prefix by blast
  then have "prefix (concat (map handled hes)) cms" using parts(1) take_is_prefix prefix_order.trans by metis
  from prefix_concat_map [OF this]
  have "prefix (hs_to_processes (foldl handler_step handler_start hes)) (concat (map to_processes cms))"
    using handler_run [OF assms(4)] prefix_order.trans by (fastforce simp: handler_start_def)
  with parts(2) show ?thesis by (rule prefix_order.trans)
qed

lemma job_commands_sent:
  "map mx_body (filter (\<lambda>c. mx_job c = j) (concat (map to_processes cms))) =
   concat (map process_commands (map mx_body (filter (\<lambda>m. mx_job m = j) cms)))"
  by (induction cms) (auto simp: to_processes_def comp_def)

lemma job_commands_prefix:
  assumes "passed_on ser de n cms hes mes" and "wire_laws ser de" "list_all (\<lambda>m. is_ok (ser m)) cms"
    and "enabled_run handler_enabled handler_step handler_start hes"
  shows "prefix (job_commands j mes) (concat (map process_commands (map mx_body (filter (\<lambda>m. mx_job m = j) cms))))"
  unfolding job_commands_def job_commands_sent [symmetric]
  by (intro map_mono_prefix filter_mono_prefix passed_on_commands [OF assms])

subsection \<open>What the process gets of its commands\<close>

fun command_text :: "process_command \<Rightarrow> string list" where
  "command_text (PcStdin s) = [s]"
| "command_text _ = []"

lemma job_commands_Cons: "job_commands j (e # es) =
    map mx_body (filter (\<lambda>c. mx_job c = j) (commanded e)) @ job_commands j es"
  by (simp add: job_commands_def)

lemma job_commands_append: "job_commands j (es @ fs) = job_commands j es @ job_commands j fs"
  by (simp add: job_commands_def)

lemma packet_command:
  assumes "\<forall>p sp. e \<noteq> MpCommand (Some (Multiplexed j (PcStdin p))) sp False"
  shows "concat (map command_text (map mx_body (filter (\<lambda>c. mx_job c = j) (commanded e)))) = packet_for j e"
proof (cases e rule: commanded.cases)
  case (1 c sp received)
  obtain i cmd where "c = Multiplexed i cmd" by (cases c)
  with 1 assms show ?thesis by (cases cmd; cases received) auto
qed simp_all

text \<open>The packets before the close are a first part of all packets that were sent.\<close>

lemma packets_are_commands:
  "manage_inv s \<Longrightarrow> ps_stdin_senders s j = Some k \<Longrightarrow> \<forall>e \<in> set es. \<not> starts j e \<Longrightarrow>
   enabled_run manage_enabled (manage_step texts acc) s es \<Longrightarrow>
   prefix (packets_until_close j es) (concat (map command_text (job_commands j es)))"
proof (induction es arbitrary: s)
  case (Cons e es)
  let ?s = "manage_step texts acc s e"
  have step: "ps_stdin_senders ?s j = (if closes j e then None else Some k)" "manage_inv ?s"
    using channel_step [OF Cons.prems(1,2)] Cons.prems(3) manage_step_inv [OF Cons.prems(1)] by auto
  have run: "enabled_run manage_enabled (manage_step texts acc) ?s es" using Cons.prems(4) by simp
  show ?case
  proof (cases "closes j e")
    case False
    then have IH: "prefix (packets_until_close j es) (concat (map command_text (job_commands j es)))"
      using Cons.IH [OF step(2) _ _ run] step(1) Cons.prems(3) by simp
    show ?thesis
    proof (cases "\<exists>p sp. e = MpCommand (Some (Multiplexed j (PcStdin p))) sp False")
      case True
      then have "ps_result ?s \<noteq> None" using Cons.prems(2) by (auto simp: process_stdin_def)
      then have "es = []" using run by (cases es) (auto simp: manage_enabled_def)
      then show ?thesis using True by auto
    next
      case not_lost: False
      have "concat (map command_text (map mx_body (filter (\<lambda>c. mx_job c = j) (commanded e)))) = packet_for j e"
        using not_lost by (intro packet_command) blast
      then show ?thesis using IH False by (simp add: job_commands_Cons)
    qed
  qed simp
qed simp

text \<open>All of them when the process did not end first and its stdin took every packet.\<close>

definition undisturbed_stdin :: "job_id \<Rightarrow> process_event \<Rightarrow> bool" where
  "undisturbed_stdin j e \<longleftrightarrow> e \<noteq> MpStdinShutdown (Some j) \<and>
     (\<forall>p sp. e \<noteq> MpCommand (Some (Multiplexed j (PcStdin p))) sp False)"

lemma packets_are_all_commands:
  "list_all (undisturbed_stdin j) es \<Longrightarrow>
   sorted_wrt (\<lambda>a b. a = PcStdinClose \<longrightarrow> command_text b = []) (job_commands j es) \<Longrightarrow>
   packets_until_close j es = concat (map command_text (job_commands j es))"
proof (induction es)
  case (Cons e es)
  let ?here = "map mx_body (filter (\<lambda>c. mx_job c = j) (commanded e))"
  have IH: "packets_until_close j es = concat (map command_text (job_commands j es))"
    using Cons by (simp add: job_commands_Cons sorted_wrt_append)
  show ?case
  proof (cases "closes j e")
    case True
    then have "?here = [PcStdinClose]"
      using Cons.prems(1) by (cases "(j, e)" rule: closes.cases) (auto simp: undisturbed_stdin_def)
    then show ?thesis using True Cons.prems(2) by (auto simp: job_commands_Cons)
  next
    case False
    have "concat (map command_text ?here) = packet_for j e"
      using Cons.prems(1) by (intro packet_command) (simp add: undisturbed_stdin_def)
    then show ?thesis using False IH by (simp add: job_commands_Cons)
  qed
qed (simp add: job_commands_def)

lemma kills_are_commands: "(\<exists>e \<in> set es. kills j e) \<longleftrightarrow> PcKill \<in> set (job_commands j es)"
proof -
  have "kills j e \<longleftrightarrow> PcKill \<in> set (map mx_body (filter (\<lambda>c. mx_job c = j) (commanded e)))" for e
    by (cases "(j, e)" rule: kills.cases) auto
  then show ?thesis by (induction es) (simp_all add: job_commands_Cons, simp add: job_commands_def)
qed

lemma starts_are_commands: "starts j e \<Longrightarrow> e \<in> set es \<Longrightarrow> \<exists>req. PcStart req \<in> set (job_commands j es)"
proof (induction es)
  case (Cons x es)
  have "\<exists>req. PcStart req \<in> set (map mx_body (filter (\<lambda>c. mx_job c = j) (commanded e)))" if "starts j e"
    using that by (cases "(j, e)" rule: starts.cases) auto
  with Cons show ?case by (auto simp: job_commands_Cons)
qed simp

subsection \<open>What the cargo task sends\<close>

lemma kill_sent: "CmKill \<in> set (ct_to_worker (foldl cargo_step s es)) \<longleftrightarrow>
    CmKill \<in> set (ct_to_worker s) \<or> CtCancelled True \<in> set es"
proof (induction es arbitrary: s)
  case (Cons e es)
  have "CmKill \<in> set (ct_to_worker (cargo_step s e)) \<longleftrightarrow> CmKill \<in> set (ct_to_worker s) \<or> e = CtCancelled True"
    by (cases "(s, e)" rule: cargo_step.cases) (auto simp: relay_def)
  with Cons.IH [of "cargo_step s e"] show ?case by auto
qed simp

lemma process_commands_simps:
  "process_commands (CmStdinPacket p) = [PcStdin p]" "process_commands CmStdinClose = [PcStdinClose]"
  "process_commands CmKill = [PcKill]" "process_commands (CmExecuteCommand req) = [PcStart req]"
  by (simp_all add: process_commands_def)

text \<open>What the task sends are commands for a process that runs; packets come before the close.\<close>

lemma cargo_commands:
  assumes "cargo_inv s"
  defines "cmds \<equiv> concat (map process_commands (ct_to_worker s))"
  shows "PcStart req \<notin> set cmds" and "concat (map command_text cmds) = stdin_sent (ct_to_worker s)"
    and "PcKill \<in> set cmds \<longleftrightarrow> CmKill \<in> set (ct_to_worker s)"
    and "sorted_wrt (\<lambda>a b. a = PcStdinClose \<longrightarrow> command_text b = []) cmds"
proof -
  have kinds: "list_all (\<lambda>m. m = CmKill \<or> m = CmStdinClose \<or> packet_text m \<noteq> []) (ct_to_worker s)"
    and order: "sorted_wrt (\<lambda>a b. a = CmStdinClose \<longrightarrow> b = CmKill) (ct_to_worker s)"
    using assms(1) by (simp_all add: cargo_inv_def)
  have kind: "m = CmKill \<or> m = CmStdinClose \<or> (\<exists>p. m = CmStdinPacket p)" if "m \<in> set (ct_to_worker s)" for m
    using kinds that by (cases m) (auto simp: list_all_iff)
  have "PcKill \<in> set (process_commands m) \<longleftrightarrow> m = CmKill"
    "PcStart req \<in> set (process_commands m) \<longleftrightarrow> m = CmExecuteCommand req" for m
    by (cases m; auto simp: process_commands_def)+
  then show "PcStart req \<notin> set cmds" "PcKill \<in> set cmds \<longleftrightarrow> CmKill \<in> set (ct_to_worker s)"
    unfolding cmds_def using kind by auto
  have texts: "concat (map command_text (process_commands m)) = packet_text m" for m
    by (cases m) (simp_all add: process_commands_def)
  have "concat (map command_text (concat (map process_commands ms))) = stdin_sent ms" for ms
    by (induction ms) (simp_all add: texts stdin_sent_def)
  then show "concat (map command_text cmds) = stdin_sent (ct_to_worker s)" by (simp add: cmds_def)
  have "sorted_wrt (\<lambda>a b. a = PcStdinClose \<longrightarrow> command_text b = []) (concat (map process_commands ms))"
    if "\<forall>m \<in> set ms. m = CmKill \<or> m = CmStdinClose \<or> (\<exists>p. m = CmStdinPacket p)"
      "sorted_wrt (\<lambda>a b. a = CmStdinClose \<longrightarrow> b = CmKill) ms" for ms
    using that by (induction ms) (auto simp: process_commands_simps, fastforce simp: process_commands_simps)
  then show "sorted_wrt (\<lambda>a b. a = PcStdinClose \<longrightarrow> command_text b = []) cmds"
    using kind order by (simp add: cmds_def)
qed

text \<open>What the manager has been given of the job is its start and a first part of what the task sent.\<close>

lemma commands_after_start:
  assumes "prefix (pre @ PcStart req # post) (PcStart req' # cmds)" and "PcStart req \<notin> set cmds"
  shows "pre = [] \<and> req' = req \<and> prefix post cmds"
  using assms by (cases pre) (auto simp: prefix_def)

text \<open>
  The messages of the job in \<open>cms\<close> are the request and what the cargo task sent, and the manager has
  started the process; \<open>k\<close> is its stdin channel and its kill token.
\<close>

lemma started_with:
  assumes "passed_on ser de n cms hes (pre @ MpCommand (Some (Multiplexed j (PcStart req))) (Ok ()) received # post)"
    and "wire_laws ser de" "list_all (\<lambda>m. is_ok (ser m)) cms"
    and "enabled_run handler_enabled handler_step handler_start hes"
    and "map mx_body (filter (\<lambda>m. mx_job m = j) cms) = CmExecuteCommand req' # ct_to_worker s" and "cargo_inv s"
  shows "prefix (job_commands j post) (concat (map process_commands (ct_to_worker s)))"
    and "\<forall>x \<in> set post. \<not> starts j x"
proof -
  let ?cmds = "concat (map process_commands (ct_to_worker s))"
  have "prefix (job_commands j pre @ PcStart req # job_commands j post) (PcStart req' # ?cmds)"
    using job_commands_prefix [OF assms(1-4), of j] assms(5)
    by (simp add: job_commands_append job_commands_Cons process_commands_simps)
  then show pre: "prefix (job_commands j post) ?cmds"
    using commands_after_start cargo_commands(1) [OF assms(6)] by blast
  have "PcStart r \<notin> set (job_commands j post)" for r
    using set_mono_prefix [OF pre] cargo_commands(1) [OF assms(6), of r] by blast
  then show "\<forall>x \<in> set post. \<not> starts j x" using starts_are_commands by blast
qed


text \<open>A caller that types a line, closes the input and gives up, while another job gets input as well.\<close>

definition sample_typed :: "cargo_event list" where
  "sample_typed = [CtStdin (Some ''a'') True, CtStdin None True, CtCancelled True]"

definition sample_sent :: "coordinator_message multiplexed list" where
  "sample_sent = [Multiplexed 0 (CmExecuteCommand (execute_command_simple ''cargo'' [])), Multiplexed 1 (CmStdinPacket ''b''),
     Multiplexed 0 (CmStdinPacket ''a''), Multiplexed 0 CmStdinClose, Multiplexed 0 CmKill]"

definition sample_start_event :: process_event where
  "sample_start_event = MpCommand (Some (Multiplexed 0 (PcStart (execute_command_simple ''cargo'' [])))) (Ok ()) True"

definition sample_rest :: "process_event list" where
  "sample_rest = map (\<lambda>c. MpCommand (Some c) (Ok ()) True)
     [Multiplexed 1 (PcStdin ''b''), Multiplexed 0 (PcStdin ''a''), Multiplexed 0 PcStdinClose, Multiplexed 0 PcKill]"

lemma sample_typed_run: "enabled_run (cargo_enabled False) cargo_step cargo_start sample_typed"
  "ct_to_worker (foldl cargo_step cargo_start sample_typed) = [CmStdinPacket ''a'', CmStdinClose, CmKill]"
  by (simp_all add: sample_typed_def cargo_start_def relay_def)

lemma sample_handled: "enabled_run handler_enabled handler_step handler_start (map (\<lambda>m. HcMessage (Some m) True) sample_sent)"
  "hs_to_processes (foldl handler_step handler_start (map (\<lambda>m. HcMessage (Some m) True) sample_sent)) =
     concat (map commanded ([] @ sample_start_event # sample_rest))"
  by (simp_all add: sample_sent_def handler_start_def handler_enabled_def sample_start_event_def sample_rest_def)

lemma sample_managed: "enabled_run manage_enabled (manage_step (\<lambda>_. []) (\<lambda>_. True)) (process_state_new ''/playground'')
    ([] @ sample_start_event # sample_rest)"
  by (simp add: sample_start_event_def sample_rest_def manage_enabled_def process_start_ok process_state_new_def
      drop_guard_def process_stdin_def process_stdin_close_def)

lemma sample_passed_on:
  assumes "wire_laws ser de" and "list_all (\<lambda>m. is_ok (ser m)) sample_sent"
  shows "passed_on ser de (length (frames ser sample_sent)) sample_sent (map (\<lambda>m. HcMessage (Some m) True) sample_sent)
    ([] @ sample_start_event # sample_rest)"
proof -
  have input: "queue_input de a b (\<lambda>_. True) [] (frames ser sample_sent) = Some (Ok (), sample_sent)"
    for a and b :: io_queue_error
    using queue_input_frames [OF assms, of a b "[]" "length (frames ser sample_sent)"] complete_within_all [OF assms(2) order_refl]
    by simp
  have "concat (map handled (map (\<lambda>m. HcMessage (Some m) True) sample_sent)) = sample_sent" by (simp add: sample_sent_def)
  then show ?thesis
    unfolding passed_on_def worker_queue_input_def sample_handled(2) by (simp add: coordinator_output_frames [OF assms(2)] input)
qed


end
