(* ===== verification/Server_Start.thy ===== *)
theory Server_Start
  imports Server_Meta Config_Env Ws_Session
begin

text \<open>
  \<open>ui/src/server_axum.rs\<close>: what \<open>serve\<close> puts together, as far as it is the program's own: the table of
  routes, the headers of static files, what the configuration adds, and how the server ends. Finding the
  route of a request is axum's. And \<open>websocket.rs\<close>: \<open>handle\<close>, the metrics around a session.
\<close>

subsection \<open>Routes\<close>

datatype http_method = HttpGet | HttpPost

datatype route_handler =
    HEvaluate | HCompile | HExecute | HFormat | HClippy | HMiri | HMacroExpansion
  | HMetaCrates | HMetaVersions | HMetaGistCreate | HMetaGistGet
  | HMetrics | HTokioMetrics | HWebsocket | HNoWebsocket | HWhyNoWebsocket | HTrackedContainers

type_synonym method_router = "(http_method \<times> route_handler) list"

definition axum_get :: "route_handler \<Rightarrow> method_router" where "axum_get h = [(HttpGet, h)]"
definition axum_post :: "route_handler \<Rightarrow> method_router" where "axum_post h = [(HttpPost, h)]"

definition get_or_post :: "route_handler \<Rightarrow> method_router" where
  "get_or_post h = axum_get h @ axum_post h"

definition serve_routes :: "(string \<times> method_router) list" where
  "serve_routes =
     [(''/evaluate.json'', axum_post HEvaluate),
      (''/compile'', axum_post HCompile),
      (''/execute'', axum_post HExecute),
      (''/format'', axum_post HFormat),
      (''/clippy'', axum_post HClippy),
      (''/miri'', axum_post HMiri),
      (''/macro-expansion'', axum_post HMacroExpansion),
      (''/meta/crates'', get_or_post HMetaCrates),
      (''/meta/versions'', axum_get HMetaVersions),
      (''/meta/gist'', axum_post HMetaGistCreate),
      (''/meta/gist/'', axum_post HMetaGistCreate),
      (''/meta/gist/{id}'', axum_get HMetaGistGet),
      (''/metrics'', axum_get HMetrics),
      (''/tokio-metrics'', axum_get HTokioMetrics),
      (''/websocket'', axum_get HWebsocket),
      (''/nowebsocket'', axum_post HNoWebsocket),
      (''/internal/debug/whynowebsocket'', axum_get HWhyNoWebsocket),
      (''/internal/debug/tracked-containers'', axum_get HTrackedContainers)]"

text \<open>axum panics when a method of a path is routed twice; here no path is.\<close>

lemma serve_routes_distinct: "distinct (map fst serve_routes)"
  by (simp add: serve_routes_def)

text \<open>No handler is forgotten.\<close>

lemma serve_routes_complete: "h \<in> set (concat (map (\<lambda>(path, ms). map snd ms) serve_routes))"
  by (cases h) (simp_all add: serve_routes_def get_or_post_def axum_get_def axum_post_def)

subsection \<open>Static files and the configuration\<close>

text \<open>\<open>static_file_service\<close> sets the caching of a file that does not have one.\<close>

definition max_age_one_day :: string where "max_age_one_day = ''public, max-age=86400''"
definition max_age_one_year :: string where "max_age_one_year = ''public, max-age=31536000''"

definition with_caching :: "string \<Rightarrow> (string \<rightharpoonup> string) \<Rightarrow> (string \<rightharpoonup> string)" where
  "with_caching max_age headers =
     (case headers ''cache-control'' of
        Some _ \<Rightarrow> headers | None \<Rightarrow> headers(''cache-control'' \<mapsto> max_age))"

text \<open>The extensions the handlers are given, with the token for the metrics only when there is one.\<close>

record extensions =
  xt_github_token :: "string option"
  xt_multifile_threshold :: "f64 option"
  xt_websocket_config :: websocket_config
  xt_metrics_token :: "string option"

definition serve_extensions :: "config \<Rightarrow> extensions" where
  "serve_extensions c = \<lparr>xt_github_token = cf_gh_token c, xt_multifile_threshold = cf_multifile_threshold c,
     xt_websocket_config = cf_websocket_config c, xt_metrics_token = cf_metrics_token c\<rparr>"

record cors_layer =
  cl_any_origin :: bool
  cl_headers :: "string list"
  cl_methods :: "http_method list"
  cl_credentials :: bool
  cl_max_age :: nat

definition serve_cors :: "config \<Rightarrow> cors_layer option" where
  "serve_cors c =
     (if cf_cors_enabled c
      then Some \<lparr>cl_any_origin = True, cl_headers = [''content-type''], cl_methods = [HttpGet, HttpPost],
             cl_credentials = False, cl_max_age = 60 * 60\<rparr>
      else None)"

text \<open>The \<open>/metrics\<close> endpoint: the text the encoder writes, or an internal error.\<close>

definition metrics_endpoint ::
    "string option \<Rightarrow> string option \<Rightarrow> ('e, bytes) result \<Rightarrow> (nat, string \<times> bytes) result" where
  "metrics_endpoint expected bearer encoded =
     (case metrics_authorization expected bearer of
        Err (status, _) \<Rightarrow> Err status
      | Ok _ \<Rightarrow>
          (case encoded of
             Err _ \<Rightarrow> Err 500
           | Ok buffer \<Rightarrow> Ok (''text/plain; version=0.0.4; charset=utf-8'', buffer)))"

text \<open>Nobody without the configured token sees the metrics.\<close>

lemma metrics_need_token:
  "metrics_endpoint (xt_metrics_token (serve_extensions c)) bearer encoded = Ok r \<Longrightarrow>
   cf_metrics_token c = None \<or> bearer = cf_metrics_token c"
  by (auto simp: metrics_endpoint_def metrics_authorization_def serve_extensions_def split: option.splits if_splits)

text \<open>
  The \<open>select!\<close> at the end: the server or a background task that ends first ends \<open>serve\<close>, with a panic
  (\<open>None\<close>) when it failed.
\<close>

datatype serve_event =
    ServerEnded "(io_error, unit) result"
  | DbTaskEnded "(join_error, unit) result"
  | CacheCratesTaskEnded "(join_error, unit) result"
  | CacheVersionsTaskEnded "(join_error, unit) result"

fun serve_ends :: "serve_event \<Rightarrow> unit option" where
  "serve_ends (ServerEnded v) = res_ok v"
| "serve_ends (DbTaskEnded v) = res_ok v"
| "serve_ends (CacheCratesTaskEnded v) = res_ok v"
| "serve_ends (CacheVersionsTaskEnded v) = res_ok v"

subsection \<open>The metrics of a websocket\<close>

text \<open>
  \<open>handle\<close> has a guard that counts the live websockets while it runs and observes how long it ran when it
  is dropped, however \<open>handle\<close> ends. A guard has the number of its websocket and when it started.
\<close>

record ws_gauges =
  wg_live :: int
  wg_durations :: "f64 list"
  wg_next_id :: u64
  wg_guards :: "(u64 \<times> f64) list"

definition ws_gauges_new :: ws_gauges where
  "ws_gauges_new = \<lparr>wg_live = 0, wg_durations = [], wg_next_id = 0, wg_guards = []\<rparr>"

definition metric_guard_new :: "f64 \<Rightarrow> ws_gauges \<Rightarrow> ws_gauges" where
  "metric_guard_new now g =
     g\<lparr>wg_live := wg_live g + 1, wg_next_id := wg_next_id g + 1, wg_guards := wg_guards g @ [(wg_next_id g, now)]\<rparr>"

definition metric_guard_drop :: "nat \<Rightarrow> f64 \<Rightarrow> ws_gauges \<Rightarrow> ws_gauges" where
  "metric_guard_drop i now g =
     g\<lparr>wg_live := wg_live g - 1, wg_durations := wg_durations g @ [now - snd (wg_guards g ! i)],
       wg_guards := take i (wg_guards g) @ drop (Suc i) (wg_guards g)\<rparr>"

text \<open>The \<open>clean\<close> flag that is logged: \<open>handle_core\<close> returned or ran into the overall timeout.\<close>

datatype handle_end = CoreReturned | CoreTimedOut | HandleDropped

fun handle_clean :: "handle_end \<Rightarrow> bool" where
  "handle_clean CoreReturned = True"
| "handle_clean CoreTimedOut = True"
| "handle_clean HandleDropped = False"

datatype handle_event = WebsocketStarts f64 | WebsocketEnds nat handle_end f64

fun handle_step :: "ws_gauges \<Rightarrow> handle_event \<Rightarrow> ws_gauges" where
  "handle_step g (WebsocketStarts now) = metric_guard_new now g"
| "handle_step g (WebsocketEnds i _ now) = metric_guard_drop i now g"

fun handle_enabled :: "ws_gauges \<Rightarrow> handle_event \<Rightarrow> bool" where
  "handle_enabled g (WebsocketStarts now) = True"
| "handle_enabled g (WebsocketEnds i _ now) = (i < length (wg_guards g))"

definition gauges_inv :: "nat \<Rightarrow> ws_gauges \<Rightarrow> bool" where
  "gauges_inv n g \<longleftrightarrow> wg_live g = int (length (wg_guards g)) \<and> length (wg_guards g) + length (wg_durations g) = n \<and>
     wg_next_id g = of_nat n"

lemma handle_step_inv:
  "gauges_inv n g \<Longrightarrow> handle_enabled g ev \<Longrightarrow>
   gauges_inv (case ev of WebsocketStarts _ \<Rightarrow> Suc n | WebsocketEnds _ _ _ \<Rightarrow> n) (handle_step g ev)"
  by (cases ev) (auto simp: gauges_inv_def metric_guard_new_def metric_guard_drop_def)

interpretation ha: event_loop handle_enabled handle_step "\<lambda>g. \<exists>n. gauges_inv n g"
  using handle_step_inv by unfold_locales blast

fun is_start :: "handle_event \<Rightarrow> bool" where
  "is_start (WebsocketStarts _) = True"
| "is_start (WebsocketEnds _ _ _) = False"

text \<open>
  The gauge is the number of websockets that are open, every one that ended was observed once, and the
  number of the next is that of all there were, modulo \<open>2 ^ 64\<close>.
\<close>

lemma websockets_counted:
  assumes "enabled_run handle_enabled handle_step ws_gauges_new es"
  defines "g \<equiv> foldl handle_step ws_gauges_new es"
  shows "gauges_inv (length (filter is_start es)) g"
proof -
  have "gauges_inv n g0 \<Longrightarrow> enabled_run handle_enabled handle_step g0 es \<Longrightarrow>
      gauges_inv (n + length (filter is_start es)) (foldl handle_step g0 es)" for n g0
  proof (induction es arbitrary: n g0)
    case (Cons ev es)
    then have run: "enabled_run handle_enabled handle_step (handle_step g0 ev) es" and en: "handle_enabled g0 ev" by simp_all
    from handle_step_inv [OF Cons.prems(1) en] Cons.IH [OF _ run, of "Suc n"] Cons.IH [OF _ run, of n]
    show ?case by (cases ev) simp_all
  qed simp
  from this [OF _ assms(1), of 0] show ?thesis
    by (simp add: g_def) (simp add: gauges_inv_def ws_gauges_new_def)
qed

end
