(* ===== verification/Spec2Isabelle.thy ===== *)
theory Spec2Isabelle
  imports Playground_Prelude BTree_Map Utf8_Std Str_Std Messages Utf8_Reader Worker_Files Cargo_Toml
    Asm_Cleanup Coordinator_Types Requests Commander Cargo_Task Do_Request Request_Tasks Coordinator_Core
    Worker_Process Resource_Limits Json_Std Http_Api Api_Conversions Metrics Cache Request_Db Gist Server_Axum Server_Meta Ws_Execute Ws_Session
    Rounds Top_Crates Io_Queue Config_Env Cargo_Channels Worker_Channels Remote_Process Remote_Input Server_Start
begin

text \<open>
  The Rust Playground, a service that compiles and runs Rust programs people send it.

  \<^bold>\<open>The program.\<close> A web server (\<open>src/ui\<close>) takes requests over HTTP and over a websocket. For each it
  has a \<^emph>\<open>coordinator\<close> (\<open>src/compiler/base/orchestrator/src/coordinator.rs\<close>), which starts a docker
  container per release channel and talks to the \<^emph>\<open>worker\<close> inside (\<open>worker.rs\<close>) with messages
  (\<open>message.rs\<close>) over the standard streams of the container. The worker writes, reads and deletes
  files and runs processes; the coordinator prepares a project, edits its \<open>Cargo.toml\<close>
  (\<open>modify-cargo-toml\<close>), runs cargo, streams its output and cleans up assembly (\<open>asm-cleanup\<close>). How
  many containers and processes there are is limited globally (\<open>coordinator/limits.rs\<close>). Apart from
  the service, \<open>src/top-crates\<close> makes the list of crates the playground offers.

  \<^bold>\<open>Reading the model.\<close> Rust's \<open>Result\<close> is \<open>'e + 'a\<close> with \<open>Err\<close> and \<open>Ok\<close>, and \<open>?\<close> is \<open>res_bind\<close>; each
  error enum is a datatype with the constructors of the source. A struct is a record, a map a partial
  function or, where its order shows, an ordered association list (\<open>BTree_Map\<close>). A panic is a value: an
  error of its own or \<open>None\<close>, as the definition says. Asynchronous code is written in two ways. A loop
  around \<open>select!\<close> is a step function on a state and an event, with a predicate that says which
  events the loop waits for; its runs are \<open>enabled_run\<close>s of any length, so every interleaving is
  there, and the locale \<open>event_loop\<close> lifts a lemma on one step to all runs. Straight-line code is a
  function of what the outside answers: the operating system, docker, SQLite, GitHub and cargo are
  arguments, with their failures among the answers. Third-party crates (serde's formats for enums apart,
  which \<open>Json_Std\<close> writes out) are arguments as well: regex, petgraph, bincode, TOML text, the
  percent encoding and the database.

  \<^bold>\<open>Shared theories.\<close>
  \<^item> \<open>Playground_Prelude\<close>: results, runs, and the locales \<open>event_loop\<close>, \<open>monotone_loop\<close> and
    \<open>name_codec\<close> (a parser and the printer of a closed set of names).
  \<^item> \<open>BTree_Map\<close>: ordered maps, with the contract \<open>ordered_map\<close>; \<open>Rounds\<close>: loops that visit a graph round
    by round, with the contract \<open>rounds\<close>, stable sorting and grouping.
  \<^item> \<open>Utf8_Std\<close>, \<open>Str_Std\<close>, \<open>Json_Std\<close>: UTF-8 validity, string functions and decimal numbers, JSON values
    and how derived deserializers read them.

  \<^bold>\<open>Worker and coordinator\<close> (\<open>src/compiler/base\<close>).
  \<^item> \<open>Messages\<close> (\<open>message.rs\<close>): the messages, and \<open>one_to_one\<close>, the pairing of a request and its response.
  \<^item> \<open>Io_Queue\<close> (\<open>spawn_io_queue\<close> on both sides, \<open>stream_stdio\<close>'s stdin, \<open>listen\<close>): the tasks at both ends of
    the pipes. Shown: what one side writes arrives in order, whole messages only, wherever the pipe is cut.
  \<^item> \<open>Utf8_Reader\<close> (\<open>copy_child_output\<close>, \<open>Utf8BufReader\<close>, \<open>MultiplexingSender\<close>): cutting a byte stream into
    UTF-8 packets. Shown: the packets are the longest valid prefix for every way the reads are cut, and
    the bound on the output. The loop takes fuel, one unit for a packet; the theorems say that more
    units than bytes are enough, because every packet has a byte.
  \<^item> \<open>Worker_Files\<close>, \<open>Worker_Process\<close> (\<open>handle_*_file\<close>, \<open>manage_processes\<close>, \<open>process_begin\<close>,
    \<open>process_end\<close>, \<open>handle_coordinator_message\<close>): files on an explicit file system, processes with the
    stdin senders and kill tokens of their jobs. Shown: round trips, that jobs do not disturb each other,
    and when a process counts as finished. \<open>Worker_Channels\<close> adds the bounded stdin channel of a process,
    on which the loop of \<open>manage_processes\<close> waits. Shown: it refines the loop without bounds, and a process
    that does not read stops the whole loop.
  \<^item> \<open>Cargo_Toml\<close>, \<open>Asm_Cleanup\<close>: the two helper crates. Shown: what each edit changes and leaves, that
    edits never panic on documents they can read and when they commute; that the filter keeps exactly
    the code reachable from the operands.
  \<^item> \<open>Coordinator_Types\<close>, \<open>Requests\<close> (enums, \<open>LowerRequest\<close>, \<open>CargoTomlModifier\<close>): what each request
    writes, deletes and runs; \<open>Do_Request\<close>: the concurrent preparation and that cargo starts only after it.
  \<^item> \<open>Commander\<close> (\<open>Commander::demultiplex\<close>, \<open>one\<close>, \<open>many\<close>), \<open>Cargo_Task\<close> (\<open>spawn_cargo_task\<close>): routing of
    messages to the listeners of a job, and the relay between a caller and a running cargo. Shown: each
    listener gets exactly its messages in order; what the relay sends and delivers. \<open>Cargo_Channels\<close> adds
    the channels of eight between the relay and its caller. Shown: it refines the relay without bounds;
    one stream that nobody reads stops it, and with it the kill.
  \<^item> \<open>Remote_Process\<close>, \<open>Remote_Input\<close>: one process from end to end, the components above composed. Shown: what
    the process prints is what the caller of a request that succeeded has received, stream by stream and
    byte by byte; what the caller types and its cancellation are what the process gets.
  \<^item> \<open>Request_Tasks\<close>, \<open>Coordinator_Core\<close>: the results of the requests; containers, \<open>TerminateContainer\<close>,
    \<open>select_channel\<close>, \<open>idle\<close>, \<open>shutdown\<close>, dropping. Shown: every container that was started is held and
    tracked or was killed once, in every run, also when steps fail.
  \<^item> \<open>Resource_Limits\<close> (\<open>limits::Global\<close>, \<open>LifecycleMetrics\<close>): permits as futures that are polled, granted
    and dropped. Shown: the limits hold and the gauges count; names are unique until the counter of 64
    bits wraps.

  \<^bold>\<open>Server\<close> (\<open>src/ui/src\<close>).
  \<^item> \<open>Config_Env\<close> (\<open>main.rs\<close>): the configuration from the environment, with what is out of range.
  \<^item> \<open>Http_Api\<close>, \<open>Api_Conversions\<close> (\<open>public_http_api.rs\<close>, \<open>api_orchestrator_integration_impls\<close>): JSON bodies
    and their conversion. Shown: round trips, and exactly which requests are accepted.
  \<^item> \<open>Metrics\<close>, \<open>Request_Db\<close>, \<open>Cache\<close>, \<open>Gist\<close>: the labels of the request metric, the log of requests, the
    renewal of cached values, gists. Shown: a request has one row, ended at most once; the last good value
    is served; a shared program is loaded again as it was.
  \<^item> \<open>Server_Axum\<close>, \<open>Server_Meta\<close> (\<open>server_axum.rs\<close>): the endpoints, composed of the coordinator, the log and
    the metrics. Shown: a request is handled to the end whatever fails, its containers are killed, it
    is counted once and its row is ended; a client is told that nothing changed exactly when it has
    what the cache has.
  \<^item> \<open>Ws_Execute\<close>, \<open>Ws_Session\<close> (\<open>websocket.rs\<close>): the messages, one execution, and the session with its
    bounded channels, whose suspended sends are part of the state. Shown: what an execution streams
    and that it comes to its end; that a session runs one execution at a time and leaves no container;
    how a full channel blocks a session for good; what the garbage collection cancels.
  \<^item> \<open>Server_Start\<close> (\<open>serve\<close>, \<open>handle\<close>): the table of routes, what the configuration adds to the handlers, how
    the server ends, and the gauge and durations of websockets, which count exactly.

  \<^bold>\<open>top-crates\<close> (\<open>src/top-crates/src\<close>). \<open>Top_Crates\<close>: the initial crates, the traversal of the dependencies
  as a loop with a value only when it returns, the growth until nothing is new, and the names in
  the manifest. Shown: when the traversal returns and what it then has, that the whole generation
  returns for a registry of finite size without cycles, and when no crate is lost.

  \<^bold>\<open>How components meet.\<close> \<open>Server_Axum\<close> runs the definitions of \<open>Coordinator_Core\<close>, \<open>Request_Tasks\<close>,
  \<open>Request_Db\<close> and \<open>Metrics\<close>, and \<open>Ws_Session\<close> those of \<open>Coordinator_Core\<close> and \<open>Ws_Execute\<close>; their
  properties rest on the invariant \<open>accounted\<close> of the containers. \<open>Remote_Process\<close> and \<open>Remote_Input\<close> chain
  \<open>Utf8_Reader\<close>, \<open>Worker_Process\<close>, \<open>Io_Queue\<close>, \<open>Commander\<close> and \<open>Cargo_Task\<close>, with bincode as the only assumption. \<open>permits_are_fresh\<close> below shows that the
  names that \<open>Resource_Limits\<close> hands out meet what \<open>Coordinator_Core\<close> asks of them.

  \<^bold>\<open>Not modelled.\<close> Time is in the model where the code computes with it (the cache); elsewhere a timeout is
  an event that may happen. How axum finds the route of a request and applies its layers, the files it
  serves, request ids and logging, what procfs and the system calls of macOS return (they are arguments
  of the readers of process statistics), the set-up of cargo, the downloads and the scratch directory of
  \<open>top-crates\<close>, and the start of the worker binary are wiring of libraries or pure input and output. Tests, the browser client in TypeScript, and
  the docker images are not part of the model.
\<close>

section \<open>Limits and coordinators together\<close>

text \<open>The permits that the starts of an operation use, and that an idling is one of the code's.\<close>

fun op_permits :: "coordinator_op \<Rightarrow> string list" where
  "op_permits (SelectChannel channel a) = (case sa_permit a of Err _ \<Rightarrow> [] | Ok permit \<Rightarrow> [permit])"
| "op_permits (Idle polls finish) = []"

fun op_proper :: "coordinator_op \<Rightarrow> bool" where
  "op_proper (SelectChannel channel a) = True"
| "op_proper (Idle polls finish) \<longleftrightarrow> mset (map fst polls) = {#Stable, Beta, Nightly#} \<and> set finish = {0, 1, 2}"

lemma terminate_started [simp]: "h_started (terminate_drop t h) = h_started h"
  "terminate_now o' t h = (r, t', h') \<Longrightarrow> h_started h' = h_started h"
  by (auto simp: terminate_drop_def terminate_now_def run_kill_def stop_tracking_def split: option.splits prod.splits)

lemma container_shutdown_started: "h_started (snd (container_shutdown a k h)) = h_started h"
  by (auto simp: container_shutdown_def split: prod.split sum.split)

lemma idle_polls_started: "h_started (snd (snd (idle_polls polls rs (c, h)))) = h_started h"
proof (induction polls arbitrary: rs c h)
  case (Cons p polls)
  obtain channel a where p: "p = (channel, a)" by (cases p)
  show ?case
  proof (cases "cell c channel")
    case (Some k)
    obtain r h1 where r: "container_shutdown a k h = (r, h1)" by (cases "container_shutdown a k h")
    then have "h_started h1 = h_started h" using container_shutdown_started [of a k h] by simp
    then show ?thesis using Cons.IH by (simp add: p Some r split: kill_answer.split sum.split)
  qed (use Cons.IH in \<open>simp add: p\<close>)
qed simp

lemma idle_started: "h_started (snd (snd (idle polls finish ch))) = h_started (snd ch)"
proof -
  obtain c h where ch: "ch = (c, h)" by (cases ch)
  let ?c = "c\<lparr>co_cancelled := co_cancelled c @ [co_token c], co_token := co_token c + 1\<rparr>"
  obtain r c1 h1 where r: "idle_polls polls [] (?c, h) = (r, c1, h1)" by (metis surj_pair)
  then have "h_started h1 = h_started h" using idle_polls_started [of polls "[]" ?c h] by simp
  then show ?thesis unfolding ch idle_def Let_def prod.case r by (simp split: sum.split option.split)
qed

lemma container_new_started: "set (h_started (snd (container_new arch channel a token h))) \<subseteq>
    set (h_started h) \<union> container_name ` set (op_permits (SelectChannel channel a))"
  by (auto simp: container_new_def run_worker_in_background_def prepare_worker_command_def Let_def
      terminate_container_new_def start_tracking_def split: sum.splits if_splits)

lemma step_started: "set (h_started (snd (coordinator_step arch ch op))) \<subseteq>
    set (h_started (snd ch)) \<union> container_name ` set (op_permits op)"
proof (cases op)
  case (SelectChannel channel a)
  obtain c h where ch: "ch = (c, h)" by (cases ch)
  obtain r h1 where r: "container_new arch channel a (co_token c) h = (r, h1)" by (metis surj_pair)
  then show ?thesis using container_new_started [of arch channel a "co_token c" h]
    by (auto simp: SelectChannel ch select_channel_def split: option.split sum.split)
qed (simp add: idle_started)

lemma container_name_inj: "container_name p = container_name q \<longleftrightarrow> p = q"
  by (simp add: container_name_def)

lemma different_permits_enabled:
  "list_all op_proper ops \<Longrightarrow> distinct (concat (map op_permits ops)) \<Longrightarrow>
   (\<And>p. p \<in> set (concat (map op_permits ops)) \<Longrightarrow> container_name p \<notin> set (h_started (snd ch))) \<Longrightarrow>
   enabled_run coordinator_enabled (coordinator_step arch) ch ops"
proof (induction ops arbitrary: ch)
  case (Cons op ops)
  have "coordinator_enabled ch op"
    using Cons.prems(1,3) by (cases op) (auto simp: fresh_permit_def split: sum.splits)
  moreover have "container_name p \<notin> set (h_started (snd (coordinator_step arch ch op)))"
    if "p \<in> set (concat (map op_permits ops))" for p
  proof -
    have "p \<notin> set (op_permits op)" using Cons.prems(2) that by auto
    moreover have "container_name p \<notin> set (h_started (snd ch))" by (rule Cons.prems(3)) (use that in simp)
    ultimately show ?thesis using step_started [of arch ch op] by (auto simp: container_name_inj)
  qed
  ultimately show ?case using Cons.IH Cons.prems(1,2) by simp
qed simp

text \<open>
  A coordinator whose starts use permits of different requests to one \<open>Global\<close>, in any order and
  whatever becomes of the other requests, meets what its properties ask: until the counter wraps the
  names it is handed are fresh.
\<close>

lemma permits_are_fresh:
  assumes "length (lm_ids (foldl limits_step (with_lifecycle cl pl start) es)) \<le> 2 ^ 64"
    and "concat (map op_permits ops) =
      map (\<lambda>j. show_permit start (lm_ids (foldl limits_step (with_lifecycle cl pl start) es) ! j)) js"
    and "distinct js" and "\<forall>j \<in> set js. j < length (lm_ids (foldl limits_step (with_lifecycle cl pl start) es))"
    and "list_all op_proper ops"
  shows "enabled_run coordinator_enabled (coordinator_step arch) (coordinator_build, no_containers) ops"
proof -
  define s where "s = foldl limits_step (with_lifecycle cl pl start) es"
  have "counted (with_lifecycle cl pl start)" by (simp add: counted_def with_lifecycle_def)
  then have "counted s" unfolding s_def by (rule limits_run_counted)
  then have "distinct (lm_ids s)"
    using assms(1) counted_names [of s] by (simp add: s_def permit_names_def distinct_map)
  then have "inj_on (\<lambda>j. show_permit start (lm_ids s ! j)) (set js)"
    using assms(4) by (auto simp: inj_on_def s_def show_permit_inj nth_eq_iff_index_eq)
  then have "distinct (concat (map op_permits ops))"
    using assms(2,3) by (simp add: s_def distinct_map)
  then show ?thesis by (rule different_permits_enabled [OF assms(5)]) (simp add: no_containers_def)
qed

end
